(* ===== verification/Prelude.thy ===== *)
theory Prelude
  imports Main "HOL-Library.Word" "HOL-Library.Char_ord" "HOL-Library.List_Lexorder"
begin

text \<open>
  What the components share: results with early return (Rust's \<open>?\<close>), options turned into
  results, indexed traversals, machine integers, UTF-8 byte strings, and the ordered maps
  (\<open>BTreeMap\<close>) with the map contract every client proof rests on.
\<close>

named_theorems result_simps \<open>inversion of computations with early return\<close>
named_theorems kv_simps \<open>reading a map after inserting or removing\<close>

section \<open>Machine integers\<close>

type_synonym u64 = "64 word"
type_synonym i64 = "64 word"

text \<open>An \<open>i64\<close> that SQLite or a conversion handles is an \<open>int\<close> with its range written out.\<close>

definition i64_min :: int where
  "i64_min = - (2 ^ 63)"

definition i64_max :: int where
  "i64_max = 2 ^ 63 - 1"

definition i64_try_from :: "int \<Rightarrow> int option" where
  "i64_try_from n = (if i64_min \<le> n \<and> n \<le> i64_max then Some n else None)"

lemma i64_try_from_Some [simp]:
  "i64_try_from n = Some m \<longleftrightarrow> m = n \<and> i64_min \<le> n \<and> n \<le> i64_max"
  by (auto simp: i64_try_from_def)

lemma i64_try_from_None [simp]:
  "i64_try_from n = None \<longleftrightarrow> n < i64_min \<or> i64_max < n"
  by (auto simp: i64_try_from_def)

section \<open>Results and options\<close>

text \<open>A Rust \<open>Result<a, e>\<close> is \<open>'e + 'a\<close>, with \<open>Inl\<close> for \<open>Err\<close>.\<close>

definition res_bind :: "'e + 'a \<Rightarrow> ('a \<Rightarrow> 'e + 'b) \<Rightarrow> 'e + 'b" where
  "res_bind m f = (case m of Inl e \<Rightarrow> Inl e | Inr x \<Rightarrow> f x)"

definition ok_or :: "'e \<Rightarrow> 'a option \<Rightarrow> 'e + 'a" where
  "ok_or e x = (case x of None \<Rightarrow> Inl e | Some y \<Rightarrow> Inr y)"

definition map_err :: "('e \<Rightarrow> 'f) \<Rightarrow> 'e + 'a \<Rightarrow> 'f + 'a" where
  "map_err g m = (case m of Inl e \<Rightarrow> Inl (g e) | Inr x \<Rightarrow> Inr x)"

text \<open>\<open>x.map(f).transpose()?\<close>\<close>

definition res_opt :: "('a \<Rightarrow> 'e + 'b) \<Rightarrow> 'a option \<Rightarrow> 'e + 'b option" where
  "res_opt f x = (case x of None \<Rightarrow> Inr None | Some y \<Rightarrow> res_bind (f y) (\<lambda>z. Inr (Some z)))"

text \<open>\<open>xs.iter().enumerate().map(f).collect::<Result<Vec<_>, _>>()?\<close>, counting from \<open>i\<close>.\<close>

fun res_map_from :: "nat \<Rightarrow> (nat \<Rightarrow> 'a \<Rightarrow> 'e + 'b) \<Rightarrow> 'a list \<Rightarrow> 'e + 'b list" where
  "res_map_from i f [] = Inr []"
| "res_map_from i f (x # xs) =
     res_bind (f i x) (\<lambda>y. res_bind (res_map_from (Suc i) f xs) (\<lambda>ys. Inr (y # ys)))"

lemma res_bind_simps [simp]:
  "res_bind (Inl e) f = Inl e"
  "res_bind (Inr x) f = f x"
  by (simp_all add: res_bind_def)

lemma res_bind_cong [fundef_cong]:
  "m = m' \<Longrightarrow> (\<And>x. m' = Inr x \<Longrightarrow> f x = f' x) \<Longrightarrow> res_bind m f = res_bind m' f'"
  by (cases m') simp_all

lemma res_bind_Inr_iff [result_simps]:
  "res_bind m f = Inr y \<longleftrightarrow> (\<exists>x. m = Inr x \<and> f x = Inr y)"
  by (cases m) simp_all

lemma res_bind_Inl_iff:
  "res_bind m f = Inl e \<longleftrightarrow> m = Inl e \<or> (\<exists>x. m = Inr x \<and> f x = Inl e)"
  by (cases m) simp_all

text \<open>Inversion one step at a time, for long chains.\<close>

lemma res_bindE:
  assumes "res_bind m f = Inr y" obtains x where "m = Inr x" "f x = Inr y"
  using assms by (cases m) auto

lemma res_bind_pairE:
  assumes "res_bind m (\<lambda>(a, b). f a b) = Inr y" obtains a b where "m = Inr (a, b)" "f a b = Inr y"
  using assms by (cases m) auto

lemma res_letE:
  assumes "(let x = t in f x) = Inr y" obtains "f t = Inr y"
  using assms by (simp add: Let_def)

lemma res_guardE:
  assumes "(if b then Inl e else m) = Inr y" obtains "\<not> b" "m = Inr y"
  using assms by (auto split: if_splits)

lemmas result_elims = res_bind_pairE res_bindE res_letE res_guardE

lemma ok_or_simps [simp]:
  "ok_or e None = Inl e"
  "ok_or e (Some x) = Inr x"
  by (simp_all add: ok_or_def)

lemma ok_or_Inr_iff [result_simps]: "ok_or e x = Inr y \<longleftrightarrow> x = Some y"
  by (cases x) simp_all

lemma ok_or_Inl_iff [result_simps]: "ok_or e x = Inl d \<longleftrightarrow> x = None \<and> d = e"
  by (cases x) auto

lemma map_err_simps [simp]:
  "map_err g (Inl e) = Inl (g e)"
  "map_err g (Inr x) = Inr x"
  by (simp_all add: map_err_def)

lemma map_err_Inr_iff [result_simps]: "map_err g m = Inr y \<longleftrightarrow> m = Inr y"
  by (cases m) simp_all

lemma res_opt_simps [simp]:
  "res_opt f None = Inr None"
  "res_opt f (Some y) = res_bind (f y) (\<lambda>z. Inr (Some z))"
  by (simp_all add: res_opt_def)

lemma res_opt_Inr_iff [result_simps]:
  "res_opt f x = Inr r \<longleftrightarrow>
     (x = None \<and> r = None) \<or> (\<exists>y z. x = Some y \<and> f y = Inr z \<and> r = Some z)"
  by (cases x) (auto simp: res_bind_Inr_iff)

lemma res_map_from_Cons_iff [result_simps]:
  "res_map_from i f (x # xs) = Inr r \<longleftrightarrow>
     (\<exists>y ys. f i x = Inr y \<and> res_map_from (Suc i) f xs = Inr ys \<and> r = y # ys)"
  by (auto simp: res_bind_Inr_iff)

lemma res_map_from_length: "res_map_from i f xs = Inr ys \<Longrightarrow> length ys = length xs"
  by (induction xs arbitrary: i ys) (auto simp: result_simps simp del: res_map_from.simps(2))

lemma res_map_from_nth:
  "res_map_from i f xs = Inr ys \<Longrightarrow> k < length xs \<Longrightarrow> f (i + k) (xs ! k) = Inr (ys ! k)"
proof (induction xs arbitrary: i ys k)
  case Nil
  then show ?case by simp
next
  case (Cons x xs)
  then obtain y ys' where "f i x = Inr y" "res_map_from (Suc i) f xs = Inr ys'" "ys = y # ys'"
    by (auto simp: result_simps simp del: res_map_from.simps(2))
  with Cons show ?case by (cases k) fastforce+
qed

text \<open>A traversal that cannot fail on any element is a map.\<close>

lemma res_map_from_all_ok:
  "(\<And>j x. x \<in> set xs \<Longrightarrow> f j x = Inr (g x)) \<Longrightarrow> res_map_from i f xs = Inr (map g xs)"
  by (induction xs arbitrary: i) simp_all

lemma res_map_from_app:
  "res_map_from i f (xs @ ys) =
     res_bind (res_map_from i f xs) (\<lambda>as.
     res_bind (res_map_from (i + length xs) f ys) (\<lambda>bs. Inr (as @ bs)))"
proof (induction xs arbitrary: i)
  case Nil
  then show ?case by (cases "res_map_from i f ys") simp_all
next
  case (Cons x xs)
  then show ?case
    by (cases "f i x"; cases "res_map_from (Suc i) f xs";
        cases "res_map_from (Suc (i + length xs)) f ys") simp_all
qed

text \<open>Methods of \<open>Option\<close>: \<open>and_then\<close>, \<open>filter\<close> and \<open>is_none_or\<close>.\<close>

definition opt_bind :: "'a option \<Rightarrow> ('a \<Rightarrow> 'b option) \<Rightarrow> 'b option" where
  "opt_bind x f = (case x of None \<Rightarrow> None | Some y \<Rightarrow> f y)"

definition opt_filter :: "('a \<Rightarrow> bool) \<Rightarrow> 'a option \<Rightarrow> 'a option" where
  "opt_filter P x = (case x of Some y \<Rightarrow> if P y then Some y else None | None \<Rightarrow> None)"

definition opt_all :: "('a \<Rightarrow> bool) \<Rightarrow> 'a option \<Rightarrow> bool" where
  "opt_all P x = (case x of None \<Rightarrow> True | Some y \<Rightarrow> P y)"

lemma opt_bind_Some [simp]: "opt_bind x f = Some y \<longleftrightarrow> (\<exists>z. x = Some z \<and> f z = Some y)"
  by (cases x) (simp_all add: opt_bind_def)

lemma opt_bind_simps [simp]: "opt_bind None f = None" "opt_bind (Some x) f = f x"
  by (simp_all add: opt_bind_def)

lemma opt_filter_Some [simp]: "opt_filter P x = Some y \<longleftrightarrow> x = Some y \<and> P y"
  by (cases x) (auto simp: opt_filter_def)

lemma opt_filter_simps [simp]: "opt_filter P None = None" "opt_filter P (Some x) = (if P x then Some x else None)"
  by (simp_all add: opt_filter_def)

lemma opt_all_simps [simp]:
  "opt_all P None"
  "opt_all P (Some x) = P x"
  by (simp_all add: opt_all_def)

section \<open>Strings\<close>

text \<open>
  A Rust string is its UTF-8 bytes, one \<open>char\<close> each, so lengths and orders are those of the
  bytes. \<open>show_nat\<close> is the \<open>Display\<close> of an unsigned integer.
\<close>

definition digit_char :: "nat \<Rightarrow> char" where
  "digit_char d = ''0123456789'' ! d"

fun show_nat :: "nat \<Rightarrow> string" where
  "show_nat n =
     (if n < 10 then [digit_char n] else show_nat (n div 10) @ [digit_char (n mod 10)])"

declare show_nat.simps [simp del]

definition show_int :: "int \<Rightarrow> string" where
  "show_int i = (if i < 0 then ''-'' @ show_nat (nat (- i)) else show_nat (nat i))"

definition byte :: "char \<Rightarrow> nat" where
  "byte c = of_char c"

definition is_ascii_whitespace :: "char \<Rightarrow> bool" where
  "is_ascii_whitespace c \<longleftrightarrow> byte c \<in> {9, 10, 12, 13, 32}"

definition is_ascii_digit :: "char \<Rightarrow> bool" where
  "is_ascii_digit c \<longleftrightarrow> 48 \<le> byte c \<and> byte c \<le> 57"

definition to_ascii_lowercase :: "char \<Rightarrow> char" where
  "to_ascii_lowercase c = (if 65 \<le> byte c \<and> byte c \<le> 90 then char_of (byte c + 32) else c)"

definition eq_ignore_ascii_case :: "string \<Rightarrow> string \<Rightarrow> bool" where
  "eq_ignore_ascii_case a b \<longleftrightarrow> map to_ascii_lowercase a = map to_ascii_lowercase b"

fun strip_prefix :: "string \<Rightarrow> string \<Rightarrow> string option" where
  "strip_prefix [] s = Some s"
| "strip_prefix (p # ps) [] = None"
| "strip_prefix (p # ps) (c # cs) = (if p = c then strip_prefix ps cs else None)"

lemma strip_prefix_Some [simp]: "strip_prefix p s = Some r \<longleftrightarrow> s = p @ r"
  by (induction p s rule: strip_prefix.induct) auto

lemma strip_prefix_None: "strip_prefix p s = None \<longleftrightarrow> (\<nexists>r. s = p @ r)"
  by (metis not_Some_eq strip_prefix_Some)

text \<open>
  The characters \<open>char::is_whitespace\<close> accepts, as their UTF-8 encodings; \<open>str::trim\<close> removes
  them from both ends.
\<close>

definition white_space :: "string list" where
  "white_space =
     [[CHR 0x09], [CHR 0x0A], [CHR 0x0B], [CHR 0x0C], [CHR 0x0D], [CHR 0x20],
      [CHR 0xC2, CHR 0x85], [CHR 0xC2, CHR 0xA0], [CHR 0xE1, CHR 0x9A, CHR 0x80],
      [CHR 0xE2, CHR 0x80, CHR 0x80], [CHR 0xE2, CHR 0x80, CHR 0x81],
      [CHR 0xE2, CHR 0x80, CHR 0x82], [CHR 0xE2, CHR 0x80, CHR 0x83],
      [CHR 0xE2, CHR 0x80, CHR 0x84], [CHR 0xE2, CHR 0x80, CHR 0x85],
      [CHR 0xE2, CHR 0x80, CHR 0x86], [CHR 0xE2, CHR 0x80, CHR 0x87],
      [CHR 0xE2, CHR 0x80, CHR 0x88], [CHR 0xE2, CHR 0x80, CHR 0x89],
      [CHR 0xE2, CHR 0x80, CHR 0x8A], [CHR 0xE2, CHR 0x80, CHR 0xA8],
      [CHR 0xE2, CHR 0x80, CHR 0xA9], [CHR 0xE2, CHR 0x80, CHR 0xAF],
      [CHR 0xE2, CHR 0x81, CHR 0x9F], [CHR 0xE3, CHR 0x80, CHR 0x80]]"

fun first_stripped :: "string list \<Rightarrow> string \<Rightarrow> string option" where
  "first_stripped [] s = None"
| "first_stripped (p # ps) s =
     (case strip_prefix p s of Some r \<Rightarrow> Some r | None \<Rightarrow> first_stripped ps s)"

lemma first_stripped_Some:
  "first_stripped ps s = Some r \<Longrightarrow> \<exists>p \<in> set ps. s = p @ r"
  by (induction ps) (auto split: option.splits)

lemma white_space_nonempty: "p \<in> set white_space \<Longrightarrow> p \<noteq> []"
  by (auto simp: white_space_def)

lemma first_stripped_shorter:
  assumes "first_stripped ps s = Some r" and "\<And>p. p \<in> set ps \<Longrightarrow> p \<noteq> []"
  shows "length r < length s"
  using first_stripped_Some [OF assms(1)] assms(2) by fastforce

function trim_start :: "string \<Rightarrow> string" where
  "trim_start s = (case first_stripped white_space s of Some r \<Rightarrow> trim_start r | None \<Rightarrow> s)"
  by pat_completeness auto
termination
  by (relation "measure length") (use first_stripped_shorter white_space_nonempty in auto)

function trim_rev :: "string \<Rightarrow> string" where
  "trim_rev s =
     (case first_stripped (map rev white_space) s of Some r \<Rightarrow> trim_rev r | None \<Rightarrow> s)"
  by pat_completeness auto
termination
  by (relation "measure length")
    (use first_stripped_shorter [of "map rev white_space"] white_space_nonempty in fastforce)+

declare trim_start.simps [simp del] trim_rev.simps [simp del]

definition trim :: "string \<Rightarrow> string" where
  "trim s = rev (trim_rev (rev (trim_start s)))"

section \<open>The map contract\<close>

text \<open>
  What a client relies on from a keyed collection: reading after a write and after a removal. An
  ordered collection also has a well-formedness its operations keep, and is determined by what it
  answers.
\<close>

locale keyed_store =
  fixes get :: "'m \<Rightarrow> 'k \<Rightarrow> 'v option"
    and ins :: "'k \<Rightarrow> 'v \<Rightarrow> 'm \<Rightarrow> 'm"
    and del :: "'k \<Rightarrow> 'm \<Rightarrow> 'm"
  assumes get_ins: "get (ins k v m) = (get m)(k \<mapsto> v)"
    and get_del: "get (del k m) = (get m)(k := None)"
begin

lemma get_ins_other: "j \<noteq> k \<Longrightarrow> get (ins k v m) j = get m j"
  by (simp add: get_ins)

lemma get_del_other: "j \<noteq> k \<Longrightarrow> get (del k m) j = get m j"
  by (simp add: get_del)

lemma get_ins_same: "get (ins k v m) k = Some v"
  by (simp add: get_ins)

lemma get_del_same: "get (del k m) k = None"
  by (simp add: get_del)

end

locale keyed_map = keyed_store get ins del
  for get :: "'m \<Rightarrow> 'k \<Rightarrow> 'v option"
    and ins :: "'k \<Rightarrow> 'v \<Rightarrow> 'm \<Rightarrow> 'm"
    and del :: "'k \<Rightarrow> 'm \<Rightarrow> 'm" +
  fixes wf :: "'m \<Rightarrow> bool"
  assumes wf_ins: "wf m \<Longrightarrow> wf (ins k v m)"
    and wf_del: "wf m \<Longrightarrow> wf (del k m)"
    and determined: "wf m \<Longrightarrow> wf n \<Longrightarrow> get m = get n \<Longrightarrow> m = n"
begin

lemma ins_commute: "wf m \<Longrightarrow> j \<noteq> k \<Longrightarrow> ins j u (ins k v m) = ins k v (ins j u m)"
  by (rule determined) (auto simp: wf_ins get_ins)

lemma ins_overwrite: "wf m \<Longrightarrow> ins k u (ins k v m) = ins k u m"
  by (rule determined) (auto simp: wf_ins get_ins)

lemma del_ins_same: "wf m \<Longrightarrow> del k (ins k v m) = del k m"
  by (rule determined) (auto simp: wf_ins wf_del get_ins get_del)

lemma del_commute: "wf m \<Longrightarrow> del j (del k m) = del k (del j m)"
  by (rule determined) (auto simp: wf_del get_del)

lemma del_absent: "wf m \<Longrightarrow> get m k = None \<Longrightarrow> del k m = m"
  by (rule determined) (auto simp: wf_del get_del)

lemma ins_present: "wf m \<Longrightarrow> get m k = Some v \<Longrightarrow> ins k v m = m"
  by (rule determined) (auto simp: wf_ins get_ins)

end

section \<open>Ordered maps\<close>

text \<open>
  A \<open>BTreeMap<String, v>\<close> as the list of its entries in key order, which is the order the code
  iterates in (\<open>serde_json::Map\<close> is one).
\<close>

type_synonym 'v bmap = "(string \<times> 'v) list"

fun bmap_insert :: "string \<Rightarrow> 'v \<Rightarrow> 'v bmap \<Rightarrow> 'v bmap" where
  "bmap_insert k v [] = [(k, v)]"
| "bmap_insert k v ((j, w) # m) =
     (if k = j then (k, v) # m else if k < j then (k, v) # (j, w) # m
      else (j, w) # bmap_insert k v m)"

definition bmap_remove :: "string \<Rightarrow> 'v bmap \<Rightarrow> 'v bmap" where
  "bmap_remove k m = filter (\<lambda>e. fst e \<noteq> k) m"

definition bmap_wf :: "'v bmap \<Rightarrow> bool" where
  "bmap_wf m \<longleftrightarrow> sorted_wrt (<) (map fst m)"

definition bmap_entry_or :: "string \<Rightarrow> 'v \<Rightarrow> 'v bmap \<Rightarrow> 'v bmap" where
  "bmap_entry_or k v m = (case map_of m k of None \<Rightarrow> bmap_insert k v m | Some _ \<Rightarrow> m)"

definition bmap_of_list :: "(string \<times> 'v) list \<Rightarrow> 'v bmap" where
  "bmap_of_list es = fold (\<lambda>(k, v). bmap_insert k v) es []"

lemma map_of_bmap_insert [simp, kv_simps]: "map_of (bmap_insert k v m) = (map_of m)(k \<mapsto> v)"
  by (induction k v m rule: bmap_insert.induct) (auto simp: fun_eq_iff)

lemma map_of_bmap_remove [simp, kv_simps]: "map_of (bmap_remove k m) = (map_of m)(k := None)"
  by (induction m) (auto simp: bmap_remove_def fun_eq_iff)

lemma map_of_remove_other: "k \<noteq> j \<Longrightarrow> map_of (bmap_remove j m) k = map_of m k"
  by simp

lemma fst_bmap_insert: "fst ` set (bmap_insert k v m) = insert k (fst ` set m)"
  by (induction k v m rule: bmap_insert.induct) auto

lemma bmap_wf_insert: "bmap_wf m \<Longrightarrow> bmap_wf (bmap_insert k v m)"
proof (induction k v m rule: bmap_insert.induct)
  case (1 k v)
  then show ?case by (simp add: bmap_wf_def)
next
  case (2 k v j w m)
  then show ?case
    using fst_bmap_insert [of k v m] by (auto simp: bmap_wf_def dest: order.strict_trans)
qed

lemma bmap_wf_remove: "bmap_wf m \<Longrightarrow> bmap_wf (bmap_remove k m)"
  by (induction m) (auto simp: bmap_wf_def bmap_remove_def)

lemma bmap_wf_sorted_distinct: "bmap_wf m \<Longrightarrow> sorted (map fst m) \<and> distinct (map fst m)"
  by (simp add: bmap_wf_def strict_sorted_iff)

lemma bmap_determined:
  assumes "bmap_wf m" "bmap_wf n" "map_of m = map_of n"
  shows "m = n"
proof -
  from assms(1,2) have dm: "distinct (map fst m)" "sorted (map fst m)"
    and dn: "distinct (map fst n)" "sorted (map fst n)"
    using bmap_wf_sorted_distinct by blast+
  then have "set m = set n"
    using assms(3) by (metis map_of_inject_set)
  moreover from this have "inj_on fst (set m \<union> set n)"
    using dm by (simp add: distinct_map)
  ultimately show ?thesis
    using dm dn by (intro map_sorted_distinct_set_unique [of fst]) simp_all
qed

interpretation bm: keyed_map map_of bmap_insert bmap_remove bmap_wf
  by unfold_locales
    (auto simp: bmap_wf_insert bmap_wf_remove intro: bmap_determined)

lemma bmap_wf_Nil [simp]: "bmap_wf []"
  by (simp add: bmap_wf_def)

lemma map_of_bmap_entry_or [simp, kv_simps]:
  "map_of (bmap_entry_or k v m) j =
     (if j = k then Some (case map_of m k of None \<Rightarrow> v | Some w \<Rightarrow> w) else map_of m j)"
  by (simp add: bmap_entry_or_def split: option.split)

lemma bmap_wf_entry_or: "bmap_wf m \<Longrightarrow> bmap_wf (bmap_entry_or k v m)"
  by (simp add: bmap_entry_or_def bmap_wf_insert split: option.split)

lemma bmap_wf_of_list: "bmap_wf (bmap_of_list es)"
proof -
  have "bmap_wf m \<Longrightarrow> bmap_wf (fold (\<lambda>(k, v). bmap_insert k v) es m)" for m
    by (induction es arbitrary: m) (auto simp: bmap_wf_insert)
  then show ?thesis by (simp add: bmap_of_list_def)
qed

lemma map_of_bmap_of_list: "map_of (bmap_of_list es) k = map_of (rev es) k"
proof -
  have "map_of (fold (\<lambda>(k, v). bmap_insert k v) es m) k = (map_of m ++ map_of (rev es)) k" for m
    by (induction es arbitrary: m) (auto simp: map_add_def split: option.splits)
  then show ?thesis by (simp add: bmap_of_list_def)
qed

lemma bmap_remove_shrinks: "length (bmap_remove k m) \<le> length m"
  by (simp add: bmap_remove_def)

lemma map_of_None_iff_bmap_Nil: "map_of m = Map.empty \<longleftrightarrow> m = []"
  by (cases m) (auto simp: fun_eq_iff split: if_splits)

end
