(* ===== verification/Money.thy ===== *)
theory Money
  imports Complex_Main Prelude
begin

text \<open>
  Decimal amounts. \<open>rust_decimal::Decimal\<close> is not code of this repository: an amount is the
  rational number it denotes, comparison and equality are those of the numbers, and the operations
  that can overflow or round are parameters (\<open>decimal_ops\<close>). The locale \<open>decimal_lib\<close> states what
  the crate documents of them; the relay's cost arithmetic is proved inside it.
\<close>

section \<open>The operations and their documented range\<close>

record decimal_ops =
  dec_checked_mul :: "rat \<Rightarrow> rat \<Rightarrow> rat option"
  dec_checked_add :: "rat \<Rightarrow> rat \<Rightarrow> rat option"
  dec_round_half_away :: "rat \<Rightarrow> rat"
  dec_to_i64 :: "rat \<Rightarrow> int option"

text \<open>A \<open>Decimal\<close> is \<open>m / 10^s\<close> with a 96-bit \<open>m\<close> and \<open>s\<close> at most 28.\<close>

definition dec_of :: "int \<Rightarrow> nat \<Rightarrow> rat" where
  "dec_of m s = of_int m / 10 ^ s"

definition dec_representable :: "rat \<Rightarrow> bool" where
  "dec_representable x \<longleftrightarrow> (\<exists>m s. x = dec_of m s \<and> \<bar>m\<bar> < 2 ^ 96 \<and> s \<le> 28)"

definition round_half_away :: "rat \<Rightarrow> int" where
  "round_half_away x = (if 0 \<le> x then \<lfloor>x + 1 / 2\<rfloor> else - \<lfloor>- x + 1 / 2\<rfloor>)"

lemma dec_representableI: "\<bar>m\<bar> < 2 ^ 96 \<Longrightarrow> s \<le> 28 \<Longrightarrow> dec_representable (dec_of m s)"
  by (auto simp: dec_representable_def)

lemma dec_representable_of_int: "\<bar>m\<bar> < 2 ^ 96 \<Longrightarrow> dec_representable (of_int m)"
  using dec_representableI [of m 0] by (simp add: dec_of_def)

lemma dec_of_add: "dec_of m s + dec_of n s = dec_of (m + n) s"
  by (simp add: dec_of_def add_divide_distrib)

lemma dec_of_scale: "of_int k * dec_of m s = dec_of (k * m) s"
  by (simp add: dec_of_def)

text \<open>Half up: at or above the half the next integer, below it the integer under.\<close>

lemma round_half_away_bounds:
  assumes "0 \<le> x"
  shows "of_int (round_half_away x) \<le> x + 1 / 2" and "x - 1 / 2 < of_int (round_half_away x)"
proof -
  have "of_int \<lfloor>x + 1 / 2\<rfloor> \<le> x + 1 / 2" "x + 1 / 2 < of_int \<lfloor>x + 1 / 2\<rfloor> + 1"
    by linarith+
  moreover have "round_half_away x = \<lfloor>x + 1 / 2\<rfloor>"
    using assms by (simp add: round_half_away_def)
  ultimately show "of_int (round_half_away x) \<le> x + 1 / 2"
    and "x - 1 / 2 < of_int (round_half_away x)"
    by linarith+
qed

lemma round_half_away_nonneg: "0 \<le> x \<Longrightarrow> 0 \<le> round_half_away x"
  by (simp add: round_half_away_def)

section \<open>The contract of the crate\<close>

text \<open>
  The checked operations are exact where the exact result is a \<open>Decimal\<close>, fail where it is out of
  range, and never change the sign of a non-negative result; rounding to zero places is half away
  from zero; an integral amount converts to \<open>i64\<close> when it is in range.
\<close>

locale decimal_lib =
  fixes D :: decimal_ops
  assumes mul_exact: "dec_representable (x * y) \<Longrightarrow> dec_checked_mul D x y = Some (x * y)"
    and add_exact: "dec_representable (x + y) \<Longrightarrow> dec_checked_add D x y = Some (x + y)"
    and mul_overflow: "2 ^ 96 \<le> \<bar>x * y\<bar> \<Longrightarrow> dec_checked_mul D x y = None"
    and mul_nonneg: "0 \<le> x \<Longrightarrow> 0 \<le> y \<Longrightarrow> dec_checked_mul D x y = Some z \<Longrightarrow> 0 \<le> z"
    and add_nonneg: "0 \<le> x \<Longrightarrow> 0 \<le> y \<Longrightarrow> dec_checked_add D x y = Some z \<Longrightarrow> 0 \<le> z"
    and round_spec: "dec_round_half_away D x = of_int (round_half_away x)"
    and to_i64_spec: "dec_to_i64 D (of_int n) = i64_try_from n"
begin

lemma mul_scaled:
  assumes "\<bar>k * m\<bar> < 2 ^ 96" "s \<le> 28"
  shows "dec_checked_mul D (of_int k) (dec_of m s) = Some (dec_of (k * m) s)"
  using mul_exact [of "of_int k" "dec_of m s"] dec_representableI [OF assms]
  by (simp add: dec_of_scale)

lemma mul_scaled_right:
  assumes "\<bar>m * k\<bar> < 2 ^ 96" "s \<le> 28"
  shows "dec_checked_mul D (dec_of m s) (of_int k) = Some (dec_of (m * k) s)"
  using mul_exact [of "dec_of m s" "of_int k"] dec_representableI [OF assms] dec_of_scale [of k m s]
  by (simp add: mult.commute)

lemma add_scaled:
  assumes "\<bar>m + n\<bar> < 2 ^ 96" "s \<le> 28"
  shows "dec_checked_add D (dec_of m s) (dec_of n s) = Some (dec_of (m + n) s)"
  using add_exact [of "dec_of m s" "dec_of n s"] dec_representableI [OF assms]
  by (simp add: dec_of_add)

lemma round_to_i64:
  "dec_to_i64 D (dec_round_half_away D x) = i64_try_from (round_half_away x)"
  by (simp add: round_spec to_i64_spec)

end

text \<open>The contract can be met: checked operations that succeed exactly on representable results.\<close>

definition exact_decimal :: decimal_ops where
  "exact_decimal =
     \<lparr>dec_checked_mul = (\<lambda>x y. if dec_representable (x * y) then Some (x * y) else None),
      dec_checked_add = (\<lambda>x y. if dec_representable (x + y) then Some (x + y) else None),
      dec_round_half_away = (\<lambda>x. of_int (round_half_away x)),
      dec_to_i64 = (\<lambda>x. i64_try_from \<lfloor>x\<rfloor>)\<rparr>"

lemma dec_representable_bound: "dec_representable x \<Longrightarrow> \<bar>x\<bar> < 2 ^ 96"
proof -
  assume "dec_representable x"
  then obtain m s where x: "x = dec_of m s" and m: "\<bar>m\<bar> < 2 ^ 96"
    by (auto simp: dec_representable_def)
  have "\<bar>x\<bar> = of_int \<bar>m\<bar> / 10 ^ s" by (simp add: x dec_of_def abs_divide)
  also have "\<dots> \<le> of_int \<bar>m\<bar>"
    using mult_left_mono [of 1 "10 ^ s :: rat" "of_int \<bar>m\<bar>"] by (simp add: divide_le_eq)
  also have "\<dots> < 2 ^ 96" using m by (metis of_int_less_iff of_int_numeral of_int_power)
  finally show ?thesis .
qed

interpretation exact: decimal_lib exact_decimal
proof unfold_locales
  fix x y :: rat
  assume "2 ^ 96 \<le> \<bar>x * y\<bar>"
  then show "dec_checked_mul exact_decimal x y = None"
    using dec_representable_bound [of "x * y"] by (auto simp: exact_decimal_def)
qed (auto simp: exact_decimal_def split: if_splits)

end
