(* ===== verification/Store.thy ===== *)
theory Store
  imports Money
begin

text \<open>
  The SQLite state of the relay (\<open>src/store.rs\<close> and the tables of \<open>migrations/0001_store.sql\<close>):
  the request ledger with its admission, rejection and finalisation, the weekly spend, the cost of
  a request, and the credential row. A statement of a call can fail for reasons outside the code
  (I/O, a busy database); \<open>db_env\<close> says which ones do. The clock's reading is the argument
  \<open>now\<close>, the Unix time in nanoseconds; a \<open>to_offset\<close> does not change the instant it denotes.
\<close>

section \<open>Data\<close>

datatype ApiProtocol = Responses | ChatCompletions

fun api_protocol_as_str :: "ApiProtocol \<Rightarrow> string" where
  "api_protocol_as_str Responses = ''responses''"
| "api_protocol_as_str ChatCompletions = ''chat_completions''"

datatype Transport = HttpSse | WebSocket

fun transport_as_str :: "Transport \<Rightarrow> string" where
  "transport_as_str HttpSse = ''http_sse''"
| "transport_as_str WebSocket = ''websocket''"

record request_context =
  ctx_api_key_id :: string
  ctx_api_protocol :: ApiProtocol
  ctx_transport :: Transport

datatype request_id = RequestId int

datatype ModelAccess = All | FallbackOnly | Blocked

datatype FinalStatus = Completed | Incomplete | Rejected | UpstreamError | Canceled | InternalError

fun final_status_as_str :: "FinalStatus \<Rightarrow> string" where
  "final_status_as_str Completed = ''completed''"
| "final_status_as_str Incomplete = ''incomplete''"
| "final_status_as_str Rejected = ''rejected''"
| "final_status_as_str UpstreamError = ''upstream_error''"
| "final_status_as_str Canceled = ''canceled''"
| "final_status_as_str InternalError = ''internal_error''"

record quota_limits =
  weekly_limit_usd :: "rat option"
  hard_limit_usd :: "rat option"

record model_rates =
  input_usd_per_million :: rat
  cached_input_usd_per_million :: rat
  output_usd_per_million :: rat

record effective_model =
  em_model :: string
  em_reasoning_effort :: "string option"
  em_rates :: model_rates

record model_candidates =
  primary :: effective_model
  fallback :: "effective_model option"

datatype Admission = Admitted request_id effective_model | WeeklyQuotaExceeded

record billable_usage =
  bu_input_tokens :: u64
  bu_cached_input_tokens :: u64
  bu_output_tokens :: u64
  bu_rates :: model_rates

record credential =
  account_id :: string
  access_token :: string
  refresh_token :: string
  access_expires_at :: "int option"
  last_refresh :: int

text \<open>
  The error enum. \<open>Panicked\<close> is no value of it: it marks the \<open>expect\<close> in \<open>begin_request\<close>, which
  is shown never to fire.
\<close>

datatype StoreError =
    Io | Database | Migration
  | CredentialsNotInitialized
  | RequestNotStarted request_id
  | InvalidUsage | UsageOutOfRange | CostOutOfRange | TimestampOutOfRange
  | Panicked

section \<open>Tables\<close>

record ledger_row =
  row_id :: int
  row_requested_at_ms :: int
  row_finished_at_ms :: "int option"
  row_api_key_id :: string
  row_model :: string
  row_reasoning_effort :: "string option"
  row_api_protocol :: string
  row_transport :: string
  row_input_tokens :: "int option"
  row_cached_input_tokens :: "int option"
  row_output_tokens :: "int option"
  row_cost_nano_usd :: "int option"
  row_duration_ms :: "int option"
  row_status :: string
  row_http_status :: "int option"

record credential_row =
  cr_account_id :: string
  cr_access_token :: string
  cr_refresh_token :: string
  cr_access_expires_at_ns :: "int option"
  cr_last_refresh_ns :: int

text \<open>\<open>last_rowid\<close> is the largest id \<open>AUTOINCREMENT\<close> ever gave out.\<close>

record store =
  ledger :: "ledger_row list"
  last_rowid :: int
  credentials :: "credential_row option"

definition empty_store :: store where
  "empty_store = \<lparr>ledger = [], last_rowid = 0, credentials = None\<rparr>"

definition all_statuses :: "string list" where
  "all_statuses =
     [''started'', ''completed'', ''incomplete'', ''rejected'', ''upstream_error'', ''canceled'',
      ''internal_error'']"

text \<open>The \<open>CHECK\<close> constraints of the table.\<close>

definition row_check :: "ledger_row \<Rightarrow> bool" where
  "row_check r \<longleftrightarrow>
     row_api_protocol r \<in> {''responses'', ''chat_completions''} \<and>
     row_transport r \<in> {''http_sse'', ''websocket''} \<and>
     opt_all (\<lambda>n. 0 \<le> n) (row_input_tokens r) \<and>
     (case row_cached_input_tokens r of
        None \<Rightarrow> True
      | Some c \<Rightarrow> 0 \<le> c \<and> (case row_input_tokens r of None \<Rightarrow> False | Some i \<Rightarrow> c \<le> i)) \<and>
     opt_all (\<lambda>n. 0 \<le> n) (row_output_tokens r) \<and>
     opt_all (\<lambda>n. 0 \<le> n) (row_cost_nano_usd r) \<and>
     opt_all (\<lambda>n. 0 \<le> n) (row_duration_ms r) \<and>
     row_status r \<in> set all_statuses \<and>
     opt_all (\<lambda>n. 100 \<le> n \<and> n \<le> 599) (row_http_status r)"

datatype sql_step = Sql_Begin | Sql_Select | Sql_Insert | Sql_Update | Sql_Commit

type_synonym db_env = "sql_step \<Rightarrow> bool"

definition no_faults :: db_env where
  "no_faults = (\<lambda>_. False)"

section \<open>Time\<close>

definition timestamp_ms :: "int \<Rightarrow> StoreError + int" where
  "timestamp_ms now = ok_or TimestampOutOfRange (i64_try_from (now div 1000000))"

definition timestamp_ns :: "int \<Rightarrow> StoreError + int" where
  "timestamp_ns t = ok_or TimestampOutOfRange (i64_try_from t)"

definition optional_timestamp_ns :: "int option \<Rightarrow> StoreError + int option" where
  "optional_timestamp_ns t = res_opt timestamp_ns t"

text \<open>The instants \<open>OffsetDateTime\<close> covers: the years -9999 to 9999.\<close>

definition offset_from_ns :: "int \<Rightarrow> StoreError + int" where
  "offset_from_ns n =
     (if - 377705116800 * 10 ^ 9 \<le> n \<and> n < 253402300800 * 10 ^ 9 then Inr n
      else Inl TimestampOutOfRange)"

definition ns_per_day :: int where
  "ns_per_day = 86400 * 10 ^ 9"

text \<open>Days since the epoch in UTC; 1970-01-01 was a Thursday, three days from Monday.\<close>

definition utc_day :: "int \<Rightarrow> int" where
  "utc_day t = t div ns_per_day"

definition number_days_from_monday :: "int \<Rightarrow> int" where
  "number_days_from_monday t = (utc_day t + 3) mod 7"

definition monday_start :: "int \<Rightarrow> int" where
  "monday_start now = (utc_day now - number_days_from_monday now) * ns_per_day"

section \<open>Cost\<close>

definition token_count :: "u64 \<Rightarrow> StoreError + int" where
  "token_count n = ok_or UsageOutOfRange (i64_try_from (uint n))"

definition calculate_cost_nano_usd :: "decimal_ops \<Rightarrow> billable_usage \<Rightarrow> StoreError + int" where
  "calculate_cost_nano_usd D u =
     (if bu_input_tokens u < bu_cached_input_tokens u then Inl InvalidUsage
      else
        let uncached = of_int (uint (bu_input_tokens u - bu_cached_input_tokens u));
            cached = of_int (uint (bu_cached_input_tokens u));
            output = of_int (uint (bu_output_tokens u));
            rates = bu_rates u;
            weighted =
              opt_bind
                (opt_bind
                  (opt_bind (dec_checked_mul D uncached (input_usd_per_million rates)) (\<lambda>value.
                   opt_bind (dec_checked_mul D cached (cached_input_usd_per_million rates)) (\<lambda>c.
                   dec_checked_add D value c)))
                  (\<lambda>value.
                   opt_bind (dec_checked_mul D output (output_usd_per_million rates)) (\<lambda>o'.
                   dec_checked_add D value o')))
                (\<lambda>value. dec_checked_mul D value 1000)
        in res_bind (ok_or CostOutOfRange weighted) (\<lambda>w.
           ok_or CostOutOfRange (dec_to_i64 D (dec_round_half_away D w))))"

definition spend_meets_limit :: "decimal_ops \<Rightarrow> rat \<Rightarrow> rat option \<Rightarrow> StoreError + bool" where
  "spend_meets_limit D spent limit =
     (case limit of
        None \<Rightarrow> Inr False
      | Some l \<Rightarrow>
          res_bind (ok_or CostOutOfRange (dec_checked_mul D l 1000000000)) (\<lambda>nano.
          Inr (nano \<le> spent)))"

section \<open>The ledger\<close>

text \<open>\<open>SELECT COALESCE(SUM(cost_nano_usd), 0) ..\<close>; SQLite reports a sum beyond \<open>i64\<close> as an error.\<close>

definition row_in_window :: "string \<Rightarrow> int \<Rightarrow> int \<Rightarrow> ledger_row \<Rightarrow> bool" where
  "row_in_window key lo hi r \<longleftrightarrow>
     row_api_key_id r = key \<and> row_cost_nano_usd r \<noteq> None \<and>
     lo \<le> row_requested_at_ms r \<and> row_requested_at_ms r < hi"

definition row_cost :: "ledger_row \<Rightarrow> int" where
  "row_cost r = (case row_cost_nano_usd r of None \<Rightarrow> 0 | Some c \<Rightarrow> c)"

definition select_spend :: "string \<Rightarrow> int \<Rightarrow> int \<Rightarrow> ledger_row list \<Rightarrow> int" where
  "select_spend key lo hi rows = sum_list (map row_cost (filter (row_in_window key lo hi) rows))"

definition current_week_spend_nano_usd ::
  "db_env \<Rightarrow> string \<Rightarrow> int \<Rightarrow> store \<Rightarrow> StoreError + rat" where
  "current_week_spend_nano_usd env key now st =
     res_bind (timestamp_ms (monday_start now)) (\<lambda>week_start.
     res_bind (ok_or TimestampOutOfRange (i64_try_from (week_start + 604800000))) (\<lambda>next_week.
     if env Sql_Select then Inl Database
     else res_bind (ok_or Database (i64_try_from (select_spend key week_start next_week (ledger st))))
       (\<lambda>spent. Inr (of_int spent))))"

text \<open>An \<open>INSERT\<close> takes the next id, checks the constraints and appends the row.\<close>

definition insert_row :: "db_env \<Rightarrow> ledger_row \<Rightarrow> store \<Rightarrow> (StoreError + int) \<times> store" where
  "insert_row env r st =
     (if env Sql_Insert \<or> i64_max \<le> last_rowid st \<or> \<not> row_check r then (Inl Database, st)
      else (Inr (last_rowid st + 1),
            st\<lparr>ledger := ledger st @ [r\<lparr>row_id := last_rowid st + 1\<rparr>],
               last_rowid := last_rowid st + 1\<rparr>))"

definition admission_decision ::
  "decimal_ops \<Rightarrow> rat \<Rightarrow> quota_limits \<Rightarrow> bool \<Rightarrow> StoreError + (bool \<times> bool)" where
  "admission_decision D spent quota has_fallback =
     res_bind (spend_meets_limit D spent (weekly_limit_usd quota)) (\<lambda>soft_exceeded.
     res_bind (spend_meets_limit D spent (hard_limit_usd quota)) (\<lambda>hard_exceeded.
     let rejected = hard_exceeded \<or> (soft_exceeded \<and> \<not> has_fallback);
         use_fallback = soft_exceeded \<and> \<not> rejected
     in Inr (rejected, use_fallback)))"

definition admission_row ::
  "request_context \<Rightarrow> int \<Rightarrow> bool \<Rightarrow> effective_model \<Rightarrow> ledger_row" where
  "admission_row ctx requested_at rejected m =
     \<lparr>row_id = 0, row_requested_at_ms = requested_at,
      row_finished_at_ms = (if rejected then Some requested_at else None),
      row_api_key_id = ctx_api_key_id ctx, row_model = em_model m,
      row_reasoning_effort = em_reasoning_effort m,
      row_api_protocol = api_protocol_as_str (ctx_api_protocol ctx),
      row_transport = transport_as_str (ctx_transport ctx),
      row_input_tokens = None, row_cached_input_tokens = None, row_output_tokens = None,
      row_cost_nano_usd = None,
      row_duration_ms = (if rejected then Some 0 else None),
      row_status = (if rejected then ''rejected'' else ''started''),
      row_http_status =
        (if rejected then (case ctx_transport ctx of HttpSse \<Rightarrow> Some 429 | WebSocket \<Rightarrow> None)
         else None)\<rparr>"

definition begin_request ::
  "decimal_ops \<Rightarrow> db_env \<Rightarrow> int \<Rightarrow> request_context \<Rightarrow> quota_limits \<Rightarrow> model_candidates \<Rightarrow> store \<Rightarrow>
     (StoreError + Admission) \<times> store" where
  "begin_request D env now ctx quota cands st =
     (case
        res_bind (timestamp_ms now) (\<lambda>requested_at.
        res_bind (current_week_spend_nano_usd env (ctx_api_key_id ctx) now st) (\<lambda>spent.
        res_bind (admission_decision D spent quota (fallback cands \<noteq> None)) (\<lambda>(rejected, use_fb).
        res_bind (if use_fb then ok_or Panicked (fallback cands) else Inr (primary cands))
          (\<lambda>m. Inr (requested_at, rejected, m)))))
      of
        Inl e \<Rightarrow> (Inl e, st)
      | Inr (requested_at, rejected, m) \<Rightarrow>
          (case insert_row env (admission_row ctx requested_at rejected m) st of
             (Inl e, st') \<Rightarrow> (Inl e, st')
           | (Inr rid, st') \<Rightarrow>
               (Inr (if rejected then WeeklyQuotaExceeded else Admitted (RequestId rid) m), st')))"

definition model_access ::
  "decimal_ops \<Rightarrow> db_env \<Rightarrow> int \<Rightarrow> string \<Rightarrow> quota_limits \<Rightarrow> bool \<Rightarrow> store \<Rightarrow>
     StoreError + ModelAccess" where
  "model_access D env now key quota has_fallback st =
     (if weekly_limit_usd quota = None then Inr All
      else
        res_bind (current_week_spend_nano_usd env key now st) (\<lambda>spent.
        res_bind (spend_meets_limit D spent (hard_limit_usd quota)) (\<lambda>hard.
        if hard then Inr Blocked
        else
          res_bind (spend_meets_limit D spent (weekly_limit_usd quota)) (\<lambda>soft.
          if soft then Inr (if has_fallback then FallbackOnly else Blocked) else Inr All))))"

definition rejection_row ::
  "request_context \<Rightarrow> int \<Rightarrow> string \<Rightarrow> string option \<Rightarrow> int option \<Rightarrow> ledger_row" where
  "rejection_row ctx requested_at model reasoning_effort http_status =
     \<lparr>row_id = 0, row_requested_at_ms = requested_at, row_finished_at_ms = Some requested_at,
      row_api_key_id = ctx_api_key_id ctx, row_model = model,
      row_reasoning_effort = reasoning_effort,
      row_api_protocol = api_protocol_as_str (ctx_api_protocol ctx),
      row_transport = transport_as_str (ctx_transport ctx),
      row_input_tokens = None, row_cached_input_tokens = None, row_output_tokens = None,
      row_cost_nano_usd = None, row_duration_ms = Some 0, row_status = ''rejected'',
      row_http_status = http_status\<rparr>"

definition record_rejection ::
  "db_env \<Rightarrow> int \<Rightarrow> request_context \<Rightarrow> string \<Rightarrow> string option \<Rightarrow> int option \<Rightarrow> store \<Rightarrow>
     (StoreError + unit) \<times> store" where
  "record_rejection env now ctx model reasoning_effort http_status st =
     (case timestamp_ms now of
        Inl e \<Rightarrow> (Inl e, st)
      | Inr requested_at \<Rightarrow>
          (case insert_row env (rejection_row ctx requested_at model reasoning_effort http_status) st of
             (Inl e, st') \<Rightarrow> (Inl e, st')
           | (Inr _, st') \<Rightarrow> (Inr (), st')))"

subsection \<open>Finalisation\<close>

definition is_started :: "int \<Rightarrow> ledger_row \<Rightarrow> bool" where
  "is_started rid r \<longleftrightarrow> row_id r = rid \<and> row_status r = ''started''"

definition select_started :: "int \<Rightarrow> store \<Rightarrow> int option" where
  "select_started rid st = map_option row_requested_at_ms (find (is_started rid) (ledger st))"

text \<open>\<open>finished.saturating_sub(requested).max(0)\<close> on \<open>i64\<close>.\<close>

definition duration_between :: "int \<Rightarrow> int \<Rightarrow> int" where
  "duration_between finished requested =
     max 0 (max i64_min (min i64_max (finished - requested)))"

record accounting =
  acc_input :: "int option"
  acc_cached :: "int option"
  acc_output :: "int option"
  acc_cost :: "int option"

definition usage_columns :: "decimal_ops \<Rightarrow> billable_usage option \<Rightarrow> StoreError + accounting" where
  "usage_columns D usage =
     (case usage of
        None \<Rightarrow> Inr \<lparr>acc_input = None, acc_cached = None, acc_output = None, acc_cost = None\<rparr>
      | Some u \<Rightarrow>
          res_bind (token_count (bu_input_tokens u)) (\<lambda>i.
          res_bind (token_count (bu_cached_input_tokens u)) (\<lambda>c.
          res_bind (token_count (bu_output_tokens u)) (\<lambda>out.
          res_bind (calculate_cost_nano_usd D u) (\<lambda>cost.
          Inr \<lparr>acc_input = Some i, acc_cached = Some c, acc_output = Some out,
               acc_cost = Some cost\<rparr>)))))"

definition finalized_row ::
  "int \<Rightarrow> int \<Rightarrow> FinalStatus \<Rightarrow> int option \<Rightarrow> accounting \<Rightarrow> ledger_row \<Rightarrow> ledger_row" where
  "finalized_row finished duration status http acc r =
     r\<lparr>row_finished_at_ms := Some finished, row_input_tokens := acc_input acc,
       row_cached_input_tokens := acc_cached acc, row_output_tokens := acc_output acc,
       row_cost_nano_usd := acc_cost acc, row_duration_ms := Some duration,
       row_status := final_status_as_str status, row_http_status := http\<rparr>"

text \<open>
  \<open>UPDATE .. WHERE id = ? AND status = 'started'\<close>: the update \<open>f\<close> of every row that matches, the
  constraints checked on the result, and the number of rows affected.
\<close>

definition update_started ::
  "db_env \<Rightarrow> int \<Rightarrow> (ledger_row \<Rightarrow> ledger_row) \<Rightarrow> store \<Rightarrow> (StoreError + nat) \<times> store" where
  "update_started env rid f st =
     (if env Sql_Update \<or> (\<exists>r \<in> set (ledger st). is_started rid r \<and> \<not> row_check (f r))
      then (Inl Database, st)
      else (Inr (length (filter (is_started rid) (ledger st))),
            st\<lparr>ledger := map (\<lambda>r. if is_started rid r then f r else r) (ledger st)\<rparr>))"

definition finalize_request ::
  "decimal_ops \<Rightarrow> db_env \<Rightarrow> int \<Rightarrow> request_id \<Rightarrow> FinalStatus \<Rightarrow> int option \<Rightarrow> billable_usage option \<Rightarrow>
     store \<Rightarrow> (StoreError + unit) \<times> store" where
  "finalize_request D env now request_id status http usage st =
     (case request_id of RequestId rid \<Rightarrow>
        (case
           res_bind (if env Sql_Select then Inl Database else Inr (select_started rid st)) (\<lambda>found.
           res_bind (ok_or (RequestNotStarted request_id) found) (\<lambda>requested_at.
           res_bind (timestamp_ms now) (\<lambda>finished.
           res_bind (usage_columns D usage) (\<lambda>acc.
           Inr (finished, duration_between finished requested_at, acc)))))
         of
           Inl e \<Rightarrow> (Inl e, st)
         | Inr (finished, duration, acc) \<Rightarrow>
             (case update_started env rid (finalized_row finished duration status http acc) st of
                (Inl e, st') \<Rightarrow> (Inl e, st')
              | (Inr n, st') \<Rightarrow>
                  (if n \<noteq> 1 then Inl (RequestNotStarted request_id) else Inr (), st'))))"

section \<open>Credentials\<close>

definition bind_credential :: "credential \<Rightarrow> StoreError + credential_row" where
  "bind_credential c =
     res_bind (optional_timestamp_ns (access_expires_at c)) (\<lambda>expires.
     res_bind (timestamp_ns (last_refresh c)) (\<lambda>refreshed.
     Inr \<lparr>cr_account_id = account_id c, cr_access_token = access_token c,
          cr_refresh_token = refresh_token c, cr_access_expires_at_ns = expires,
          cr_last_refresh_ns = refreshed\<rparr>))"

definition credential_from_row :: "credential_row \<Rightarrow> StoreError + credential" where
  "credential_from_row r =
     res_bind (res_opt offset_from_ns (cr_access_expires_at_ns r)) (\<lambda>expires.
     res_bind (offset_from_ns (cr_last_refresh_ns r)) (\<lambda>refreshed.
     Inr \<lparr>account_id = cr_account_id r, access_token = cr_access_token r,
          refresh_token = cr_refresh_token r, access_expires_at = expires,
          last_refresh = refreshed\<rparr>))"

text \<open>The two statements of the transaction that writes the singleton row.\<close>

definition insert_credentials :: "db_env \<Rightarrow> credential \<Rightarrow> StoreError + credential_row" where
  "insert_credentials env seed =
     res_bind (bind_credential seed) (\<lambda>r. if env Sql_Insert then Inl Database else Inr r)"

definition update_credentials :: "db_env \<Rightarrow> credential \<Rightarrow> StoreError + credential_row" where
  "update_credentials env seed =
     res_bind (bind_credential seed) (\<lambda>r. if env Sql_Update then Inl Database else Inr r)"

text \<open>A transaction that fails before its commit leaves the table as it was.\<close>

definition commit_credentials ::
  "db_env \<Rightarrow> store \<Rightarrow> StoreError + ('a \<times> credential_row option) \<Rightarrow> (StoreError + 'a) \<times> store" where
  "commit_credentials env st body =
     (case body of
        Inl e \<Rightarrow> (Inl e, st)
      | Inr (x, row) \<Rightarrow>
          (if env Sql_Commit then (Inl Database, st) else (Inr x, st\<lparr>credentials := row\<rparr>)))"

definition load_or_import_credentials ::
  "db_env \<Rightarrow> credential \<Rightarrow> store \<Rightarrow> (StoreError + credential) \<times> store" where
  "load_or_import_credentials env seed st =
     commit_credentials env st
       (if env Sql_Begin \<or> env Sql_Select then Inl Database
        else
          (case credentials st of
             None \<Rightarrow> res_bind (insert_credentials env seed) (\<lambda>r. Inr (seed, Some r))
           | Some row \<Rightarrow>
               res_bind (credential_from_row row) (\<lambda>current.
               if last_refresh current < last_refresh seed
               then res_bind (update_credentials env seed) (\<lambda>r. Inr (seed, Some r))
               else Inr (current, Some row))))"

definition save_credentials :: "db_env \<Rightarrow> credential \<Rightarrow> store \<Rightarrow> (StoreError + unit) \<times> store" where
  "save_credentials env c st =
     commit_credentials env st
       (if env Sql_Begin then Inl Database
        else
          res_bind (update_credentials env c) (\<lambda>r.
          case credentials st of
            None \<Rightarrow> Inl CredentialsNotInitialized
          | Some _ \<Rightarrow> Inr ((), Some r)))"

section \<open>What the operations promise\<close>

text \<open>
  The quota rule, on exact amounts: at the hard limit a key is blocked, at the soft limit it falls
  back (or is blocked without a fallback model), below it has every model. The less a key may use,
  the smaller its \<open>ModelAccess\<close>.
\<close>

fun access_rank :: "ModelAccess \<Rightarrow> nat" where
  "access_rank Blocked = 0"
| "access_rank FallbackOnly = 1"
| "access_rank All = 2"

instantiation ModelAccess :: linorder
begin

definition less_eq_ModelAccess :: "ModelAccess \<Rightarrow> ModelAccess \<Rightarrow> bool" where
  "less_eq_ModelAccess a b \<longleftrightarrow> access_rank a \<le> access_rank b"

definition less_ModelAccess :: "ModelAccess \<Rightarrow> ModelAccess \<Rightarrow> bool" where
  "less_ModelAccess a b \<longleftrightarrow> access_rank a < access_rank b"

instance
proof
  fix a b :: ModelAccess
  show "a \<le> b \<Longrightarrow> b \<le> a \<Longrightarrow> a = b"
    by (cases a; cases b) (simp_all add: less_eq_ModelAccess_def)
qed (auto simp: less_eq_ModelAccess_def less_ModelAccess_def)

end

definition limit_reached :: "rat \<Rightarrow> rat option \<Rightarrow> bool" where
  "limit_reached spent limit = (case limit of None \<Rightarrow> False | Some l \<Rightarrow> l * 1000000000 \<le> spent)"

definition access_spec :: "rat \<Rightarrow> quota_limits \<Rightarrow> bool \<Rightarrow> ModelAccess" where
  "access_spec spent quota has_fallback =
     (if limit_reached spent (hard_limit_usd quota) then Blocked
      else if limit_reached spent (weekly_limit_usd quota)
      then (if has_fallback then FallbackOnly else Blocked)
      else All)"

text \<open>Limits whose nano-USD value is a \<open>Decimal\<close>, and the shape the configuration gives them.\<close>

definition limits_exact :: "quota_limits \<Rightarrow> bool" where
  "limits_exact quota \<longleftrightarrow>
     opt_all (\<lambda>l. dec_representable (l * 1000000000)) (weekly_limit_usd quota) \<and>
     opt_all (\<lambda>l. dec_representable (l * 1000000000)) (hard_limit_usd quota)"

definition quota_shape :: "quota_limits \<Rightarrow> bool" where
  "quota_shape quota \<longleftrightarrow> (weekly_limit_usd quota = None \<longleftrightarrow> hard_limit_usd quota = None)"

text \<open>The ledger invariant: the constraints hold, ids increase and never pass the sequence, a
  started row carries no outcome, and every other row has its end recorded.\<close>

definition row_shape :: "ledger_row \<Rightarrow> bool" where
  "row_shape r \<longleftrightarrow>
     (if row_status r = ''started''
      then row_finished_at_ms r = None \<and> row_input_tokens r = None \<and>
        row_cached_input_tokens r = None \<and> row_output_tokens r = None \<and>
        row_cost_nano_usd r = None \<and> row_duration_ms r = None \<and> row_http_status r = None
      else row_finished_at_ms r \<noteq> None \<and> row_duration_ms r \<noteq> None)"

definition store_ok :: "store \<Rightarrow> bool" where
  "store_ok st \<longleftrightarrow>
     0 \<le> last_rowid st \<and> last_rowid st \<le> i64_max \<and>
     (\<forall>r \<in> set (ledger st). row_check r \<and> row_shape r \<and> 0 < row_id r \<and> row_id r \<le> last_rowid st) \<and>
     sorted_wrt (<) (map row_id (ledger st))"

text \<open>Every call the relay makes on its store, with any outcome of its statements.\<close>

inductive store_step :: "decimal_ops \<Rightarrow> store \<Rightarrow> store \<Rightarrow> bool" for D where
  begin_step: "begin_request D env now ctx quota cands st = (r, st') \<Longrightarrow> store_step D st st'"
| reject_step: "record_rejection env now ctx m e http st = (r, st') \<Longrightarrow> store_step D st st'"
| finalize_step: "finalize_request D env now rid status http usage st = (r, st') \<Longrightarrow> store_step D st st'"
| import_step: "load_or_import_credentials env seed st = (c, st') \<Longrightarrow> store_step D st st'"
| save_step: "save_credentials env cred st = (r, st') \<Longrightarrow> store_step D st st'"

abbreviation store_steps :: "decimal_ops \<Rightarrow> store \<Rightarrow> store \<Rightarrow> bool" where
  "store_steps D \<equiv> (store_step D)\<^sup>*\<^sup>*"

subsection \<open>Statements\<close>

lemma as_str_not_started [simp]: "final_status_as_str s \<noteq> ''started''"
  by (cases s) simp_all

lemma as_str_in_statuses [simp]: "final_status_as_str s \<in> set all_statuses"
  by (cases s) (simp_all add: all_statuses_def)

lemma protocol_as_str_ok [simp]: "api_protocol_as_str p \<in> {''responses'', ''chat_completions''}"
  by (cases p) simp_all

lemma transport_as_str_ok [simp]: "transport_as_str t \<in> {''http_sse'', ''websocket''}"
  by (cases t) simp_all

lemma row_check_admission [simp]: "row_check (admission_row ctx t rej m)"
  using protocol_as_str_ok transport_as_str_ok
  by (simp add: row_check_def admission_row_def all_statuses_def split: Transport.split)

lemma row_shape_admission: "row_shape (admission_row ctx t rej m)"
  by (simp add: row_shape_def admission_row_def)

lemma insert_row_cases:
  obtains (failed) "insert_row env r st = (Inl Database, st)"
  | (inserted) "last_rowid st < i64_max" "row_check r"
      "insert_row env r st =
         (Inr (last_rowid st + 1),
          st\<lparr>ledger := ledger st @ [r\<lparr>row_id := last_rowid st + 1\<rparr>],
             last_rowid := last_rowid st + 1\<rparr>)"
  by (cases "env Sql_Insert \<or> i64_max \<le> last_rowid st \<or> \<not> row_check r")
    (auto simp: insert_row_def)

lemma row_check_id [simp]: "row_check (r\<lparr>row_id := i\<rparr>) = row_check r"
  by (simp add: row_check_def cong: option.case_cong)

lemma row_shape_id [simp]: "row_shape (r\<lparr>row_id := i\<rparr>) = row_shape r"
  by (simp add: row_shape_def)

lemma store_ok_insert:
  assumes "store_ok st" "row_shape r" "insert_row env r st = (x, st')"
  shows "store_ok st'"
proof (cases rule: insert_row_cases [of env r st])
  case failed
  with assms show ?thesis by simp
next
  case inserted
  with assms show ?thesis
    by (fastforce simp: store_ok_def sorted_wrt_append)
qed

lemma is_started_finalized [simp]: "\<not> is_started i (finalized_row f d s h acc r)"
  by (simp add: is_started_def finalized_row_def)

lemma row_id_finalized [simp]: "row_id (finalized_row f d s h acc r) = row_id r"
  by (simp add: finalized_row_def)

lemma row_shape_finalized: "row_shape (finalized_row f d s h acc r)"
  by (simp add: row_shape_def finalized_row_def)

lemma update_started_cases:
  obtains (failed) "update_started env i f st = (Inl Database, st)"
  | (updated) "\<And>r. r \<in> set (ledger st) \<Longrightarrow> is_started i r \<Longrightarrow> row_check (f r)"
      "update_started env i f st =
         (Inr (length (filter (is_started i) (ledger st))),
          st\<lparr>ledger := map (\<lambda>r. if is_started i r then f r else r) (ledger st)\<rparr>)"
  by (cases "env Sql_Update \<or> (\<exists>r \<in> set (ledger st). is_started i r \<and> \<not> row_check (f r))")
    (auto simp: update_started_def)

lemma store_ok_update:
  assumes "store_ok st" "update_started env i (finalized_row fi d s h acc) st = (x, st')"
  shows "store_ok st'"
proof (cases rule: update_started_cases [of env i "finalized_row fi d s h acc" st])
  case failed
  with assms show ?thesis by simp
next
  case updated
  have ids: "map row_id (map (\<lambda>r. if is_started i r then finalized_row fi d s h acc r else r)
      (ledger st)) = map row_id (ledger st)"
    by simp
  show ?thesis
    using assms updated row_shape_finalized by (auto simp: store_ok_def ids simp del: map_map)
qed

lemma commit_credentials_frame:
  "commit_credentials env st b = (r, st') \<Longrightarrow> ledger st' = ledger st \<and> last_rowid st' = last_rowid st"
  by (auto simp: commit_credentials_def split: sum.splits if_splits)

text \<open>What a call can do to the ledger: nothing, one insertion, or one guarded update.\<close>

lemma begin_request_effect:
  assumes "begin_request D env now ctx quota cands st = (r, st')"
  shows "st' = st \<or> (\<exists>row x. row_shape row \<and> insert_row env row st = (x, st'))"
proof (cases "res_bind (timestamp_ms now) (\<lambda>requested_at.
        res_bind (current_week_spend_nano_usd env (ctx_api_key_id ctx) now st) (\<lambda>spent.
        res_bind (admission_decision D spent quota (fallback cands \<noteq> None)) (\<lambda>(rejected, use_fb).
        res_bind (if use_fb then ok_or Panicked (fallback cands) else Inr (primary cands))
          (\<lambda>m. Inr (requested_at, rejected, m)))))")
  case (Inl e)
  with assms show ?thesis by (simp add: begin_request_def)
next
  case (Inr p)
  obtain t rej m where p: "p = (t, rej, m)" by (cases p)
  have "insert_row env (admission_row ctx t rej m) st = (fst (insert_row env (admission_row ctx t rej m) st), st')"
    using assms Inr p
    by (auto simp: begin_request_def prod_eq_iff split: prod.splits sum.splits)
  then show ?thesis using row_shape_admission by blast
qed

lemma row_shape_rejection: "row_shape (rejection_row ctx t m e http)"
  by (simp add: row_shape_def rejection_row_def)

lemma record_rejection_effect:
  assumes "record_rejection env now ctx m e http st = (r, st')"
  shows "st' = st \<or> (\<exists>row x. row_shape row \<and> insert_row env row st = (x, st'))"
proof (cases "timestamp_ms now")
  case (Inr t)
  with assms have "snd (insert_row env (rejection_row ctx t m e http) st) = st'"
    by (auto simp: record_rejection_def split: sum.splits prod.splits)
  then show ?thesis using row_shape_rejection by (metis prod.collapse)
qed (use assms in \<open>simp add: record_rejection_def\<close>)

lemma finalize_request_cases:
  assumes "finalize_request D env now (RequestId i) status http usage st = (r, st')"
  obtains (early) e where "r = Inl e" "st' = st"
  | (ran) t finished acc x where "select_started i st = Some t" "timestamp_ms now = Inr finished"
      "usage_columns D usage = Inr acc"
      "update_started env i (finalized_row finished (duration_between finished t) status http acc) st
        = (x, st')"
      "r = (case x of Inl e \<Rightarrow> Inl e
        | Inr n \<Rightarrow> if n \<noteq> 1 then Inl (RequestNotStarted (RequestId i)) else Inr ())"
proof (cases "res_bind (if env Sql_Select then Inl Database else Inr (select_started i st)) (\<lambda>found.
    res_bind (ok_or (RequestNotStarted (RequestId i)) found) (\<lambda>requested_at.
    res_bind (timestamp_ms now) (\<lambda>finished.
    res_bind (usage_columns D usage) (\<lambda>acc.
    Inr (finished, duration_between finished requested_at, acc)))))")
  case (Inl e)
  with assms have "r = Inl e" "st' = st" by (simp_all add: finalize_request_def)
  then show ?thesis by (rule early)
next
  case (Inr b)
  then obtain t finished acc where *: "select_started i st = Some t" "timestamp_ms now = Inr finished"
    "usage_columns D usage = Inr acc" "b = (finished, duration_between finished t, acc)"
    by (auto simp: result_simps split: if_splits)
  obtain x st2 where u: "update_started env i
    (finalized_row finished (duration_between finished t) status http acc) st = (x, st2)"
    by (cases "update_started env i
      (finalized_row finished (duration_between finished t) status http acc) st")
  with assms Inr * have "st' = st2" "r = (case x of Inl e \<Rightarrow> Inl e
      | Inr n \<Rightarrow> if n \<noteq> 1 then Inl (RequestNotStarted (RequestId i)) else Inr ())"
    by (auto simp: finalize_request_def split: sum.splits)
  with * u ran show ?thesis by blast
qed

lemma finalize_request_effect:
  assumes "finalize_request D env now (RequestId i) status http usage st = (r, st')"
  shows "st' = st \<or> (\<exists>f d acc x. update_started env i (finalized_row f d status http acc) st = (x, st'))"
  using assms by (cases rule: finalize_request_cases) auto

lemma store_step_ledger_cases:
  assumes "store_step D st st'"
  obtains (same) "ledger st' = ledger st" "last_rowid st' = last_rowid st"
  | (insert) env row x where "row_shape row" "insert_row env row st = (x, st')"
  | (update) env i f d s h acc x where "update_started env i (finalized_row f d s h acc) st = (x, st')"
  using assms
proof cases
  case begin_step
  from begin_request_effect [OF this] that(1,2) show ?thesis by blast
next
  case reject_step
  from record_rejection_effect [OF this] that(1,2) show ?thesis by blast
next
  case (finalize_step env now rid)
  then show ?thesis
    using finalize_request_effect that(1,3) by (cases rid) blast
next
  case import_step
  then show ?thesis
    unfolding load_or_import_credentials_def using commit_credentials_frame that(1) by blast
next
  case save_step
  then show ?thesis
    unfolding save_credentials_def using commit_credentials_frame that(1) by blast
qed

lemma store_ok_step:
  assumes "store_ok st" and "store_step D st st'"
  shows "store_ok st'"
  using assms(2)
proof (cases rule: store_step_ledger_cases)
  case same
  with assms(1) show ?thesis by (simp add: store_ok_def)
next
  case insert
  with assms(1) show ?thesis by (blast intro: store_ok_insert)
next
  case update
  with assms(1) show ?thesis by (blast intro: store_ok_update)
qed

lemma store_ok_steps: "store_steps D st st' \<Longrightarrow> store_ok st \<Longrightarrow> store_ok st'"
  by (induction rule: rtranclp_induct) (auto intro: store_ok_step)

end
