(* ===== verification/Json.thy ===== *)
theory Json
  imports Prelude
begin

text \<open>
  The JSON values the relay works on: \<open>serde_json::Value\<close> with its constructors and the accessors
  the sources call. Its parser and printer are not part of this repository; where the code parses
  or prints, they are arguments of the definition. Objects keep their keys in order, as
  \<open>serde_json::Map\<close> does without the \<open>preserve_order\<close> feature, which is off in this build.
\<close>

section \<open>Values\<close>

text \<open>
  A number is a \<open>u64\<close>, a negative \<open>i64\<close> (two's complement) or a float, kept as the bits of its
  \<open>f64\<close>.
\<close>

datatype jnumber = PosInt u64 | NegInt i64 | Float "64 word"

datatype json =
    JNull
  | JBool bool
  | JNum jnumber
  | JStr string
  | JArr "json list"
  | JObj "json bmap"

type_synonym jobject = "json bmap"

section \<open>Accessors\<close>

fun as_str :: "json \<Rightarrow> string option" where
  "as_str (JStr s) = Some s"
| "as_str _ = None"

fun as_bool :: "json \<Rightarrow> bool option" where
  "as_bool (JBool b) = Some b"
| "as_bool _ = None"

fun as_u64 :: "json \<Rightarrow> u64 option" where
  "as_u64 (JNum (PosInt n)) = Some n"
| "as_u64 _ = None"

fun as_i64 :: "json \<Rightarrow> i64 option" where
  "as_i64 (JNum (PosInt n)) = (if 0 \<le> sint n then Some n else None)"
| "as_i64 (JNum (NegInt n)) = Some n"
| "as_i64 _ = None"

fun as_array :: "json \<Rightarrow> json list option" where
  "as_array (JArr xs) = Some xs"
| "as_array _ = None"

fun as_object :: "json \<Rightarrow> jobject option" where
  "as_object (JObj m) = Some m"
| "as_object _ = None"

definition is_null :: "json \<Rightarrow> bool" where
  "is_null v \<longleftrightarrow> v = JNull"

definition is_object :: "json \<Rightarrow> bool" where
  "is_object v \<longleftrightarrow> as_object v \<noteq> None"

text \<open>\<open>value.get(key)\<close>, \<open>&value[key]\<close> and \<open>value.pointer("/a/b")\<close> (no key the sources use is a
  number, so an array answers none of them).\<close>

fun jget :: "json \<Rightarrow> string \<Rightarrow> json option" where
  "jget (JObj m) k = map_of m k"
| "jget _ k = None"

definition jindex :: "json \<Rightarrow> string \<Rightarrow> json" where
  "jindex v k = (case jget v k of None \<Rightarrow> JNull | Some w \<Rightarrow> w)"

fun jpointer :: "json \<Rightarrow> string list \<Rightarrow> json option" where
  "jpointer v [] = Some v"
| "jpointer v (k # ks) = (case jget v k of None \<Rightarrow> None | Some w \<Rightarrow> jpointer w ks)"

text \<open>\<open>value[key] = w\<close>: null becomes an object, any other non-object panics (\<open>None\<close>).\<close>

fun jset :: "json \<Rightarrow> string \<Rightarrow> json \<Rightarrow> json option" where
  "jset JNull k w = Some (JObj [(k, w)])"
| "jset (JObj m) k w = Some (JObj (bmap_insert k w m))"
| "jset _ k w = None"

text \<open>The macro \<open>json!({..})\<close>, and numbers made from machine integers.\<close>

definition jobj :: "(string \<times> json) list \<Rightarrow> json" where
  "jobj es = JObj (bmap_of_list es)"

definition json_of_u64 :: "u64 \<Rightarrow> json" where
  "json_of_u64 n = JNum (PosInt n)"

definition json_of_i64 :: "i64 \<Rightarrow> json" where
  "json_of_i64 n = JNum (if sint n < 0 then NegInt n else PosInt n)"

definition json_of_str_option :: "string option \<Rightarrow> json" where
  "json_of_str_option s = (case s of None \<Rightarrow> JNull | Some t \<Rightarrow> JStr t)"

section \<open>Well-formed values\<close>

text \<open>Objects have their keys in strictly increasing order, at every depth; a \<open>NegInt\<close> is negative.\<close>

fun json_wf :: "json \<Rightarrow> bool" where
  "json_wf (JArr xs) = (\<forall>x \<in> set xs. json_wf x)"
| "json_wf (JObj m) = (bmap_wf m \<and> (\<forall>e \<in> set m. json_wf (snd e)))"
| "json_wf (JNum (NegInt n)) = (sint n < 0)"
| "json_wf _ = True"

section \<open>Laws of the accessors\<close>

lemma as_str_Some [simp]: "as_str v = Some s \<longleftrightarrow> v = JStr s"
  by (cases v) auto

lemma as_bool_Some [simp]: "as_bool v = Some b \<longleftrightarrow> v = JBool b"
  by (cases v) auto

lemma as_u64_Some [simp]: "as_u64 v = Some n \<longleftrightarrow> v = JNum (PosInt n)"
  by (cases v rule: as_u64.cases) auto

lemma as_array_Some [simp]: "as_array v = Some xs \<longleftrightarrow> v = JArr xs"
  by (cases v) auto

lemma as_object_Some [simp]: "as_object v = Some m \<longleftrightarrow> v = JObj m"
  by (cases v) auto

lemma is_object_iff [simp]: "is_object v \<longleftrightarrow> (\<exists>m. v = JObj m)"
  by (cases v) (auto simp: is_object_def)

lemma as_i64_json_of_i64 [simp]: "as_i64 (json_of_i64 n) = Some n"
  by (simp add: json_of_i64_def)

lemma json_of_i64_as_i64: "json_wf v \<Longrightarrow> as_i64 v = Some n \<Longrightarrow> json_of_i64 n = v"
  by (cases v rule: as_i64.cases) (auto simp: json_of_i64_def split: if_splits)

lemma jget_Some: "jget v k = Some w \<longleftrightarrow> (\<exists>m. v = JObj m \<and> map_of m k = Some w)"
  by (cases v) auto

lemma jget_jset: "jset v k w = Some u \<Longrightarrow> jget u j = (if j = k then Some w else jget v j)"
  by (cases v) auto

lemma jset_object [simp]: "jset (JObj m) k w = Some (JObj (bmap_insert k w m))"
  by simp

lemma jindex_object [simp]:
  "jindex (JObj m) k = (case map_of m k of None \<Rightarrow> JNull | Some w \<Rightarrow> w)"
  by (simp add: jindex_def)

lemma jget_jobj [simp]: "jget (jobj es) k = map_of (rev es) k"
  by (simp add: jobj_def map_of_bmap_of_list)

lemma json_wf_bmap_insert:
  assumes "bmap_wf m \<and> (\<forall>e \<in> set m. json_wf (snd e))" and "json_wf v"
  shows "bmap_wf (bmap_insert k v m) \<and> (\<forall>e \<in> set (bmap_insert k v m). json_wf (snd e))"
proof -
  have "set (bmap_insert k v m) \<subseteq> insert (k, v) (set m)"
    by (induction k v m rule: bmap_insert.induct) auto
  with assms show ?thesis by (auto simp: bmap_wf_insert)
qed

lemma json_wf_insert [intro]: "json_wf (JObj m) \<Longrightarrow> json_wf v \<Longrightarrow> json_wf (JObj (bmap_insert k v m))"
  using json_wf_bmap_insert by simp

lemma json_wf_remove [intro]: "json_wf (JObj m) \<Longrightarrow> json_wf (JObj (bmap_remove k m))"
  using bmap_wf_remove [of m k] by (auto simp: bmap_remove_def)

lemma json_wf_jobj [intro]:
  assumes "\<And>e. e \<in> set es \<Longrightarrow> json_wf (snd e)"
  shows "json_wf (jobj es)"
proof -
  have "json_wf (JObj m) \<Longrightarrow> (\<And>e. e \<in> set es \<Longrightarrow> json_wf (snd e)) \<Longrightarrow>
    json_wf (JObj (fold (\<lambda>(k, v). bmap_insert k v) es m))" for m
  proof (induction es arbitrary: m)
    case (Cons e es)
    then show ?case by (cases e) (simp del: json_wf.simps, metis Cons.IH json_wf_insert snd_conv)
  qed simp
  from this [of "[]"] assms show ?thesis
    by (simp add: jobj_def bmap_of_list_def)
qed

lemma json_wf_get: "json_wf v \<Longrightarrow> jget v k = Some w \<Longrightarrow> json_wf w"
  by (fastforce simp: jget_Some dest!: map_of_SomeD)

end
