(* ===== verification/Config.thy ===== *)
theory Config
  imports Store Json
begin

text \<open>
  The configuration (\<open>src/config.rs\<close>): what an API key entry of the TOML file becomes, the checks of
  \<open>Config::validate\<close> in their order, and the model and reasoning effort a request is sent with. The
  TOML parser, \<open>Url::parse\<close>, \<open>Decimal::from_str\<close> and the file system are arguments. A panic of an
  \<open>expect\<close> is the outer \<open>None\<close>.
\<close>

section \<open>Data\<close>

text \<open>Of a parsed \<open>Url\<close> the code reads the scheme and the serialisation.\<close>

record url =
  url_scheme :: string
  url_text :: string

record server_config =
  listen :: string
  enable_websockets :: bool

record state_config =
  state_path :: string
  file_mode :: "32 word"

record upstream_config =
  base_url :: url
  oauth_token_url :: url
  auth_file :: string
  supports_websockets :: bool

record api_key_config =
  key_id :: string
  key_secret :: string
  key_weekly_limit_usd :: "rat option"
  key_hard_limit_usd :: "rat option"

record api_key_config_input =
  in_id :: string
  in_secret :: "string option"
  in_secret_file :: "string option"
  in_weekly_limit_usd :: "string option"
  in_hard_limit_usd :: "string option"

record model_price =
  price_input :: rat
  price_cached_input :: rat
  price_output :: rat
  max_reasoning_effort :: "string option"

record config =
  cfg_server :: server_config
  cfg_state :: state_config
  cfg_upstream :: upstream_config
  fallback_model :: "string option"
  api_keys :: "api_key_config list"
  model_prices :: "model_price bmap"

text \<open>One constructor per message of the deserialisers and of \<open>validate\<close>.\<close>

datatype config_error =
    Secret_File_Unreadable string
  | Exactly_One_Secret
  | Hard_Limit_Requires_Weekly
  | Bad_Decimal
  | Bad_Url
  | Bad_File_Mode
  | Empty_State_Path
  | Empty_Auth_File
  | Bad_Url_Scheme string
  | Websockets_Unsupported
  | No_Api_Keys
  | Empty_Key_Id
  | Empty_Secret
  | Whitespace_In_Secret
  | Duplicate_Key_Id string
  | Duplicate_Secret
  | Negative_Weekly_Limit
  | Negative_Hard_Limit
  | Hard_Not_Above_Soft
  | Hard_Below_Soft
  | No_Model_Prices
  | Empty_Model_Name
  | Negative_Input_Price string
  | Negative_Cached_Price string
  | Negative_Output_Price string
  | Bad_Max_Effort string
  | Empty_Fallback
  | Unpriced_Fallback string

section \<open>Deserialisation\<close>

definition deserialize_decimal :: "(string \<Rightarrow> rat option) \<Rightarrow> string \<Rightarrow> config_error + rat" where
  "deserialize_decimal parse value = ok_or Bad_Decimal (parse value)"

definition deserialize_optional_decimal ::
  "(string \<Rightarrow> rat option) \<Rightarrow> string option \<Rightarrow> config_error + rat option" where
  "deserialize_optional_decimal parse value = res_opt (deserialize_decimal parse) value"

definition deserialize_url :: "(string \<Rightarrow> url option) \<Rightarrow> string \<Rightarrow> config_error + url" where
  "deserialize_url parse value = ok_or Bad_Url (parse value)"

text \<open>A secret read from a file loses one line ending.\<close>

definition ends_with :: "string \<Rightarrow> string \<Rightarrow> bool" where
  "ends_with s suffix \<longleftrightarrow> strip_prefix (rev suffix) (rev s) \<noteq> None"

definition strip_line_ending :: "string \<Rightarrow> string" where
  "strip_line_ending s =
     (if ends_with s [CHR 0x0D, CHR 0x0A] then take (length s - 2) s
      else if ends_with s [CHR 0x0A] then butlast s
      else s)"

definition default_hard_limit_usd :: rat where
  "default_hard_limit_usd = 600"

definition deserialize_api_key ::
  "(string \<Rightarrow> rat option) \<Rightarrow> (string \<Rightarrow> string option) \<Rightarrow> api_key_config_input \<Rightarrow>
     config_error + api_key_config" where
  "deserialize_api_key parse read_file input =
     res_bind (deserialize_optional_decimal parse (in_weekly_limit_usd input)) (\<lambda>weekly.
     res_bind (deserialize_optional_decimal parse (in_hard_limit_usd input)) (\<lambda>hard_input.
     res_bind
       (case (in_secret input, in_secret_file input) of
          (Some secret, None) \<Rightarrow> Inr secret
        | (None, Some path) \<Rightarrow>
            res_bind (ok_or (Secret_File_Unreadable path) (read_file path)) (\<lambda>secret.
            Inr (strip_line_ending secret))
        | (Some _, Some _) \<Rightarrow> Inl Exactly_One_Secret
        | (None, None) \<Rightarrow> Inl Exactly_One_Secret) (\<lambda>secret.
     res_bind
       (case (weekly, hard_input) of
          (None, Some _) \<Rightarrow> Inl Hard_Limit_Requires_Weekly
        | (None, None) \<Rightarrow> Inr None
        | (Some _, Some hard) \<Rightarrow> Inr (Some hard)
        | (Some _, None) \<Rightarrow> Inr (Some default_hard_limit_usd)) (\<lambda>hard.
     Inr \<lparr>key_id = in_id input, key_secret = secret, key_weekly_limit_usd = weekly,
          key_hard_limit_usd = hard\<rparr>))))"

text \<open>
  \<open>u32::from_str_radix(_, 8)\<close>: an optional plus sign, at least one octal digit, and \<open>None\<close> for a
  value beyond 32 bits.
\<close>

definition octal_digit :: "char \<Rightarrow> bool" where
  "octal_digit c \<longleftrightarrow> 48 \<le> byte c \<and> byte c \<le> 55"

definition octal_value :: "string \<Rightarrow> nat" where
  "octal_value s = foldl (\<lambda>n c. 8 * n + (byte c - 48)) 0 s"

definition from_str_radix_8 :: "string \<Rightarrow> 32 word option" where
  "from_str_radix_8 s =
     (let digits = (case strip_prefix ''+'' s of Some r \<Rightarrow> r | None \<Rightarrow> s)
      in if digits \<noteq> [] \<and> list_all octal_digit digits \<and> octal_value digits < 2 ^ 32
         then Some (of_nat (octal_value digits)) else None)"

definition deserialize_file_mode :: "string \<Rightarrow> config_error + 32 word" where
  "deserialize_file_mode value =
     (if length value \<noteq> 4 \<or> strip_prefix ''0'' value = None \<or> \<not> list_all octal_digit value
      then Inl Bad_File_Mode
      else ok_or Bad_File_Mode (from_str_radix_8 value))"

definition default_state_file_mode :: "32 word" where
  "default_state_file_mode = 384"

section \<open>Validation\<close>

definition REASONING_EFFORTS :: "string list" where
  "REASONING_EFFORTS =
     [''none'', ''minimal'', ''low'', ''medium'', ''high'', ''xhigh'', ''max'', ''ultra'']"

fun position :: "'a \<Rightarrow> 'a list \<Rightarrow> nat option" where
  "position x [] = None"
| "position x (y # ys) = (if y = x then Some 0 else map_option Suc (position x ys))"

definition reasoning_effort_rank :: "string \<Rightarrow> nat option" where
  "reasoning_effort_rank value = position value REASONING_EFFORTS"

definition validate_http_url :: "string \<Rightarrow> url \<Rightarrow> config_error + unit" where
  "validate_http_url name u =
     (if url_scheme u \<in> {''http'', ''https''} then Inr () else Inl (Bad_Url_Scheme name))"

definition validate_api_key ::
  "bool \<Rightarrow> string set \<Rightarrow> string set \<Rightarrow> api_key_config \<Rightarrow> config_error + (string set \<times> string set)" where
  "validate_api_key has_fallback ids secrets k =
     (let secret = key_secret k in
      if key_id k = [] then Inl Empty_Key_Id
      else if secret = [] then Inl Empty_Secret
      else if list_ex is_ascii_whitespace secret then Inl Whitespace_In_Secret
      else if key_id k \<in> ids then Inl (Duplicate_Key_Id (key_id k))
      else if secret \<in> secrets then Inl Duplicate_Secret
      else if (case key_weekly_limit_usd k of Some l \<Rightarrow> l < 0 | None \<Rightarrow> False)
        then Inl Negative_Weekly_Limit
      else if (case key_hard_limit_usd k of Some l \<Rightarrow> l < 0 | None \<Rightarrow> False)
        then Inl Negative_Hard_Limit
      else
        (case (key_weekly_limit_usd k, key_hard_limit_usd k) of
           (Some soft, Some hard) \<Rightarrow>
             if has_fallback \<and> hard \<le> soft then Inl Hard_Not_Above_Soft
             else if hard < soft then Inl Hard_Below_Soft
             else Inr (insert (key_id k) ids, insert secret secrets)
         | _ \<Rightarrow> Inr (insert (key_id k) ids, insert secret secrets)))"

fun validate_api_keys ::
  "bool \<Rightarrow> string set \<Rightarrow> string set \<Rightarrow> api_key_config list \<Rightarrow> config_error + unit" where
  "validate_api_keys has_fallback ids secrets [] = Inr ()"
| "validate_api_keys has_fallback ids secrets (k # ks) =
     res_bind (validate_api_key has_fallback ids secrets k) (\<lambda>(ids', secrets').
     validate_api_keys has_fallback ids' secrets' ks)"

definition validate_model_price :: "string \<Rightarrow> model_price \<Rightarrow> config_error + unit" where
  "validate_model_price model price =
     (if model = [] then Inl Empty_Model_Name
      else if price_input price < 0 then Inl (Negative_Input_Price model)
      else if price_cached_input price < 0 then Inl (Negative_Cached_Price model)
      else if price_output price < 0 then Inl (Negative_Output_Price model)
      else if (case max_reasoning_effort price of
                 Some effort \<Rightarrow> reasoning_effort_rank effort = None | None \<Rightarrow> False)
        then Inl (Bad_Max_Effort model)
      else Inr ())"

fun validate_model_prices :: "(string \<times> model_price) list \<Rightarrow> config_error + unit" where
  "validate_model_prices [] = Inr ()"
| "validate_model_prices ((model, price) # ps) =
     res_bind (validate_model_price model price) (\<lambda>_. validate_model_prices ps)"

definition validate_fallback :: "config \<Rightarrow> config_error + unit" where
  "validate_fallback c =
     (case fallback_model c of
        None \<Rightarrow> Inr ()
      | Some m \<Rightarrow>
          if m = [] then Inl Empty_Fallback
          else if map_of (model_prices c) m = None then Inl (Unpriced_Fallback m)
          else Inr ())"

definition validate :: "config \<Rightarrow> config_error + unit" where
  "validate c =
     (if state_path (cfg_state c) = [] then Inl Empty_State_Path
      else if auth_file (cfg_upstream c) = [] then Inl Empty_Auth_File
      else
        res_bind (validate_http_url ''upstream.base_url'' (base_url (cfg_upstream c))) (\<lambda>_.
        res_bind (validate_http_url ''upstream.oauth_token_url'' (oauth_token_url (cfg_upstream c))) (\<lambda>_.
        if enable_websockets (cfg_server c) \<and> \<not> supports_websockets (cfg_upstream c)
          then Inl Websockets_Unsupported
        else if api_keys c = [] then Inl No_Api_Keys
        else
          res_bind (validate_api_keys (fallback_model c \<noteq> None) {} {} (api_keys c)) (\<lambda>_.
          if model_prices c = [] then Inl No_Model_Prices
          else res_bind (validate_model_prices (model_prices c)) (\<lambda>_. validate_fallback c)))))"

section \<open>The effective model\<close>

text \<open>\<open>Config::effective_model\<close>: \<open>None\<close> is a panic, \<open>Some None\<close> an unknown model.\<close>

definition clamp_effort :: "string option \<Rightarrow> string \<Rightarrow> string option" where
  "clamp_effort maximum requested =
     (case maximum of
        None \<Rightarrow> Some requested
      | Some m \<Rightarrow>
          (case reasoning_effort_rank requested of
             Some rank \<Rightarrow>
               (case reasoning_effort_rank m of
                  None \<Rightarrow> None
                | Some limit \<Rightarrow> Some (if limit < rank then m else requested))
           | None \<Rightarrow> Some requested))"

definition effective_model_for :: "config \<Rightarrow> string \<Rightarrow> string option \<Rightarrow> effective_model option option" where
  "effective_model_for c model effort =
     (case map_of (model_prices c) model of
        None \<Rightarrow> Some None
      | Some price \<Rightarrow>
          (let rates = \<lparr>input_usd_per_million = price_input price,
                        cached_input_usd_per_million = price_cached_input price,
                        output_usd_per_million = price_output price\<rparr>
           in case effort of
                None \<Rightarrow> Some (Some \<lparr>em_model = model, em_reasoning_effort = None, em_rates = rates\<rparr>)
              | Some requested \<Rightarrow>
                  (case clamp_effort (max_reasoning_effort price) requested of
                     None \<Rightarrow> None
                   | Some e \<Rightarrow>
                       Some (Some \<lparr>em_model = model, em_reasoning_effort = Some e, em_rates = rates\<rparr>))))"

definition model_candidates_for ::
  "config \<Rightarrow> string \<Rightarrow> string option \<Rightarrow> model_candidates option option" where
  "model_candidates_for c model effort =
     (case effective_model_for c model effort of
        None \<Rightarrow> None
      | Some None \<Rightarrow> Some None
      | Some (Some p) \<Rightarrow>
          (case fallback_model c of
             None \<Rightarrow> Some (Some \<lparr>primary = p, fallback = None\<rparr>)
           | Some f \<Rightarrow>
               (case effective_model_for c f effort of
                  Some (Some m) \<Rightarrow> Some (Some \<lparr>primary = p, fallback = Some m\<rparr>)
                | _ \<Rightarrow> None)))"

text \<open>\<open>body.pointer_mut("/reasoning/effort")\<close> assigns to a member that is already there.\<close>

definition set_reasoning_effort :: "string \<Rightarrow> jobject \<Rightarrow> jobject option" where
  "set_reasoning_effort e m =
     (case map_of m ''reasoning'' of
        Some (JObj r) \<Rightarrow>
          (case map_of r ''effort'' of
             None \<Rightarrow> None
           | Some _ \<Rightarrow> Some (bmap_insert ''reasoning'' (JObj (bmap_insert ''effort'' (JStr e) r)) m))
      | _ \<Rightarrow> None)"

definition apply_effective_request :: "json \<Rightarrow> effective_model \<Rightarrow> json option" where
  "apply_effective_request b m =
     (case as_object b of
        None \<Rightarrow> None
      | Some object \<Rightarrow>
          (let object' = bmap_insert ''model'' (JStr (em_model m)) object
           in case em_reasoning_effort m of
                None \<Rightarrow> Some (JObj object')
              | Some e \<Rightarrow> map_option JObj (set_reasoning_effort e object')))"

section \<open>What validation guarantees\<close>

definition key_ok :: "bool \<Rightarrow> api_key_config \<Rightarrow> bool" where
  "key_ok has_fallback k \<longleftrightarrow>
     key_id k \<noteq> [] \<and> key_secret k \<noteq> [] \<and> (\<forall>c \<in> set (key_secret k). \<not> is_ascii_whitespace c) \<and>
     opt_all (\<lambda>l. 0 \<le> l) (key_weekly_limit_usd k) \<and> opt_all (\<lambda>l. 0 \<le> l) (key_hard_limit_usd k) \<and>
     (\<forall>soft hard. key_weekly_limit_usd k = Some soft \<and> key_hard_limit_usd k = Some hard \<longrightarrow>
        soft \<le> hard \<and> (has_fallback \<longrightarrow> soft < hard))"

definition price_ok :: "string \<Rightarrow> model_price \<Rightarrow> bool" where
  "price_ok model p \<longleftrightarrow>
     model \<noteq> [] \<and> 0 \<le> price_input p \<and> 0 \<le> price_cached_input p \<and> 0 \<le> price_output p \<and>
     opt_all (\<lambda>e. e \<in> set REASONING_EFFORTS) (max_reasoning_effort p)"

definition config_ok :: "config \<Rightarrow> bool" where
  "config_ok c \<longleftrightarrow>
     state_path (cfg_state c) \<noteq> [] \<and> auth_file (cfg_upstream c) \<noteq> [] \<and>
     url_scheme (base_url (cfg_upstream c)) \<in> {''http'', ''https''} \<and>
     url_scheme (oauth_token_url (cfg_upstream c)) \<in> {''http'', ''https''} \<and>
     (enable_websockets (cfg_server c) \<longrightarrow> supports_websockets (cfg_upstream c)) \<and>
     api_keys c \<noteq> [] \<and> distinct (map key_id (api_keys c)) \<and> distinct (map key_secret (api_keys c)) \<and>
     (\<forall>k \<in> set (api_keys c). key_ok (fallback_model c \<noteq> None) k) \<and>
     model_prices c \<noteq> [] \<and> (\<forall>(m, p) \<in> set (model_prices c). price_ok m p) \<and>
     opt_all (\<lambda>m. m \<in> fst ` set (model_prices c)) (fallback_model c)"

lemma position_None [simp]: "position x xs = None \<longleftrightarrow> x \<notin> set xs"
  by (induction xs) auto

lemma position_Some: "position x xs = Some i \<Longrightarrow> i < length xs \<and> xs ! i = x"
  by (induction xs arbitrary: i) (auto split: if_splits)

lemma rank_None [simp]: "reasoning_effort_rank e = None \<longleftrightarrow> e \<notin> set REASONING_EFFORTS"
  by (simp add: reasoning_effort_rank_def)

lemma validate_api_key_Inr:
  "validate_api_key fb ids secrets k = Inr r \<longleftrightarrow>
     key_ok fb k \<and> key_id k \<notin> ids \<and> key_secret k \<notin> secrets \<and>
     r = (insert (key_id k) ids, insert (key_secret k) secrets)"
  by (auto simp: validate_api_key_def key_ok_def Let_def list_ex_iff not_less not_le
      split: option.splits if_splits)

lemma validate_api_keys_Inr:
  "validate_api_keys fb ids secrets ks = Inr () \<longleftrightarrow>
     (\<forall>k \<in> set ks. key_ok fb k) \<and> distinct (map key_id ks) \<and> distinct (map key_secret ks) \<and>
     key_id ` set ks \<inter> ids = {} \<and> key_secret ` set ks \<inter> secrets = {}"
  by (induction ks arbitrary: ids secrets) (auto simp: result_simps validate_api_key_Inr)

lemma validate_model_prices_Inr:
  "validate_model_prices ps = Inr () \<longleftrightarrow> (\<forall>(m, p) \<in> set ps. price_ok m p)"
proof (induction ps)
  case (Cons e ps)
  have "validate_model_price m p = Inr () \<longleftrightarrow> price_ok m p" for m p
    by (auto simp: validate_model_price_def price_ok_def split: option.splits)
  with Cons show ?case by (cases e) (auto simp: result_simps)
qed simp

lemma validate_iff: "validate c = Inr () \<longleftrightarrow> config_ok c"
  by (auto simp: validate_def config_ok_def validate_http_url_def result_simps validate_api_keys_Inr
      validate_model_prices_Inr validate_fallback_def price_ok_def map_of_eq_None_iff image_iff
      split: option.splits if_splits)

text \<open>
  C35. Validation accepts a configuration exactly when it is well formed: HTTP URLs, websockets only
  with upstream support, at least one key, keys with distinct ids and distinct whitespace-free secrets,
  non-negative ordered limits (strictly ordered when there is a fallback), non-negative prices, known
  effort limits and a priced fallback.
\<close>

theorem validate_accepts_exactly_well_formed: "validate c = Inr () \<longleftrightarrow> config_ok c"
  by (rule validate_iff)

section \<open>Effective models of a validated configuration\<close>

text \<open>The effort a request may use: its own, lowered to the model's maximum when both are ranked.\<close>

definition effort_allowed :: "model_price \<Rightarrow> string \<Rightarrow> string \<Rightarrow> bool" where
  "effort_allowed p requested e \<longleftrightarrow>
     (case (max_reasoning_effort p, reasoning_effort_rank requested) of
        (Some m, Some r) \<Rightarrow>
          (\<exists>k. reasoning_effort_rank m = Some k \<and> reasoning_effort_rank e = Some (min r k))
      | _ \<Rightarrow> e = requested)"

definition effective_ok :: "config \<Rightarrow> string \<Rightarrow> string option \<Rightarrow> effective_model \<Rightarrow> bool" where
  "effective_ok c model effort m \<longleftrightarrow>
     em_model m = model \<and>
     (\<exists>p. map_of (model_prices c) model = Some p \<and>
        em_rates m = \<lparr>input_usd_per_million = price_input p,
          cached_input_usd_per_million = price_cached_input p, output_usd_per_million = price_output p\<rparr> \<and>
        (case effort of
           None \<Rightarrow> em_reasoning_effort m = None
         | Some e \<Rightarrow> (\<exists>x. em_reasoning_effort m = Some x \<and> effort_allowed p e x)))"

lemma clamp_effort_allowed:
  assumes "price_ok model p"
  shows "\<exists>x. clamp_effort (max_reasoning_effort p) e = Some x \<and> effort_allowed p e x"
proof (cases "max_reasoning_effort p")
  case (Some m)
  with assms obtain k where "reasoning_effort_rank m = Some k"
    by (cases "reasoning_effort_rank m") (auto simp: price_ok_def)
  with Some show ?thesis
    by (cases "reasoning_effort_rank e") (auto simp: clamp_effort_def effort_allowed_def min_def simp del: rank_None)
qed (simp add: clamp_effort_def effort_allowed_def)

lemma effective_model_for_cases:
  assumes "config_ok c"
  shows "(map_of (model_prices c) model = None \<and> effective_model_for c model effort = Some None) \<or>
    (\<exists>m. effective_model_for c model effort = Some (Some m) \<and> effective_ok c model effort m)"
proof (cases "map_of (model_prices c) model")
  case (Some p)
  with assms have "price_ok model p" by (auto simp: config_ok_def dest!: map_of_SomeD)
  from clamp_effort_allowed [OF this] have
    "effort = Some e \<Longrightarrow> \<exists>x. clamp_effort (max_reasoning_effort p) e = Some x \<and> effort_allowed p e x" for e .
  with Some show ?thesis
    by (cases effort) (fastforce simp: effective_model_for_def effective_ok_def Let_def)+
qed (simp add: effective_model_for_def)

lemma model_candidates_for_cases:
  assumes "config_ok c"
  shows "(map_of (model_prices c) model = None \<and> model_candidates_for c model effort = Some None) \<or>
    (\<exists>cands. model_candidates_for c model effort = Some (Some cands) \<and>
       effective_ok c model effort (primary cands) \<and>
       (case fallback_model c of
          None \<Rightarrow> fallback cands = None
        | Some f \<Rightarrow> \<exists>m. fallback cands = Some m \<and> effective_ok c f effort m))"
proof (cases "map_of (model_prices c) model")
  case None
  then show ?thesis by (simp add: model_candidates_for_def effective_model_for_def)
next
  case (Some p)
  with effective_model_for_cases [OF assms, of model effort] obtain m where
    m: "effective_model_for c model effort = Some (Some m)" "effective_ok c model effort m" by auto
  show ?thesis
  proof (cases "fallback_model c")
    case (Some f)
    with assms have "map_of (model_prices c) f \<noteq> None"
      by (simp add: config_ok_def map_of_eq_None_iff)
    with effective_model_for_cases [OF assms, of f effort] m Some show ?thesis
      by (auto simp: model_candidates_for_def)
  qed (use m in \<open>simp add: model_candidates_for_def\<close>)
qed

text \<open>
  C27. Under a validated configuration the lookup of a model never panics: an unpriced model is
  refused, and a priced one gives the requested model, and the fallback when one is configured, each
  with its own prices and with the requested effort lowered to that model's maximum and never raised.
\<close>

theorem candidates_are_safe_and_capped:
  assumes "validate c = Inr ()"
  shows "if map_of (model_prices c) model = None
    then model_candidates_for c model effort = Some None
    else \<exists>cands. model_candidates_for c model effort = Some (Some cands) \<and>
       effective_ok c model effort (primary cands) \<and>
       (case fallback_model c of
          None \<Rightarrow> fallback cands = None
        | Some f \<Rightarrow> \<exists>m. fallback cands = Some m \<and> effective_ok c f effort m)"
  using model_candidates_for_cases [of c model effort] assms by (auto simp: validate_iff effective_ok_def)

definition demo_config :: config where
  "demo_config =
     \<lparr>cfg_server = \<lparr>listen = ''127.0.0.1:8080'', enable_websockets = True\<rparr>,
      cfg_state = \<lparr>state_path = ''state.db'', file_mode = default_state_file_mode\<rparr>,
      cfg_upstream = \<lparr>base_url = \<lparr>url_scheme = ''https'', url_text = ''https://a/codex''\<rparr>,
        oauth_token_url = \<lparr>url_scheme = ''https'', url_text = ''https://b/token''\<rparr>,
        auth_file = ''auth.json'', supports_websockets = True\<rparr>,
      fallback_model = Some ''mini'',
      api_keys = [\<lparr>key_id = ''alice'', key_secret = ''s1'', key_weekly_limit_usd = Some 5,
         key_hard_limit_usd = Some 6\<rparr>,
        \<lparr>key_id = ''bob'', key_secret = ''s2'', key_weekly_limit_usd = None, key_hard_limit_usd = None\<rparr>],
      model_prices = [(''big'', \<lparr>price_input = 5, price_cached_input = 1, price_output = 10,
         max_reasoning_effort = Some ''high''\<rparr>),
        (''mini'', \<lparr>price_input = 1, price_cached_input = 1, price_output = 2,
         max_reasoning_effort = Some ''low''\<rparr>)]\<rparr>"

lemma demo_config_valid: "validate demo_config = Inr ()"
  by (simp add: validate_def demo_config_def validate_http_url_def validate_api_key_def
      is_ascii_whitespace_def byte_def validate_model_price_def validate_fallback_def
      reasoning_effort_rank_def REASONING_EFFORTS_def)

theorem candidates_are_safe_and_capped_witness:
  "\<exists>cands m. model_candidates_for demo_config ''big'' (Some ''ultra'') = Some (Some cands) \<and>
     em_reasoning_effort (primary cands) = Some ''high'' \<and> fallback cands = Some m \<and>
     em_reasoning_effort m = Some ''low'' \<and> effective_ok demo_config ''mini'' (Some ''ultra'') m"
  using candidates_are_safe_and_capped [OF demo_config_valid, of "''big''" "Some ''ultra''"]
  by (simp add: model_candidates_for_def effective_model_for_def demo_config_def clamp_effort_def
      reasoning_effort_rank_def REASONING_EFFORTS_def)

section \<open>Deserialised values\<close>

lemma byte_digit_char: "d < 10 \<Longrightarrow> byte (digit_char d) = 48 + d"
  by (auto simp: less_Suc_eq numeral_eq_Suc digit_char_def byte_def)

lemma octal_digit_iff: "octal_digit c \<longleftrightarrow> (\<exists>d < 8. c = digit_char d)"
proof
  assume "octal_digit c"
  then have *: "48 \<le> byte c" "byte c \<le> 55" by (simp_all add: octal_digit_def)
  then have "byte (digit_char (byte c - 48)) = byte c" by (subst byte_digit_char) auto
  then have "c = digit_char (byte c - 48)" by (simp add: byte_def)
  with * show "\<exists>d < 8. c = digit_char d" by (intro exI [of _ "byte c - 48"]) auto
qed (auto simp: octal_digit_def byte_digit_char)

text \<open>The four octal digits of a mode.\<close>

definition octal4 :: "nat \<Rightarrow> string" where
  "octal4 n = [digit_char (n div 512 mod 8), digit_char (n div 64 mod 8), digit_char (n div 8 mod 8),
     digit_char (n mod 8)]"

lemma digit_char_eq: "d < 10 \<Longrightarrow> e < 10 \<Longrightarrow> digit_char d = digit_char e \<longleftrightarrow> d = e"
  by (metis byte_digit_char add_left_cancel)

lemma digit_char_not_plus: "d < 8 \<Longrightarrow> digit_char d \<noteq> CHR ''+''"
  using byte_digit_char [of d] by (auto simp: byte_def)

lemma digit_char_zero: "CHR ''0'' = digit_char 0"
  by (simp add: digit_char_def)

lemma deserialize_file_mode_digits:
  assumes "a < 8" "b < 8" "c < 8"
  shows "deserialize_file_mode [CHR ''0'', digit_char a, digit_char b, digit_char c]
    = Inr (of_nat (64 * a + 8 * b + c))"
  using assms digit_char_not_plus[of a]
  by (simp add: deserialize_file_mode_def from_str_radix_8_def octal_value_def octal_digit_def Let_def
      byte_digit_char digit_char_zero [symmetric] ) (simp add: byte_def)

lemma deserialize_file_mode_shape:
  assumes "deserialize_file_mode value = Inr m"
  obtains a b c where "a < 8" "b < 8" "c < 8" "value = [CHR ''0'', digit_char a, digit_char b, digit_char c]"
proof -
  from assms obtain x y z where v: "value = [CHR ''0'', x, y, z]" "octal_digit x" "octal_digit y" "octal_digit z"
    by (auto simp: deserialize_file_mode_def strip_prefix_None numeral_eq_Suc length_Suc_conv split: if_splits)
  with that show ?thesis by (auto simp: octal_digit_iff)
qed

lemma octal4_digits:
  assumes "a < 8" "b < 8" "c < 8"
  shows "octal4 (64 * a + 8 * b + c) = [CHR ''0'', digit_char a, digit_char b, digit_char c]"
proof -
  have "(8 * q + c) mod 8 = c" "(8 * q + c) div 8 = q" for q :: nat using assms by simp_all
  from this [of "8 * a + b"] have "(64 * a + 8 * b + c) mod 8 = c" "(64 * a + 8 * b + c) div 8 = 8 * a + b"
    by (simp_all add: distrib_left)
  moreover have "(64 * a + 8 * b + c) div 64 = a" using assms by (intro div_nat_eqI) auto
  ultimately show ?thesis using assms by (simp add: octal4_def digit_char_zero)
qed

text \<open>
  The file modes the configuration accepts are the nine permission bits and nothing else: a string
  is accepted as mode \<open>m\<close> exactly when \<open>m\<close> is below octal 1000 and the string is its four octal digits.
\<close>

theorem file_mode_exact:
  "deserialize_file_mode value = Inr m \<longleftrightarrow> unat m < 512 \<and> value = octal4 (unat m)"
proof
  assume d: "deserialize_file_mode value = Inr m"
  then obtain a b c where *: "a < 8" "b < 8" "c < 8" "value = [CHR ''0'', digit_char a, digit_char b, digit_char c]"
    by (rule deserialize_file_mode_shape)
  with d deserialize_file_mode_digits have m: "m = of_nat (64 * a + 8 * b + c)" by simp
  have "unat m = 64 * a + 8 * b + c" using * by (simp add: m unat_of_nat del: of_nat_add of_nat_mult)
  with * octal4_digits show "unat m < 512 \<and> value = octal4 (unat m)" by simp
next
  assume *: "unat m < 512 \<and> value = octal4 (unat m)"
  define a b c where "a = unat m div 64" "b = unat m div 8 mod 8" "c = unat m mod 8"
  with * have abc: "a < 8" "b < 8" "c < 8" by (simp_all add: less_mult_imp_div_less)
  have "unat m = 8 * (unat m div 8) + c" "unat m div 8 = 8 * a + b"
    unfolding a_b_c_def using div_mult2_eq [of "unat m" 8 8] by simp_all
  then have abc': "unat m = 64 * a + 8 * b + c" by simp
  with * abc octal4_digits have "value = [CHR ''0'', digit_char a, digit_char b, digit_char c]" by simp
  with abc abc' deserialize_file_mode_digits show "deserialize_file_mode value = Inr m"
    by (simp add: word_unat_eq_iff unat_of_nat del: of_nat_add of_nat_mult)
qed

lemma ends_with_iff: "ends_with s t \<longleftrightarrow> (\<exists>r. s = r @ t)"
  by (auto simp: ends_with_def) (metis append_Nil2 rev_append rev_rev_ident strip_prefix_Some)+

lemma strip_line_ending_cases:
  "strip_line_ending s = r \<Longrightarrow> s = r \<or> s = r @ [CHR 0x0A] \<or> s = r @ [CHR 0x0D, CHR 0x0A]"
  by (auto simp: strip_line_ending_def ends_with_iff split: if_splits)

text \<open>
  An API key entry that is read has exactly one source for its secret, has both limits or none,
  and a secret from a file is the file's text less at most one line ending.
\<close>

theorem deserialized_key_shape:
  assumes "deserialize_api_key parse read_file input = Inr k"
  shows "quota_shape \<lparr>weekly_limit_usd = key_weekly_limit_usd k, hard_limit_usd = key_hard_limit_usd k\<rparr> \<and>
    (in_secret input = None \<longleftrightarrow> in_secret_file input \<noteq> None) \<and>
    (\<forall>secret. in_secret input = Some secret \<longrightarrow> key_secret k = secret) \<and>
    (\<forall>path text. in_secret_file input = Some path \<longrightarrow> read_file path = Some text \<longrightarrow>
       (text = key_secret k \<or> text = key_secret k @ [CHR 0x0A] \<or> text = key_secret k @ [CHR 0x0D, CHR 0x0A]))"
  using assms by (auto simp: deserialize_api_key_def result_simps quota_shape_def split: option.splits)
    (metis strip_line_ending_cases)+
section \<open>Rewriting the request\<close>

text \<open>The effort a request asks for: \<open>body.pointer("/reasoning/effort").and_then(Value::as_str)\<close>.\<close>

definition requested_effort :: "json \<Rightarrow> string option" where
  "requested_effort b = opt_bind (jpointer b [''reasoning'', ''effort'']) as_str"

lemma requested_effort_Some:
  "requested_effort b = Some e \<longleftrightarrow> (\<exists>m r. b = JObj m \<and> map_of m ''reasoning'' = Some (JObj r) \<and>
     map_of r ''effort'' = Some (JStr e))"
  by (cases b) (auto simp: requested_effort_def opt_bind_def jget_Some split: option.splits)

lemma effective_effort_present:
  "effective_ok c model effort m \<Longrightarrow> em_reasoning_effort m = None \<longleftrightarrow> effort = None"
  by (auto simp: effective_ok_def split: option.splits)

lemma apply_effective_request_total:
  assumes "effective_ok c model (requested_effort (JObj b)) m"
  shows "apply_effective_request (JObj b) m \<noteq> None"
proof (cases "requested_effort (JObj b)")
  case None
  with effective_effort_present [OF assms] show ?thesis by (simp add: apply_effective_request_def)
next
  case (Some e)
  with effective_effort_present [OF assms] obtain x where x: "em_reasoning_effort m = Some x" by auto
  from Some obtain r where "map_of b ''reasoning'' = Some (JObj r)" "map_of r ''effort'' = Some (JStr e)"
    by (auto simp: requested_effort_Some)
  with x show ?thesis by (simp add: apply_effective_request_def set_reasoning_effort_def)
qed

text \<open>A candidate of a validated configuration is effective for the model it is named for.\<close>

lemma candidate_effective:
  assumes "config_ok c" "model_candidates_for c model effort = Some (Some cands)"
    and "m = primary cands \<or> fallback cands = Some m"
  shows "\<exists>name. effective_ok c name effort m"
  using model_candidates_for_cases [OF assms(1), of model effort] assms(2,3)
  by (auto split: option.splits)

text \<open>
  Rewriting a request for the model it was admitted with never panics, puts that model and effort
  in place, and leaves every other member of the request, and of its \<open>reasoning\<close> object, as it was.
\<close>

theorem apply_effective_request_exact:
  assumes "effective_ok c model (requested_effort (JObj b)) m"
  shows "\<exists>b'. apply_effective_request (JObj b) m = Some (JObj b') \<and>
    map_of b' ''model'' = Some (JStr (em_model m)) \<and>
    (\<forall>k. k \<noteq> ''model'' \<longrightarrow> k \<noteq> ''reasoning'' \<longrightarrow> map_of b' k = map_of b k) \<and>
    requested_effort (JObj b') = em_reasoning_effort m \<and>
    (\<forall>k. k \<noteq> ''effort'' \<longrightarrow>
       jget (jindex (JObj b') ''reasoning'') k = jget (jindex (JObj b) ''reasoning'') k)"
proof (cases "requested_effort (JObj b)")
  case None
  with effective_effort_present [OF assms] have "em_reasoning_effort m = None" by simp
  with None show ?thesis
    by (auto simp: apply_effective_request_def requested_effort_def opt_bind_def)
next
  case (Some e)
  with effective_effort_present [OF assms] obtain x where x: "em_reasoning_effort m = Some x" by auto
  from Some obtain r where "map_of b ''reasoning'' = Some (JObj r)" "map_of r ''effort'' = Some (JStr e)"
    by (auto simp: requested_effort_Some)
  with x show ?thesis
    by (auto simp: apply_effective_request_def set_reasoning_effort_def requested_effort_def opt_bind_def)
qed

end
