(* ===== verification/Api_Error.thy ===== *)
theory Api_Error
  imports Json
begin

text \<open>
  The errors the relay answers with (\<open>src/error.rs\<close>): status, type, code, parameter and message, one
  constructor function per kind, and the JSON bodies of the HTTP and WebSocket surfaces.
\<close>

record api_error =
  err_status :: nat
  err_type :: string
  err_code :: string
  err_param :: "string option"
  err_message :: string

definition session_busy :: api_error where
  "session_busy = \<lparr>err_status = 409, err_type = ''invalid_request_error'', err_code = ''session_busy'',
     err_param = None, err_message = ''This session already has a request in progress''\<rparr>"

definition invalid :: "string \<Rightarrow> string \<Rightarrow> api_error" where
  "invalid param message = \<lparr>err_status = 400, err_type = ''invalid_request_error'',
     err_code = ''invalid_request_error'', err_param = Some param, err_message = message\<rparr>"

definition invalid_api_key :: api_error where
  "invalid_api_key = \<lparr>err_status = 401, err_type = ''invalid_request_error'',
     err_code = ''invalid_api_key'', err_param = None, err_message = ''Invalid API key''\<rparr>"

definition quota_exceeded :: api_error where
  "quota_exceeded = \<lparr>err_status = 429, err_type = ''invalid_request_error'',
     err_code = ''weekly_quota_exceeded'', err_param = None,
     err_message = ''The configured weekly quota has been exceeded''\<rparr>"

text \<open>\<open>debug\<close> is the \<open>Debug\<close> rendering of a string, which quotes and escapes it.\<close>

definition model_not_found :: "(string \<Rightarrow> string) \<Rightarrow> string \<Rightarrow> api_error" where
  "model_not_found debug model = \<lparr>err_status = 404, err_type = ''invalid_request_error'',
     err_code = ''model_not_found'', err_param = Some ''model'',
     err_message = ''The model '' @ debug model @ '' does not exist or is not available''\<rparr>"

definition gateway :: "string \<Rightarrow> api_error" where
  "gateway message = \<lparr>err_status = 502, err_type = ''upstream_error'', err_code = ''upstream_error'',
     err_param = None, err_message = message\<rparr>"

definition str_or :: "string \<Rightarrow> string option \<Rightarrow> string" where
  "str_or d s = (case s of None \<Rightarrow> d | Some t \<Rightarrow> t)"

definition upstream :: "json \<Rightarrow> api_error" where
  "upstream error = \<lparr>err_status = 502,
     err_type = str_or ''upstream_error'' (as_str (jindex error ''type'')),
     err_code = str_or ''upstream_error'' (as_str (jindex error ''code'')),
     err_param = as_str (jindex error ''param''),
     err_message = str_or ''Upstream request failed'' (as_str (jindex error ''message''))\<rparr>"

definition internal :: api_error where
  "internal = \<lparr>err_status = 500, err_type = ''server_error'', err_code = ''internal_error'',
     err_param = None, err_message = ''Internal server error''\<rparr>"

definition shutdown :: api_error where
  "shutdown = \<lparr>err_status = 503, err_type = ''server_error'', err_code = ''server_shutting_down'',
     err_param = None, err_message = ''Server is shutting down''\<rparr>"

definition body :: "api_error \<Rightarrow> json" where
  "body e = jobj [(''error'', jobj [
     (''message'', JStr (err_message e)), (''type'', JStr (err_type e)),
     (''param'', json_of_str_option (err_param e)), (''code'', JStr (err_code e))])]"

definition into_response :: "api_error \<Rightarrow> nat \<times> json" where
  "into_response e = (err_status e, body e)"

definition websocket_error :: "string \<Rightarrow> string option \<Rightarrow> string \<Rightarrow> json" where
  "websocket_error code param message = jobj [
     (''type'', JStr ''error''), (''code'', JStr code), (''param'', json_of_str_option param),
     (''message'', JStr message)]"

section \<open>Round trip of upstream errors\<close>

lemma str_or_simps [simp]: "str_or d None = d" "str_or d (Some s) = s"
  by (simp_all add: str_or_def)

lemma as_str_json_of_str_option [simp]: "as_str (json_of_str_option s) = s"
  by (cases s) (simp_all add: json_of_str_option_def)

text \<open>
  An upstream error passes through unchanged: the four fields of the error object the relay
  sends are read back by \<open>upstream\<close> as the same error, so relaying an error twice changes nothing.
\<close>

theorem upstream_body_roundtrip:
  "\<exists>inner. jget (body e) ''error'' = Some inner \<and> upstream inner = e\<lparr>err_status := 502\<rparr>"
  by (simp add: body_def upstream_def jindex_def)

end
