(* ===== verification/Auth.thy ===== *)
theory Auth
  imports Config Api_Error
begin

text \<open>
  Client authentication (\<open>src/auth.rs\<close>) and the request headers it reads. A \<open>HeaderMap\<close> is the list of
  its entries under lower-case names, in insertion order per name; \<open>to_str\<close> (which refuses bytes that
  are not visible ASCII) and the constant-time comparison are arguments.
\<close>

type_synonym header_map = "(string \<times> string) list"

definition get_all :: "header_map \<Rightarrow> string \<Rightarrow> string list" where
  "get_all h name = map snd (filter (\<lambda>e. fst e = name) h)"

definition header_get :: "header_map \<Rightarrow> string \<Rightarrow> string option" where
  "header_get h name = (case get_all h name of [] \<Rightarrow> None | v # _ \<Rightarrow> Some v)"

record client_identity =
  client_id :: string
  client_quota :: quota_limits

definition authenticate ::
  "(string \<Rightarrow> string option) \<Rightarrow> (string \<Rightarrow> string \<Rightarrow> bool) \<Rightarrow> header_map \<Rightarrow> config \<Rightarrow>
     api_error + client_identity" where
  "authenticate to_str ct_eq headers c =
     (let values = get_all headers ''authorization'' in
      res_bind (ok_or invalid_api_key (case values of [] \<Rightarrow> None | v # _ \<Rightarrow> to_str v)) (\<lambda>authorization.
      if (case values of _ # _ # _ \<Rightarrow> True | _ \<Rightarrow> False) then Inl invalid_api_key
      else
        res_bind
          (ok_or invalid_api_key
            (case strip_prefix ''Bearer '' authorization of
               None \<Rightarrow> None
             | Some token \<Rightarrow>
                 if token \<noteq> [] \<and> \<not> list_ex is_ascii_whitespace token then Some token else None))
          (\<lambda>provided.
          ok_or invalid_api_key
            (map_option
              (\<lambda>k. \<lparr>client_id = key_id k,
                    client_quota = \<lparr>weekly_limit_usd = key_weekly_limit_usd k,
                                    hard_limit_usd = key_hard_limit_usd k\<rparr>\<rparr>)
              (find (\<lambda>k. ct_eq provided (key_secret k)) (api_keys c))))))"

lemma find_unique_secret:
  assumes "distinct (map key_secret ks)"
  shows "find (\<lambda>k. s = key_secret k) ks = Some k \<longleftrightarrow> k \<in> set ks \<and> key_secret k = s"
  using assms by (induction ks) (auto simp: image_iff)

lemma authenticate_error: "authenticate to_str ct_eq headers c = Inl e \<Longrightarrow> e = invalid_api_key"
  by (auto simp: authenticate_def Let_def res_bind_Inl_iff result_simps split: if_splits)

text \<open>
  C19. Authentication admits exactly the holders of a configured secret: it succeeds if and only if the
  request carries one single \<open>Authorization\<close> header, readable as text, that is \<open>Bearer\<close> and the secret
  of a configured key, and the identity is that key's id with that key's limits. Every other request
  gets the same error.
\<close>

theorem authenticate_exact:
  assumes "validate c = Inr ()" and "\<And>a b. ct_eq a b \<longleftrightarrow> a = b"
  shows "case authenticate to_str ct_eq headers c of
      Inr ident \<Rightarrow>
        (\<exists>raw k. get_all headers ''authorization'' = [raw] \<and> k \<in> set (api_keys c) \<and>
           to_str raw = Some (''Bearer '' @ key_secret k) \<and>
           ident = \<lparr>client_id = key_id k, client_quota = \<lparr>weekly_limit_usd = key_weekly_limit_usd k,
             hard_limit_usd = key_hard_limit_usd k\<rparr>\<rparr>)
    | Inl e \<Rightarrow> e = invalid_api_key \<and>
        \<not> (\<exists>raw k. get_all headers ''authorization'' = [raw] \<and> k \<in> set (api_keys c) \<and>
           to_str raw = Some (''Bearer '' @ key_secret k))"
proof -
  have ok: "config_ok c" using assms(1) by (simp add: validate_iff)
  then have keys: "k \<in> set (api_keys c) \<Longrightarrow> key_secret k \<noteq> [] \<and> \<not> list_ex is_ascii_whitespace (key_secret k)"
    for k by (auto simp: config_ok_def key_ok_def list_ex_iff)
  have f: "find (\<lambda>k. ct_eq s (key_secret k)) (api_keys c) = Some k \<longleftrightarrow>
    k \<in> set (api_keys c) \<and> key_secret k = s" for s k
    using find_unique_secret [of "api_keys c" s k] ok by (simp add: config_ok_def assms(2))
  have *: "authenticate to_str ct_eq headers c = Inr ident \<longleftrightarrow>
      (\<exists>raw k. get_all headers ''authorization'' = [raw] \<and> k \<in> set (api_keys c) \<and>
         to_str raw = Some (''Bearer '' @ key_secret k) \<and>
         ident = \<lparr>client_id = key_id k, client_quota = \<lparr>weekly_limit_usd = key_weekly_limit_usd k,
           hard_limit_usd = key_hard_limit_usd k\<rparr>\<rparr>)" for ident
    using keys by (auto simp: authenticate_def Let_def result_simps f split: list.splits option.splits if_splits)
  show ?thesis
  proof (cases "authenticate to_str ct_eq headers c")
    case (Inl e)
    then have "authenticate to_str ct_eq headers c \<noteq> Inr ident" for ident by simp
    with Inl authenticate_error [OF Inl] show ?thesis unfolding * by auto
  next
    case (Inr ident)
    with * [of ident] show ?thesis by simp
  qed
qed

theorem authenticate_exact_witness:
  "\<exists>raw k. get_all [(''authorization'', ''Bearer s2'')] ''authorization'' = [raw] \<and>
     k \<in> set (api_keys demo_config) \<and> Some raw = Some (''Bearer '' @ key_secret k) \<and> key_id k = ''bob''"
proof -
  have "authenticate Some (=) [(''authorization'', ''Bearer s2'')] demo_config =
    Inr \<lparr>client_id = ''bob'', client_quota = \<lparr>weekly_limit_usd = None, hard_limit_usd = None\<rparr>\<rparr>"
    by (simp add: authenticate_def get_all_def demo_config_def is_ascii_whitespace_def byte_def)
  with authenticate_exact [OF demo_config_valid, of "(=)" "[(''authorization'', ''Bearer s2'')]" Some]
  show ?thesis by auto
qed

end
