(* ===== verification/Session_Cache.thy ===== *)
theory Session_Cache
  imports Auth "HOL-Library.AList"
begin

text \<open>
  The cache of HTTP Responses sessions (\<open>src/http_api/responses_session.rs\<close>): session keys from
  headers, the lookup that admits one turn per session, the release with its least-recently-used
  eviction, and the removals of idle and stopped actors. The mutex makes each of these one step. A
  \<open>HashMap\<close> is the list of its entries in the order it iterates in, which is arbitrary; a sender is
  named by the id of the actor that receives from it; an \<open>Instant\<close> is a number.
\<close>

section \<open>Keys\<close>

record session_key =
  sk_client :: string
  sk_header :: string
  sk_value :: string

fun scan_session_headers ::
  "(string \<Rightarrow> string option) \<Rightarrow> string \<Rightarrow> header_map \<Rightarrow> string list \<Rightarrow> api_error + session_key option" where
  "scan_session_headers to_str client headers [] = Inr None"
| "scan_session_headers to_str client headers (header # rest) =
     (case header_get headers header of
        None \<Rightarrow> scan_session_headers to_str client headers rest
      | Some raw \<Rightarrow>
          res_bind
            (ok_or (invalid header ''session header must be a nonempty string'')
              (opt_filter (\<lambda>v. trim v \<noteq> []) (to_str raw))) (\<lambda>value.
          Inr (Some \<lparr>sk_client = client, sk_header = header, sk_value = value\<rparr>)))"

definition session_key_from_headers ::
  "(string \<Rightarrow> string option) \<Rightarrow> string \<Rightarrow> header_map \<Rightarrow> api_error + session_key option" where
  "session_key_from_headers to_str client headers =
     scan_session_headers to_str client headers [''thread_id'', ''session_id'']"

section \<open>The cache\<close>

definition MAX_IDLE_SESSIONS :: nat where
  "MAX_IDLE_SESSIONS = 64"

definition MAX_CONTEXT_BYTES :: nat where
  "MAX_CONTEXT_BYTES = 64 * 1024 * 1024"

record entry =
  en_id :: u64
  en_sender :: u64
  en_busy :: bool
  en_last_used :: nat
  en_bytes :: nat

type_synonym session_entries = "(session_key \<times> entry) list"

record cache =
  entries :: session_entries
  next_id :: u64

definition empty_cache :: cache where
  "empty_cache = \<lparr>entries = [], next_id = 0\<rparr>"

text \<open>The critical section of \<open>stream\<close>: the actor the turn goes to, newly spawned or not.\<close>

datatype target = Existing u64 | Spawned u64

definition spawn_session :: "session_key option \<Rightarrow> nat \<Rightarrow> cache \<Rightarrow> (api_error + target) \<times> cache" where
  "spawn_session key now c =
     (let i = next_id c;
          c' = c\<lparr>next_id := next_id c + 1\<rparr>
      in (Inr (Spawned i),
          case key of
            None \<Rightarrow> c'
          | Some k \<Rightarrow> c'\<lparr>entries := AList.update k
              \<lparr>en_id = i, en_sender = i, en_busy = True, en_last_used = now, en_bytes = 0\<rparr>
              (entries c')\<rparr>))"

definition acquire :: "session_key option \<Rightarrow> nat \<Rightarrow> cache \<Rightarrow> (api_error + target) \<times> cache" where
  "acquire key now c =
     (case key of
        None \<Rightarrow> spawn_session key now c
      | Some k \<Rightarrow>
          (case map_of (entries c) k of
             None \<Rightarrow> spawn_session key now c
           | Some e \<Rightarrow>
               if en_busy e then (Inl session_busy, c)
               else (Inr (Existing (en_sender e)),
                     c\<lparr>entries := AList.update k (e\<lparr>en_busy := True\<rparr>) (entries c)\<rparr>)))"

definition idle_entries :: "session_entries \<Rightarrow> session_entries" where
  "idle_entries es = filter (\<lambda>e. \<not> en_busy (snd e)) es"

definition total_bytes :: "session_entries \<Rightarrow> nat" where
  "total_bytes es = sum_list (map (\<lambda>e. en_bytes (snd e)) es)"

text \<open>\<open>min_by_key\<close> keeps the first of the smallest.\<close>

fun min_by_last_used :: "session_key \<times> entry \<Rightarrow> session_entries \<Rightarrow> session_key \<times> entry" where
  "min_by_last_used best [] = best"
| "min_by_last_used best (e # es) =
     min_by_last_used (if en_last_used (snd e) < en_last_used (snd best) then e else best) es"

definition oldest_idle :: "session_entries \<Rightarrow> session_key option" where
  "oldest_idle es =
     (case idle_entries es of [] \<Rightarrow> None | e # rest \<Rightarrow> Some (fst (min_by_last_used e rest)))"

definition within_budget :: "session_entries \<Rightarrow> bool" where
  "within_budget es \<longleftrightarrow>
     length (idle_entries es) \<le> MAX_IDLE_SESSIONS \<and> total_bytes es \<le> MAX_CONTEXT_BYTES"

lemma min_by_last_used_in: "min_by_last_used b es \<in> insert b (set es)"
  by (induction b es rule: min_by_last_used.induct) auto

lemma oldest_idle_in:
  assumes "oldest_idle es = Some k"
  obtains e where "(k, e) \<in> set es" "\<not> en_busy e"
proof -
  from assms obtain b rest where r: "idle_entries es = b # rest" "k = fst (min_by_last_used b rest)"
    by (auto simp: oldest_idle_def split: list.splits)
  then have "min_by_last_used b rest \<in> set (idle_entries es)"
    using min_by_last_used_in [of b rest] by simp
  with r(2) that [of "snd (min_by_last_used b rest)"] show thesis by (simp add: idle_entries_def)
qed

lemma length_delete_less: "k \<in> fst ` set es \<Longrightarrow> length (AList.delete k es) < length es"
  by (induction es) (auto simp: le_imp_less_Suc AList.length_delete_le)

function evict :: "session_entries \<Rightarrow> session_entries" where
  "evict es =
     (if within_budget es then es
      else case oldest_idle es of
             None \<Rightarrow> es
           | Some k \<Rightarrow> evict (AList.delete k es))"
  by pat_completeness auto
termination
proof (relation "measure length")
  fix es k
  assume "oldest_idle es = Some k"
  then obtain e where "(k, e) \<in> set es" by (rule oldest_idle_in)
  then show "(AList.delete k es, es) \<in> measure length"
    using length_delete_less [of k es] by (force simp: image_iff)
qed simp

declare evict.simps [simp del]

definition ready :: "session_key \<Rightarrow> u64 \<Rightarrow> nat \<Rightarrow> nat \<Rightarrow> cache \<Rightarrow> cache" where
  "ready key i bytes now c =
     (let mine = (case map_of (entries c) key of Some e \<Rightarrow> en_id e = i | None \<Rightarrow> False)
      in if MAX_CONTEXT_BYTES < bytes \<and> mine then c\<lparr>entries := AList.delete key (entries c)\<rparr>
         else
           (let es = (case map_of (entries c) key of
                        Some e \<Rightarrow>
                          if en_id e = i
                          then AList.update key
                            (e\<lparr>en_busy := False, en_last_used := now, en_bytes := bytes\<rparr>) (entries c)
                          else entries c
                      | None \<Rightarrow> entries c)
            in c\<lparr>entries := evict es\<rparr>))"

definition remove_idle :: "session_key \<Rightarrow> u64 \<Rightarrow> cache \<Rightarrow> bool \<times> cache" where
  "remove_idle key i c =
     (case map_of (entries c) key of
        Some e \<Rightarrow>
          if en_id e = i \<and> en_busy e then (False, c)
          else if en_id e = i then (True, c\<lparr>entries := AList.delete key (entries c)\<rparr>)
          else (True, c)
      | None \<Rightarrow> (True, c))"

text \<open>The end of \<open>Session::run\<close>.\<close>

definition actor_exit :: "session_key \<Rightarrow> u64 \<Rightarrow> cache \<Rightarrow> cache" where
  "actor_exit key i c =
     (case map_of (entries c) key of
        Some e \<Rightarrow> if en_id e = i then c\<lparr>entries := AList.delete key (entries c)\<rparr> else c
      | None \<Rightarrow> c)"

interpretation hm: keyed_store map_of AList.update AList.delete
  by unfold_locales (auto simp: update_conv' delete_conv')

section \<open>Eviction\<close>

abbreviation keys_distinct :: "session_entries \<Rightarrow> bool" where
  "keys_distinct es \<equiv> distinct (map fst es)"

lemma min_by_last_used_least:
  "x \<in> insert b (set es) \<Longrightarrow> en_last_used (snd (min_by_last_used b es)) \<le> en_last_used (snd x)"
proof (induction b es arbitrary: x rule: min_by_last_used.induct)
  case (2 best e es)
  let ?b = "if en_last_used (snd e) < en_last_used (snd best) then e else best"
  have "en_last_used (snd (min_by_last_used ?b es)) \<le> en_last_used (snd ?b)"
    "x \<in> set es \<Longrightarrow> en_last_used (snd (min_by_last_used ?b es)) \<le> en_last_used (snd x)"
    by (rule "2.IH", simp)+
  with "2.prems" show ?case by (auto split: if_splits)
qed simp

lemma oldest_idle_least:
  assumes "keys_distinct es" "oldest_idle es = Some k"
  obtains e where "map_of es k = Some e" "\<not> en_busy e"
    "\<And>j d. map_of es j = Some d \<Longrightarrow> \<not> en_busy d \<Longrightarrow> en_last_used e \<le> en_last_used d"
proof -
  from assms(2) obtain b rest where r: "idle_entries es = b # rest" "k = fst (min_by_last_used b rest)"
    by (auto simp: oldest_idle_def split: list.splits)
  let ?m = "min_by_last_used b rest"
  have "?m \<in> set (idle_entries es)" using min_by_last_used_in [of b rest] r by simp
  then have m: "?m \<in> set es" "\<not> en_busy (snd ?m)" by (auto simp: idle_entries_def)
  then have "map_of es k = Some (snd ?m)"
    using assms(1) r(2) by (metis map_of_is_SomeI prod.collapse)
  moreover have "en_last_used (snd ?m) \<le> en_last_used d" if "map_of es j = Some d" "\<not> en_busy d" for j d
  proof -
    from that have "(j, d) \<in> set (idle_entries es)" by (auto simp: idle_entries_def dest: map_of_SomeD)
    with r min_by_last_used_least [of "(j, d)" b rest] show ?thesis by simp
  qed
  ultimately show thesis using that m(2) by blast
qed

lemma map_le_Some: "m \<subseteq>\<^sub>m n \<Longrightarrow> m k = Some v \<Longrightarrow> n k = Some v"
  by (metis domI map_le_def)

lemma oldest_idle_None: "oldest_idle es = None \<longleftrightarrow> idle_entries es = []"
  by (auto simp: oldest_idle_def split: list.splits)

lemma evict_props:
  assumes "keys_distinct es"
  shows "keys_distinct (evict es) \<and> map_of (evict es) \<subseteq>\<^sub>m map_of es \<and>
    (within_budget (evict es) \<or> idle_entries (evict es) = []) \<and>
    (\<forall>k e. map_of es k = Some e \<and> map_of (evict es) k = None \<longrightarrow> \<not> en_busy e \<and>
       (\<forall>j d. map_of (evict es) j = Some d \<and> \<not> en_busy d \<longrightarrow> en_last_used e \<le> en_last_used d))"
  using assms
proof (induction es rule: evict.induct)
  case (1 es)
  show ?case
  proof (cases "within_budget es \<or> oldest_idle es = None")
    case True
    then have "evict es = es" by (auto simp: evict.simps [of es])
    with True 1 show ?thesis by (auto simp: oldest_idle_None)
  next
    case False
    then obtain k where k: "\<not> within_budget es" "oldest_idle es = Some k" by blast
    let ?r = "AList.delete k es"
    have ev: "evict es = evict ?r" using k by (simp add: evict.simps [of es])
    from k "1.prems" obtain e where e: "map_of es k = Some e" "\<not> en_busy e"
      "\<And>j d. map_of es j = Some d \<Longrightarrow> \<not> en_busy d \<Longrightarrow> en_last_used e \<le> en_last_used d"
      using oldest_idle_least by metis
    note IH = "1.IH" [OF k distinct_delete [OF "1.prems"]]
    have sub: "map_of (evict es) \<subseteq>\<^sub>m map_of ?r" using IH ev by simp
    have "map_of ?r \<subseteq>\<^sub>m map_of es" by (auto simp: map_le_def hm.get_del split: if_splits)
    with sub have "map_of (evict es) \<subseteq>\<^sub>m map_of es" by (rule map_le_trans)
    moreover have "\<not> en_busy d \<and> (\<forall>j x. map_of (evict es) j = Some x \<and> \<not> en_busy x \<longrightarrow>
        en_last_used d \<le> en_last_used x)"
      if "map_of es i = Some d" "map_of (evict es) i = None" for i d
    proof (cases "i = k")
      case True
      with that e calculation show ?thesis by (auto simp: map_le_def dom_def)
    next
      case False
      with that have "map_of ?r i = Some d" "map_of (evict ?r) i = None"
        by (simp_all add: hm.get_del_other ev)
      with IH show ?thesis unfolding ev by blast
    qed
    ultimately show ?thesis using IH ev by auto
  qed
qed

lemma evict_sub: "keys_distinct es \<Longrightarrow> map_of (evict es) k = Some e \<Longrightarrow> map_of es k = Some e"
  using evict_props map_le_Some by metis

lemma evict_busy:
  assumes "keys_distinct es" "map_of es k = Some e" "en_busy e"
  shows "map_of (evict es) k = Some e"
proof (cases "map_of (evict es) k")
  case None
  with evict_props [OF assms(1)] assms(2,3) show ?thesis by blast
next
  case (Some d)
  with evict_sub [OF assms(1) Some] assms(2) show ?thesis by simp
qed

text \<open>The entries after the turn's own entry is released, before the eviction.\<close>

definition released :: "session_key \<Rightarrow> u64 \<Rightarrow> nat \<Rightarrow> nat \<Rightarrow> session_entries \<Rightarrow> session_entries" where
  "released key i bytes now es =
     (case map_of es key of
        Some e \<Rightarrow>
          if en_id e = i
          then AList.update key (e\<lparr>en_busy := False, en_last_used := now, en_bytes := bytes\<rparr>) es
          else es
      | None \<Rightarrow> es)"

lemma released_other: "j \<noteq> k \<Longrightarrow> map_of (released k i bytes now es) j = map_of es j"
  by (auto simp: released_def hm.get_ins_other split: option.split)

lemma released_stale: "map_of es k = Some e \<Longrightarrow> en_id e \<noteq> i \<Longrightarrow> released k i bytes now es = es"
  by (simp add: released_def)

lemma released_distinct: "keys_distinct es \<Longrightarrow> keys_distinct (released k i bytes now es)"
  by (auto simp: released_def distinct_update split: option.split)

lemma ready_cases:
  obtains (oversized) e where "map_of (entries c) key = Some e" "en_id e = i" "MAX_CONTEXT_BYTES < bytes"
      "ready key i bytes now c = c\<lparr>entries := AList.delete key (entries c)\<rparr>"
  | (kept) "ready key i bytes now c = c\<lparr>entries := evict (released key i bytes now (entries c))\<rparr>"
proof (cases "map_of (entries c) key")
  case None
  show thesis by (rule kept) (simp add: ready_def released_def None)
next
  case (Some e)
  show thesis
  proof (cases "en_id e = i \<and> MAX_CONTEXT_BYTES < bytes")
    case True
    show thesis by (rule oversized [OF Some]) (use True Some in \<open>auto simp: ready_def\<close>)
  next
    case False
    with Some show thesis by (intro kept) (auto simp: ready_def released_def)
  qed
qed


definition demo_key :: "string \<Rightarrow> session_key" where
  "demo_key v = \<lparr>sk_client = ''alice'', sk_header = ''thread_id'', sk_value = v\<rparr>"

definition demo_cache :: cache where
  "demo_cache = \<lparr>entries = [
     (demo_key ''a'', \<lparr>en_id = 0, en_sender = 0, en_busy = True, en_last_used = 1, en_bytes = 0\<rparr>),
     (demo_key ''b'', \<lparr>en_id = 1, en_sender = 1, en_busy = False, en_last_used = 2,
        en_bytes = 64 * 1024 * 1024\<rparr>)], next_id = 2\<rparr>"


section \<open>Turns and actors\<close>

text \<open>
  The cache together with the turns that hold a session: admitted by \<open>stream\<close> and not yet ended. A
  turn ends when its actor calls \<open>ready\<close>, or when the actor stops with the turn still queued. An actor
  may time out or stop at any moment, also after its entry was evicted or replaced. The counter is
  assumed not to wrap, which needs 2 to the 64 sessions.
\<close>

record session_system =
  ss_cache :: cache
  ss_running :: "(session_key \<times> u64) list"

inductive session_step :: "session_system \<Rightarrow> session_system \<Rightarrow> bool" where
  reuse: "acquire (Some k) now c = (Inr (Existing a), c') \<Longrightarrow>
    session_step \<lparr>ss_cache = c, ss_running = R\<rparr> \<lparr>ss_cache = c', ss_running = (k, a) # R\<rparr>"
| spawn: "acquire (Some k) now c = (Inr (Spawned a), c') \<Longrightarrow> next_id c \<noteq> - 1 \<Longrightarrow>
    session_step \<lparr>ss_cache = c, ss_running = R\<rparr> \<lparr>ss_cache = c', ss_running = (k, a) # R\<rparr>"
| anonymous: "acquire None now c = (r, c') \<Longrightarrow> next_id c \<noteq> - 1 \<Longrightarrow>
    session_step \<lparr>ss_cache = c, ss_running = R\<rparr> \<lparr>ss_cache = c', ss_running = R\<rparr>"
| refused: "acquire key now c = (Inl e, c') \<Longrightarrow>
    session_step \<lparr>ss_cache = c, ss_running = R\<rparr> \<lparr>ss_cache = c', ss_running = R\<rparr>"
| turn_end: "(k, a) \<in> set R \<Longrightarrow>
    session_step \<lparr>ss_cache = c, ss_running = R\<rparr>
      \<lparr>ss_cache = ready k a bytes now c, ss_running = removeAll (k, a) R\<rparr>"
| idle_timeout: "remove_idle k a c = (b, c') \<Longrightarrow>
    session_step \<lparr>ss_cache = c, ss_running = R\<rparr> \<lparr>ss_cache = c', ss_running = R\<rparr>"
| stopped: "session_step \<lparr>ss_cache = c, ss_running = R\<rparr>
      \<lparr>ss_cache = actor_exit k a c, ss_running = removeAll (k, a) R\<rparr>"

definition entry_ok :: "u64 \<Rightarrow> entry \<Rightarrow> bool" where
  "entry_ok n e \<longleftrightarrow> en_sender e = en_id e \<and> en_id e < n"

definition system_ok :: "session_system \<Rightarrow> bool" where
  "system_ok s \<longleftrightarrow>
     keys_distinct (entries (ss_cache s)) \<and>
     (\<forall>k e. map_of (entries (ss_cache s)) k = Some e \<longrightarrow> entry_ok (next_id (ss_cache s)) e) \<and>
     (\<forall>k a. (k, a) \<in> set (ss_running s) \<longleftrightarrow>
        (\<exists>e. map_of (entries (ss_cache s)) k = Some e \<and> en_id e = a \<and> en_busy e)) \<and>
     distinct (map fst (ss_running s))"

lemma system_okI:
  assumes "keys_distinct (entries c)"
    "\<And>k e. map_of (entries c) k = Some e \<Longrightarrow> entry_ok (next_id c) e"
    "\<And>k a. (k, a) \<in> set R \<longleftrightarrow> (\<exists>e. map_of (entries c) k = Some e \<and> en_id e = a \<and> en_busy e)"
    "distinct (map fst R)"
  shows "system_ok \<lparr>ss_cache = c, ss_running = R\<rparr>"
  using assms unfolding system_ok_def by simp

lemma system_okD:
  assumes "system_ok \<lparr>ss_cache = c, ss_running = R\<rparr>"
  shows "keys_distinct (entries c)"
    "\<And>k e. map_of (entries c) k = Some e \<Longrightarrow> entry_ok (next_id c) e"
    "\<And>k a. (k, a) \<in> set R \<longleftrightarrow> (\<exists>e. map_of (entries c) k = Some e \<and> en_id e = a \<and> en_busy e)"
    "distinct (map fst R)"
  using assms unfolding system_ok_def by auto

text \<open>An operation that frees the entry of a running turn, or only loses idle entries.\<close>

lemma system_ok_end:
  assumes ok: "system_ok \<lparr>ss_cache = c, ss_running = R\<rparr>"
    and "keys_distinct (entries c')" "next_id c' = next_id c"
    and other: "\<And>j e. map_of (entries c') j = Some e \<Longrightarrow> j \<noteq> k \<Longrightarrow> map_of (entries c) j = Some e"
    and busy: "\<And>j e. map_of (entries c) j = Some e \<Longrightarrow> en_busy e \<Longrightarrow> (j, en_id e) \<noteq> (k, a) \<Longrightarrow>
      map_of (entries c') j = Some e"
    and own: "\<And>e. map_of (entries c') k = Some e \<Longrightarrow>
      map_of (entries c) k = Some e \<and> en_id e \<noteq> a \<or>
      entry_ok (next_id c) e \<and> \<not> en_busy e"
  shows "system_ok \<lparr>ss_cache = c', ss_running = removeAll (k, a) R\<rparr>"
proof (rule system_okI)
  note D = system_okD [OF ok]
  show "entry_ok (next_id c') e" if "map_of (entries c') j = Some e" for j e
    using that other [OF that] own D(2) assms(3) by (cases "j = k") auto
  show "(j, i) \<in> set (removeAll (k, a) R) \<longleftrightarrow>
      (\<exists>e. map_of (entries c') j = Some e \<and> en_id e = i \<and> en_busy e)" for j i
  proof
    assume "(j, i) \<in> set (removeAll (k, a) R)"
    then show "\<exists>e. map_of (entries c') j = Some e \<and> en_id e = i \<and> en_busy e"
      using D(3) [of j i] busy by auto
  next
    assume "\<exists>e. map_of (entries c') j = Some e \<and> en_id e = i \<and> en_busy e"
    then obtain e where e: "map_of (entries c') j = Some e" "en_id e = i" "en_busy e" by blast
    then have "map_of (entries c) j = Some e \<and> (j, i) \<noteq> (k, a)"
      using other [OF e(1)] own by (cases "j = k") auto
    with e D(3) [of j i] show "(j, i) \<in> set (removeAll (k, a) R)" by auto
  qed
  show "distinct (map fst (removeAll (k, a) R))"
    using D(4) by (metis distinct_map_filter removeAll_filter_not_eq)
qed (fact assms(2))

lemma system_ok_take:
  assumes ok: "system_ok \<lparr>ss_cache = c, ss_running = R\<rparr>"
    and n: "next_id c \<le> n" and e: "entry_ok n e" "en_busy e"
    and free: "\<And>d. map_of (entries c) k = Some d \<Longrightarrow> \<not> en_busy d"
  shows "system_ok \<lparr>ss_cache = c\<lparr>next_id := n, entries := AList.update k e (entries c)\<rparr>,
    ss_running = (k, en_id e) # R\<rparr>"
proof (rule system_okI, goal_cases)
  note D = system_okD [OF ok]
  case 1
  show ?case using D(1) by (simp add: distinct_update)
next
  case (2 j d)
  then show ?case
    using system_okD(2) [OF ok, of j d] e(1) n
    by (cases "j = k") (auto simp: hm.get_ins entry_ok_def)
next
  case (3 j a)
  have "(k, b) \<notin> set R" for b using system_okD(3) [OF ok, of k b] free by auto
  with system_okD(3) [OF ok, of j a] e(2) show ?case by (cases "j = k") (auto simp: hm.get_ins)
next
  case 4
  have "k \<notin> fst ` set R" using system_okD(3) [OF ok, of k] free by force
  with system_okD(4) [OF ok] show ?case by simp
qed

lemma acquire_cases:
  assumes "acquire key now c = (r, c')"
  obtains (busy) k e where "key = Some k" "map_of (entries c) k = Some e" "en_busy e"
      "r = Inl session_busy" "c' = c"
  | (reused) k e where "key = Some k" "map_of (entries c) k = Some e" "\<not> en_busy e"
      "r = Inr (Existing (en_sender e))"
      "c' = c\<lparr>entries := AList.update k (e\<lparr>en_busy := True\<rparr>) (entries c)\<rparr>"
  | (fresh) k where "key = Some k" "map_of (entries c) k = None" "r = Inr (Spawned (next_id c))"
      "c' = c\<lparr>next_id := next_id c + 1, entries := AList.update k
        \<lparr>en_id = next_id c, en_sender = next_id c, en_busy = True, en_last_used = now, en_bytes = 0\<rparr>
        (entries c)\<rparr>"
  | (unkeyed) "key = None" "r = Inr (Spawned (next_id c))" "c' = c\<lparr>next_id := next_id c + 1\<rparr>"
proof (cases key)
  case None
  with assms show thesis by (intro unkeyed) (auto simp: acquire_def spawn_session_def Let_def)
next
  case (Some k)
  show thesis
  proof (cases "map_of (entries c) k")
    case None
    with assms \<open>key = Some k\<close> show thesis by (intro fresh) (auto simp: acquire_def spawn_session_def Let_def)
  next
    case (Some e)
    show thesis
    proof (cases "en_busy e")
      case True
      with assms Some \<open>key = Some k\<close> show thesis by (intro busy) (auto simp: acquire_def)
    next
      case False
      with assms Some \<open>key = Some k\<close> show thesis by (intro reused) (auto simp: acquire_def)
    qed
  qed
qed

lemma next_id_grows: "n \<noteq> - 1 \<Longrightarrow> n < n + (1 :: u64)"
  by (metis inc_less_eq_self_iff_eq not_le)

lemma system_ok_ready:
  assumes ok: "system_ok \<lparr>ss_cache = c, ss_running = R\<rparr>"
  shows "system_ok \<lparr>ss_cache = ready k a bytes now c, ss_running = removeAll (k, a) R\<rparr>"
proof (cases rule: ready_cases [of c k a bytes now])
  case (oversized e)
  note D = system_okD [OF ok]
  show ?thesis unfolding oversized
    by (rule system_ok_end [OF ok]) (use D(1) oversized(1,2) in \<open>auto simp: hm.get_del distinct_delete
        simp del: map_of_eq_Some_iff split: if_splits\<close>)
next
  case kept
  let ?r = "released k a bytes now (entries c)"
  have d: "keys_distinct ?r" using system_okD(1) [OF ok] by (rule released_distinct)
  have es: "entries (ready k a bytes now c) = evict ?r" by (simp add: kept)
  show ?thesis
  proof (rule system_ok_end [OF ok], unfold es, goal_cases)
    case 1
    show ?case using evict_props [OF d] by simp
  next
    case 2
    show ?case by (simp add: kept)
  next
    case (3 j e)
    then have "map_of ?r j = Some e" using evict_sub [OF d] by simp
    with 3 released_other show ?case by metis
  next
    case (4 j e)
    then have "map_of ?r j = Some e"
      by (cases "j = k") (auto simp: released_other released_stale)
    with 4 evict_busy [OF d] show ?case by simp
  next
    case (5 e)
    then have e: "map_of ?r k = Some e" using evict_sub [OF d] by simp
    then show ?case
    proof (cases "map_of (entries c) k")
      case None
      with e show ?thesis by (simp add: released_def)
    next
      case (Some x)
      with e system_okD(2) [OF ok Some] show ?thesis
        by (auto simp: released_def hm.get_ins entry_ok_def split: if_splits)
    qed
  qed
qed

lemma system_ok_delete:
  assumes ok: "system_ok \<lparr>ss_cache = c, ss_running = R\<rparr>"
    and e: "map_of (entries c) k = Some e" "en_id e = a"
  shows "system_ok \<lparr>ss_cache = c\<lparr>entries := AList.delete k (entries c)\<rparr>, ss_running = removeAll (k, a) R\<rparr>"
  by (rule system_ok_end [OF ok])
    (use system_okD(1) [OF ok] e in \<open>auto simp: hm.get_del distinct_delete
      simp del: map_of_eq_Some_iff split: if_splits\<close>)

lemma not_running: "system_ok \<lparr>ss_cache = c, ss_running = R\<rparr> \<Longrightarrow> \<not> (\<exists>e. map_of (entries c) k = Some e \<and>
    en_id e = a \<and> en_busy e) \<Longrightarrow> removeAll (k, a) R = R"
  using system_okD(3) by (metis removeAll_id)

lemma system_ok_reuse:
  assumes "system_ok \<lparr>ss_cache = c, ss_running = R\<rparr>" and "acquire (Some k) now c = (Inr (Existing a), c')"
  shows "system_ok \<lparr>ss_cache = c', ss_running = (k, a) # R\<rparr>"
  using assms(2)
proof (cases rule: acquire_cases)
  case (reused k' e)
  note ok = assms(1)
  from reused have "k' = k" "a = en_id e" using system_okD(2) [OF ok, of k e] by (auto simp: entry_ok_def)
  moreover have "c\<lparr>next_id := next_id c, entries := es\<rparr> = c\<lparr>entries := es\<rparr>" for es by simp
  ultimately show ?thesis
    using system_ok_take [OF ok, of "next_id c" "e\<lparr>en_busy := True\<rparr>" k] reused
      system_okD(2) [OF ok, of k e] by (auto simp: entry_ok_def)
qed simp_all

lemma system_ok_spawn:
  assumes "system_ok \<lparr>ss_cache = c, ss_running = R\<rparr>" and "acquire (Some k) now c = (Inr (Spawned a), c')" and "next_id c \<noteq> - 1"
  shows "system_ok \<lparr>ss_cache = c', ss_running = (k, a) # R\<rparr>"
  using assms(2)
proof (cases rule: acquire_cases)
  case (fresh k')
  then have "k' = k" "a = next_id c" by auto
  with system_ok_take [OF assms(1), of "next_id c + 1" "\<lparr>en_id = next_id c, en_sender = next_id c,
      en_busy = True, en_last_used = now, en_bytes = 0\<rparr>" k] fresh next_id_grows [OF assms(3)]
  show ?thesis by (auto simp: entry_ok_def)
qed simp_all

lemma system_ok_anonymous:
  assumes ok: "system_ok \<lparr>ss_cache = c, ss_running = R\<rparr>" and "acquire None now c = (r, c')" and "next_id c \<noteq> - 1"
  shows "system_ok \<lparr>ss_cache = c', ss_running = R\<rparr>"
  using assms(2)
proof (cases rule: acquire_cases)
  case unkeyed
  have "entry_ok (next_id c + 1) e" if "entry_ok (next_id c) e" for e
    using that next_id_grows [OF assms(3)] by (auto simp: entry_ok_def intro: order.strict_trans)
  with system_okD [OF ok] show ?thesis
    unfolding unkeyed(3) by (intro system_okI) (simp_all del: map_of_eq_Some_iff)
qed simp_all

lemma system_ok_timeout:
  assumes ok: "system_ok \<lparr>ss_cache = c, ss_running = R\<rparr>" and "remove_idle k a c = (b, c')"
  shows "system_ok \<lparr>ss_cache = c', ss_running = R\<rparr>"
proof (cases "c' = c")
  case False
  with assms(2) obtain e where e: "map_of (entries c) k = Some e" "en_id e = a" "\<not> en_busy e"
    "c' = c\<lparr>entries := AList.delete k (entries c)\<rparr>"
    by (auto simp: remove_idle_def split: option.splits if_splits)
  with system_ok_delete [OF ok e(1,2)] not_running [OF ok, of k a] show ?thesis by simp
qed (use ok in simp)

lemma system_ok_stopped:
  assumes ok: "system_ok \<lparr>ss_cache = c, ss_running = R\<rparr>"
  shows "system_ok \<lparr>ss_cache = actor_exit k a c, ss_running = removeAll (k, a) R\<rparr>"
proof (cases "\<exists>e. map_of (entries c) k = Some e \<and> en_id e = a")
  case True
  with system_ok_delete [OF ok] show ?thesis by (auto simp: actor_exit_def)
next
  case False
  then have "actor_exit k a c = c" by (auto simp: actor_exit_def split: option.split)
  moreover have "removeAll (k, a) R = R" using not_running [OF ok, of k a] False by blast
  ultimately show ?thesis using ok by simp
qed

lemma system_ok_refused:
  assumes "system_ok \<lparr>ss_cache = c, ss_running = R\<rparr>" and "acquire key now c = (Inl e, c')"
  shows "system_ok \<lparr>ss_cache = c', ss_running = R\<rparr>"
  using assms(2,1) by (cases rule: acquire_cases) simp_all

lemma system_ok_step:
  assumes "session_step s s'" and "system_ok s"
  shows "system_ok s'"
  using assms
  by cases (auto intro: system_ok_reuse system_ok_spawn system_ok_anonymous system_ok_refused system_ok_ready
      system_ok_timeout system_ok_stopped)

text \<open>
  C8. At most one turn at a time holds a session: in every state the cache reaches, with actors timing
  out, stopping, being evicted or replaced at any moment, the running turns have distinct session keys,
  and a session is marked busy exactly while a turn of its own actor runs.
\<close>

theorem one_turn_per_session:
  assumes "session_step\<^sup>*\<^sup>* \<lparr>ss_cache = empty_cache, ss_running = []\<rparr> s"
  shows "distinct (map fst (ss_running s)) \<and>
    (\<forall>k a. (k, a) \<in> set (ss_running s) \<longleftrightarrow>
       (\<exists>e. map_of (entries (ss_cache s)) k = Some e \<and> en_id e = a \<and> en_busy e))"
proof -
  have "system_ok s"
    using assms
  proof (induction rule: rtranclp_induct)
    case base
    show ?case by (simp add: system_ok_def empty_cache_def)
  next
    case (step s s')
    then show ?case by (blast intro: system_ok_step)
  qed
  then show ?thesis by (simp add: system_ok_def)
qed

theorem one_turn_per_session_witness:
  "\<exists>s. session_step\<^sup>*\<^sup>* \<lparr>ss_cache = empty_cache, ss_running = []\<rparr> s \<and>
     ss_running s = [(demo_key ''a'', 0)] \<and> distinct (map fst (ss_running s)) \<and>
     fst (acquire (Some (demo_key ''a'')) 9 (ss_cache s)) = Inl session_busy"
proof -
  let ?k = "demo_key ''a''"
  let ?c = "snd (acquire (Some ?k) 5 empty_cache)"
  have a: "acquire (Some ?k) 5 empty_cache = (Inr (Spawned 0), ?c)"
    by (simp add: acquire_def spawn_session_def empty_cache_def)
  have "session_step \<lparr>ss_cache = empty_cache, ss_running = []\<rparr> \<lparr>ss_cache = ?c, ss_running = [(?k, 0)]\<rparr>"
    by (rule session_step.spawn [OF a]) (simp add: empty_cache_def)
  then have r: "session_step\<^sup>*\<^sup>* \<lparr>ss_cache = empty_cache, ss_running = []\<rparr>
      \<lparr>ss_cache = ?c, ss_running = [(?k, 0)]\<rparr>" by blast
  from one_turn_per_session [OF this] r show ?thesis
    by (intro exI [of _ "\<lparr>ss_cache = ?c, ss_running = [(?k, 0)]\<rparr>"])
      (simp add: acquire_def spawn_session_def empty_cache_def)
qed

end
