(* ===== verification/Store_Props.thy ===== *)
theory Store_Props
  imports Store
begin

text \<open>
  The properties of the store: admission implements the quota rule and agrees with what the models
  endpoint shows, a request is finalised once, the ledger keeps its invariant, spend moves by the
  recorded cost and by nothing else, costs are exact, and credentials only move forward in time.
\<close>

section \<open>Quota\<close>

lemma limits_exactD:
  assumes "decimal_lib D" "limits_exact quota"
  shows "spend_meets_limit D spent (weekly_limit_usd quota) =
      Inr (limit_reached spent (weekly_limit_usd quota))"
    and "spend_meets_limit D spent (hard_limit_usd quota) =
      Inr (limit_reached spent (hard_limit_usd quota))"
  using assms(2) decimal_lib.mul_exact [OF assms(1)]
  by (auto simp: limits_exact_def spend_meets_limit_def limit_reached_def split: option.split)

lemma admission_decision_spec:
  assumes "decimal_lib D" "limits_exact quota"
  shows "admission_decision D spent quota fb =
    (case access_spec spent quota fb of
       Blocked \<Rightarrow> Inr (True, False) | FallbackOnly \<Rightarrow> Inr (False, True) | All \<Rightarrow> Inr (False, False))"
  by (simp add: admission_decision_def limits_exactD [OF assms] access_spec_def Let_def)

lemma begin_request_admits_candidate:
  assumes "begin_request D env now ctx quota cands st = (Inr (Admitted rid m), st')"
  shows "m = primary cands \<or> fallback cands = Some m"
  using assms
  by (auto simp: begin_request_def res_bind_Inr_iff result_simps split: sum.splits prod.splits if_splits)

text \<open>
  C1. Admission refines the quota rule: when the statements of the call succeed, \<open>begin_request\<close>
  appends exactly one row, under the next id, and its answer is the one \<open>access_spec\<close> gives for the
  committed spend: refused at the hard limit (or at the soft one without a fallback), the fallback
  model between the limits, the requested model below both.
\<close>

theorem begin_request_refines:
  assumes "decimal_lib D" and "limits_exact quota"
    and "timestamp_ms now = Inr t"
    and "current_week_spend_nano_usd env (ctx_api_key_id ctx) now st = Inr spent"
    and "\<not> env Sql_Insert" and "last_rowid st < i64_max"
  shows "begin_request D env now ctx quota cands st =
    (let access = access_spec spent quota (fallback cands \<noteq> None);
         m = (if access = FallbackOnly then the (fallback cands) else primary cands);
         rid = last_rowid st + 1
     in (Inr (if access = Blocked then WeeklyQuotaExceeded else Admitted (RequestId rid) m),
         st\<lparr>ledger := ledger st @ [(admission_row ctx t (access = Blocked) m)\<lparr>row_id := rid\<rparr>],
            last_rowid := rid\<rparr>))"
proof -
  have "access_spec spent quota (fallback cands \<noteq> None) = FallbackOnly \<Longrightarrow> fallback cands \<noteq> None"
    by (auto simp: access_spec_def split: if_splits)
  then show ?thesis
    using assms
    by (cases "access_spec spent quota (fallback cands \<noteq> None)")
      (auto simp: begin_request_def admission_decision_spec insert_row_def Let_def)
qed

definition demo_ctx :: request_context where
  "demo_ctx = \<lparr>ctx_api_key_id = ''client-a'', ctx_api_protocol = Responses, ctx_transport = HttpSse\<rparr>"

definition demo_rates :: model_rates where
  "demo_rates = \<lparr>input_usd_per_million = dec_of 100 2, cached_input_usd_per_million = dec_of 10 2,
     output_usd_per_million = dec_of 600 2\<rparr>"

definition demo_model :: effective_model where
  "demo_model = \<lparr>em_model = ''example-model'', em_reasoning_effort = None, em_rates = demo_rates\<rparr>"

definition demo_cands :: model_candidates where
  "demo_cands = \<lparr>primary = demo_model, fallback = None\<rparr>"

definition demo_quota :: quota_limits where
  "demo_quota = \<lparr>weekly_limit_usd = Some 10, hard_limit_usd = Some 600\<rparr>"

definition demo_now :: int where
  "demo_now = 1767225600 * 10 ^ 9"

lemma demo_limits_exact: "limits_exact demo_quota"
  using dec_representable_of_int [of 10000000000] dec_representable_of_int [of 600000000000]
  by (simp add: limits_exact_def demo_quota_def)

lemma demo_timestamp: "timestamp_ms demo_now = Inr 1767225600000"
  by (simp add: timestamp_ms_def demo_now_def i64_try_from_def i64_min_def i64_max_def)

lemma demo_monday: "monday_start demo_now = 1766966400 * 10 ^ 9"
  by (simp add: monday_start_def utc_day_def number_days_from_monday_def ns_per_day_def demo_now_def)

lemma demo_env [simp]: "\<not> no_faults step"
  by (simp add: no_faults_def)

lemma demo_store [simp]:
  "ledger empty_store = []" "last_rowid empty_store = 0" "credentials empty_store = None"
  by (simp_all add: empty_store_def)

lemma demo_spend_empty:
  "current_week_spend_nano_usd no_faults key demo_now empty_store = Inr 0"
  by (simp add: current_week_spend_nano_usd_def demo_monday timestamp_ms_def i64_try_from_def
      i64_min_def i64_max_def select_spend_def)

lemma demo_request [simp]:
  "ctx_api_key_id demo_ctx = ''client-a''" "primary demo_cands = demo_model"
  "fallback demo_cands = None" "weekly_limit_usd demo_quota = Some 10"
  "hard_limit_usd demo_quota = Some 600"
  by (simp_all add: demo_ctx_def demo_cands_def demo_quota_def)

definition demo_begun :: store where
  "demo_begun = empty_store\<lparr>
     ledger := [(admission_row demo_ctx 1767225600000 False demo_model)\<lparr>row_id := 1\<rparr>],
     last_rowid := 1\<rparr>"

lemma demo_begin:
  "begin_request exact_decimal no_faults demo_now demo_ctx demo_quota demo_cands empty_store =
     (Inr (Admitted (RequestId 1) demo_model), demo_begun)"
proof -
  have "admission_decision exact_decimal 0 demo_quota False = Inr (False, False)"
    using admission_decision_spec [OF exact.decimal_lib_axioms demo_limits_exact, of 0 False]
    by (simp add: access_spec_def limit_reached_def)
  then show ?thesis
    by (simp add: begin_request_def demo_timestamp demo_spend_empty insert_row_def i64_max_def
        demo_begun_def)
qed

theorem begin_request_refines_witness:
  "begin_request exact_decimal no_faults demo_now demo_ctx demo_quota demo_cands empty_store =
     (Inr (Admitted (RequestId 1) demo_model), demo_begun)"
  using begin_request_refines [OF exact.decimal_lib_axioms demo_limits_exact demo_timestamp
      demo_spend_empty, of demo_ctx demo_cands]
  by (simp add: i64_max_def access_spec_def limit_reached_def demo_begun_def)

text \<open>
  The models endpoint and admission agree, whatever the decimal library does: for limits of the
  configured shape, a key sees every model exactly when a request would be admitted as asked, only
  the fallback when it would be rewritten to it, and nothing when it would be refused.
\<close>

theorem model_access_agrees_with_admission:
  assumes "quota_shape quota"
    and "model_access D env now (ctx_api_key_id ctx) quota (fallback cands \<noteq> None) st = Inr a"
    and "begin_request D env now ctx quota cands st = (Inr adm, st')"
  shows "case a of
      Blocked \<Rightarrow> adm = WeeklyQuotaExceeded
    | FallbackOnly \<Rightarrow> (\<exists>rid m. fallback cands = Some m \<and> adm = Admitted rid m)
    | All \<Rightarrow> (\<exists>rid. adm = Admitted rid (primary cands))"
proof -
  obtain t spent rej fb m where b: "current_week_spend_nano_usd env (ctx_api_key_id ctx) now st = Inr spent"
      "admission_decision D spent quota (fallback cands \<noteq> None) = Inr (rej, fb)"
      "(if fb then ok_or Panicked (fallback cands) else Inr (primary cands)) = Inr m"
      "adm = WeeklyQuotaExceeded \<and> rej \<or> (\<exists>rid. adm = Admitted rid m) \<and> \<not> rej"
    using assms(3)
    by (auto simp: begin_request_def result_simps split: sum.splits prod.splits if_splits)
  show ?thesis
    using assms(1,2) b
    by (auto simp: quota_shape_def model_access_def admission_decision_def result_simps Let_def
        spend_meets_limit_def split: if_splits option.splits)
qed

text \<open>
  Spending more never widens what a key may use: the access the quota rule gives is antitone in
  the committed spend.
\<close>

theorem access_antitone:
  assumes "spent \<le> spent'"
  shows "access_spec spent' quota fb \<le> access_spec spent quota fb"
proof -
  have "limit_reached spent l \<Longrightarrow> limit_reached spent' l" for l
    using assms by (auto simp: limit_reached_def split: option.splits)
  then show ?thesis
    by (auto simp: access_spec_def less_eq_ModelAccess_def)
qed

section \<open>Cost\<close>

text \<open>The price the documentation gives, in nano-USD, before rounding.\<close>

definition exact_cost_nano_usd :: "billable_usage \<Rightarrow> rat" where
  "exact_cost_nano_usd u =
     (of_int (uint (bu_input_tokens u) - uint (bu_cached_input_tokens u))
        * input_usd_per_million (bu_rates u)
      + of_int (uint (bu_cached_input_tokens u)) * cached_input_usd_per_million (bu_rates u)
      + of_int (uint (bu_output_tokens u)) * output_usd_per_million (bu_rates u)) * 1000"

text \<open>Rates given with the same number of decimal places, whose exact total fits a \<open>Decimal\<close>.\<close>

definition scaled_rates :: "model_rates \<Rightarrow> int \<Rightarrow> int \<Rightarrow> int \<Rightarrow> nat \<Rightarrow> bool" where
  "scaled_rates r a b c s \<longleftrightarrow>
     input_usd_per_million r = dec_of a s \<and> cached_input_usd_per_million r = dec_of b s \<and>
     output_usd_per_million r = dec_of c s \<and> 0 \<le> a \<and> 0 \<le> b \<and> 0 \<le> c \<and> s \<le> 28"

definition scaled_total :: "billable_usage \<Rightarrow> int \<Rightarrow> int \<Rightarrow> int \<Rightarrow> int" where
  "scaled_total u a b c =
     ((uint (bu_input_tokens u) - uint (bu_cached_input_tokens u)) * a
      + uint (bu_cached_input_tokens u) * b + uint (bu_output_tokens u) * c) * 1000"

context decimal_lib
begin

lemma cost_scaled:
  assumes cached: "bu_cached_input_tokens u \<le> bu_input_tokens u"
    and rates: "scaled_rates (bu_rates u) a b c s"
    and total: "scaled_total u a b c < 2 ^ 96"
  shows "calculate_cost_nano_usd D u =
    ok_or CostOutOfRange (i64_try_from (round_half_away (exact_cost_nano_usd u)))"
    and "0 \<le> exact_cost_nano_usd u"
proof -
  define x y z where "x = uint (bu_input_tokens u) - uint (bu_cached_input_tokens u)"
    and "y = uint (bu_cached_input_tokens u)" and "z = uint (bu_output_tokens u)"
  have sub: "uint (bu_input_tokens u - bu_cached_input_tokens u) = x"
    using cached by (simp add: x_def uint_minus_simple_alt)
  have nn: "0 \<le> x" "0 \<le> y" "0 \<le> z"
    using cached by (simp_all add: x_def y_def z_def word_le_def)
  have r: "input_usd_per_million (bu_rates u) = dec_of a s"
    "cached_input_usd_per_million (bu_rates u) = dec_of b s"
    "output_usd_per_million (bu_rates u) = dec_of c s" "0 \<le> a" "0 \<le> b" "0 \<le> c" "s \<le> 28"
    using rates by (simp_all add: scaled_rates_def)
  have p: "0 \<le> x * a" "0 \<le> y * b" "0 \<le> z * c" using nn r by simp_all
  have t: "(x * a + y * b + z * c) * 1000 < 2 ^ 96"
    using total by (simp add: scaled_total_def x_def y_def z_def)
  have steps: "dec_checked_mul D (of_int x) (dec_of a s) = Some (dec_of (x * a) s)"
    "dec_checked_mul D (of_int y) (dec_of b s) = Some (dec_of (y * b) s)"
    "dec_checked_mul D (of_int z) (dec_of c s) = Some (dec_of (z * c) s)"
    "dec_checked_add D (dec_of (x * a) s) (dec_of (y * b) s) = Some (dec_of (x * a + y * b) s)"
    "dec_checked_add D (dec_of (x * a + y * b) s) (dec_of (z * c) s) =
       Some (dec_of (x * a + y * b + z * c) s)"
    using p t r(7) by (auto intro!: mul_scaled add_scaled)
  have thousand: "dec_checked_mul D (dec_of (x * a + y * b + z * c) s) 1000 =
      Some (dec_of ((x * a + y * b + z * c) * 1000) s)"
    using p t r(7) mul_scaled_right [of "x * a + y * b + z * c" 1000 s] by simp
  have exact: "exact_cost_nano_usd u = dec_of ((x * a + y * b + z * c) * 1000) s"
    by (simp add: exact_cost_nano_usd_def r x_def y_def z_def dec_of_def add_divide_distrib
        distrib_right)
  have "0 \<le> (x * a + y * b + z * c) * 1000" using p by simp
  then show "0 \<le> exact_cost_nano_usd u"
    unfolding exact dec_of_def by (intro divide_nonneg_nonneg) (simp_all only: of_int_0_le_iff, simp)
  have "calculate_cost_nano_usd D u = ok_or CostOutOfRange
      (dec_to_i64 D (dec_round_half_away D (dec_of ((x * a + y * b + z * c) * 1000) s)))"
    using cached [folded not_less] steps thousand
    by (simp add: calculate_cost_nano_usd_def sub r(1-3) Let_def flip: y_def z_def)
  then show "calculate_cost_nano_usd D u =
    ok_or CostOutOfRange (i64_try_from (round_half_away (exact_cost_nano_usd u)))"
    by (simp only: round_to_i64 exact)
qed

end

text \<open>
  C9. A request costs what the documentation says: for token counts with \<open>cached \<le> input\<close> and
  non-negative rates whose total stays inside the range of \<open>Decimal\<close> and \<open>i64\<close>, the recorded cost is
  the exact price in nano-USD, rounded half up once, with no rounding in between.
\<close>

theorem cost_is_exact_rounded_once:
  assumes "decimal_lib D" and cached: "bu_cached_input_tokens u \<le> bu_input_tokens u"
    and rates: "scaled_rates (bu_rates u) a b c s"
    and total: "scaled_total u a b c < 2 ^ 96"
    and range: "round_half_away (exact_cost_nano_usd u) \<le> i64_max"
  shows "calculate_cost_nano_usd D u = Inr (round_half_away (exact_cost_nano_usd u))"
proof -
  have "0 \<le> round_half_away (exact_cost_nano_usd u)"
    by (intro round_half_away_nonneg decimal_lib.cost_scaled(2) [OF assms(1-4)])
  then show ?thesis
    using decimal_lib.cost_scaled(1) [OF assms(1-4)] range
    by (simp add: i64_try_from_def i64_min_def)
qed

definition demo_usage :: billable_usage where
  "demo_usage = \<lparr>bu_input_tokens = 1000, bu_cached_input_tokens = 400, bu_output_tokens = 7,
     bu_rates = demo_rates\<rparr>"

theorem cost_is_exact_rounded_once_witness:
  "calculate_cost_nano_usd exact_decimal demo_usage = Inr 682000"
proof -
  have cost: "exact_cost_nano_usd demo_usage = 682000"
    by (simp add: exact_cost_nano_usd_def demo_usage_def demo_rates_def dec_of_def)
  have rates: "scaled_rates (bu_rates demo_usage) 100 10 600 2"
    by (simp add: scaled_rates_def demo_usage_def demo_rates_def)
  have total: "scaled_total demo_usage 100 10 600 < 2 ^ 96"
    by (simp add: scaled_total_def demo_usage_def)
  have "round_half_away (exact_cost_nano_usd demo_usage) = 682000"
    by (simp add: cost round_half_away_def floor_eq_iff)
  then show ?thesis
    using cost_is_exact_rounded_once [OF exact.decimal_lib_axioms _ rates total]
    by (simp add: i64_max_def demo_usage_def)
qed

section \<open>Finalisation\<close>

definition no_started :: "int \<Rightarrow> store \<Rightarrow> bool" where
  "no_started i st \<longleftrightarrow> i \<le> last_rowid st \<and> (\<forall>r \<in> set (ledger st). \<not> is_started i r)"

lemma select_started_None: "select_started i st = None \<longleftrightarrow> (\<forall>r \<in> set (ledger st). \<not> is_started i r)"
  by (auto simp: select_started_def find_None_iff)

lemma find_started_Some: "find P xs = Some r \<Longrightarrow> r \<in> set xs \<and> P r"
  by (auto simp: find_Some_iff)

lemma started_split:
  assumes "store_ok st" "r \<in> set (ledger st)" "is_started i r"
  obtains xs ys where "ledger st = xs @ r # ys"
    "\<And>q. q \<in> set xs \<Longrightarrow> \<not> is_started i q" "\<And>q. q \<in> set ys \<Longrightarrow> \<not> is_started i q"
proof -
  obtain xs ys where l: "ledger st = xs @ r # ys"
    using assms(2) by (meson split_list)
  with assms show ?thesis
    by (intro that [of xs ys]) (auto simp: store_ok_def is_started_def sorted_wrt_append)
qed

text \<open>What a successful call did: it updated the one started row, and nothing else.\<close>

lemma finalize_success:
  assumes ok: "store_ok st"
    and fin: "finalize_request D env now (RequestId i) status http usage st = (Inr (), st')"
  obtains xs r ys finished acc where
    "ledger st = xs @ r # ys" "is_started i r"
    "timestamp_ms now = Inr finished" "usage_columns D usage = Inr acc"
    "st' = st\<lparr>ledger := xs @ finalized_row finished
       (duration_between finished (row_requested_at_ms r)) status http acc r # ys\<rparr>"
    "\<And>q. q \<in> set xs \<union> set ys \<Longrightarrow> \<not> is_started i q"
proof -
  obtain t finished acc where sel: "select_started i st = Some t"
      and ts: "timestamp_ms now = Inr finished" and acc: "usage_columns D usage = Inr acc"
      and upd: "\<exists>n. update_started env i
        (finalized_row finished (duration_between finished t) status http acc) st = (Inr n, st')"
    using fin by (cases rule: finalize_request_cases) (auto split: sum.splits if_splits)
  from sel obtain r where r: "r \<in> set (ledger st)" "is_started i r" "t = row_requested_at_ms r"
    using find_started_Some [of "is_started i"] by (force simp: select_started_def)
  from started_split [OF ok r(1,2)] obtain xs ys where l: "ledger st = xs @ r # ys"
      "\<And>q. q \<in> set xs \<Longrightarrow> \<not> is_started i q" "\<And>q. q \<in> set ys \<Longrightarrow> \<not> is_started i q"
    by metis
  have "st' = st\<lparr>ledger := map (\<lambda>q. if is_started i q then finalized_row finished
      (duration_between finished t) status http acc q else q) (ledger st)\<rparr>"
    using upd by (auto simp: update_started_def split: if_splits)
  with l r have "st' = st\<lparr>ledger := xs @ finalized_row finished
      (duration_between finished (row_requested_at_ms r)) status http acc r # ys\<rparr>"
    by (simp cong: map_cong)
  with that [OF l(1) r(2) ts acc] l(2,3) show ?thesis by blast
qed

lemma no_started_step:
  assumes "no_started i st" "store_step D st st'"
  shows "no_started i st'"
  using assms(2)
proof (cases rule: store_step_ledger_cases)
  case same
  with assms(1) show ?thesis by (simp add: no_started_def)
next
  case (insert env row x)
  then show ?thesis
    using assms(1) by (cases rule: insert_row_cases [of env row st])
      (auto simp: no_started_def is_started_def)
next
  case (update env j f d s h acc x)
  then show ?thesis
    using assms(1) by (cases rule: update_started_cases [of env j "finalized_row f d s h acc" st])
      (auto simp: no_started_def)
qed

lemma no_started_steps: "store_steps D st st' \<Longrightarrow> no_started i st \<Longrightarrow> no_started i st'"
  by (induction rule: rtranclp_induct) (auto intro: no_started_step)

text \<open>
  C3. A request is finalised at most once: after a successful \<open>finalize_request\<close>, and whatever calls
  follow on the store, every later finalisation of the same request answers \<open>RequestNotStarted\<close> and
  changes nothing.
\<close>

theorem finalized_at_most_once:
  assumes "store_ok st"
    and "finalize_request D env now (RequestId i) status http usage st = (Inr (), st1)"
    and "store_steps D st1 st2" and "\<not> env2 Sql_Select"
  shows "finalize_request D env2 now2 (RequestId i) status2 http2 usage2 st2 =
    (Inl (RequestNotStarted (RequestId i)), st2)"
proof -
  from finalize_success [OF assms(1,2)] obtain xs r ys f acc where
    l: "ledger st = xs @ r # ys" "is_started i r" and
    st1: "st1 = st\<lparr>ledger := xs @ finalized_row f (duration_between f (row_requested_at_ms r))
      status http acc r # ys\<rparr>" and
    rest: "\<And>q. q \<in> set xs \<union> set ys \<Longrightarrow> \<not> is_started i q" by metis
  have "i \<le> last_rowid st" using assms(1) l by (auto simp: store_ok_def is_started_def)
  then have "no_started i st1" using rest by (auto simp: no_started_def st1)
  then have "no_started i st2" using no_started_steps assms(3) by blast
  then have "select_started i st2 = None" by (simp add: select_started_None no_started_def)
  then show ?thesis using assms(4) by (simp add: finalize_request_def)
qed

lemma demo_begun_ok: "store_ok demo_begun"
  using row_check_admission row_shape_admission
  by (simp add: store_ok_def demo_begun_def i64_max_def)

definition demo_finished :: store where
  "demo_finished = demo_begun\<lparr>ledger := map (finalized_row 1767225600000 0 Completed (Some 200)
     \<lparr>acc_input = None, acc_cached = None, acc_output = None, acc_cost = None\<rparr>) (ledger demo_begun)\<rparr>"

lemma demo_finalize:
  "finalize_request exact_decimal no_faults demo_now (RequestId 1) Completed (Some 200) None demo_begun =
     (Inr (), demo_finished)"
  by (simp add: finalize_request_def select_started_def demo_begun_def is_started_def
      admission_row_def demo_timestamp usage_columns_def update_started_def finalized_row_def
      duration_between_def row_check_def all_statuses_def demo_ctx_def demo_finished_def i64_max_def
      i64_min_def)

theorem finalized_at_most_once_witness:
  "finalize_request exact_decimal no_faults demo_now (RequestId 1) Canceled None None demo_finished =
     (Inl (RequestNotStarted (RequestId 1)), demo_finished)"
  using finalized_at_most_once [OF demo_begun_ok demo_finalize rtranclp.rtrancl_refl, of no_faults]
  by simp

text \<open>
  C15. Accounting moves spend by exactly the recorded cost: a successful finalisation adds the cost of
  the call to the spend of its own key in every window that contains the request, and leaves the
  spend of every other key and window as it was.
\<close>

theorem finalize_moves_spend_by_cost:
  assumes "store_ok st"
    and "finalize_request D env now (RequestId i) status http usage st = (Inr (), st')"
  shows "\<exists>r acc. r \<in> set (ledger st) \<and> is_started i r \<and> usage_columns D usage = Inr acc \<and>
    (\<forall>key lo hi. select_spend key lo hi (ledger st') = select_spend key lo hi (ledger st) +
       (if row_api_key_id r = key \<and> lo \<le> row_requested_at_ms r \<and> row_requested_at_ms r < hi
        then (case acc_cost acc of None \<Rightarrow> 0 | Some c \<Rightarrow> c) else 0))"
proof -
  from finalize_success [OF assms] obtain xs r ys f acc where
    l: "ledger st = xs @ r # ys" "is_started i r" and acc: "usage_columns D usage = Inr acc" and
    st': "st' = st\<lparr>ledger := xs @ finalized_row f (duration_between f (row_requested_at_ms r))
      status http acc r # ys\<rparr>" by metis
  have "row_cost_nano_usd r = None"
    using assms(1) l by (auto simp: store_ok_def row_shape_def is_started_def)
  then show ?thesis
    using l acc
    by (intro exI [of _ r] exI [of _ acc])
      (auto simp: st' select_spend_def row_in_window_def row_cost_def finalized_row_def
        split: option.splits)
qed

theorem finalize_moves_spend_by_cost_witness:
  "select_spend ''client-a'' 0 2000000000000 (ledger demo_finished) =
   select_spend ''client-a'' 0 2000000000000 (ledger demo_begun)"
  using finalize_moves_spend_by_cost [OF demo_begun_ok demo_finalize]
  by (auto simp: usage_columns_def)

text \<open>
  C12. The ledger invariant holds in every state the relay can reach from an empty database, whatever
  statements fail: the table's constraints, increasing ids below the sequence, no outcome on a
  started row, and an end time and duration on every other one.
\<close>

theorem reachable_store_ok:
  assumes "store_steps D empty_store st"
  shows "store_ok st"
  using store_ok_steps [OF assms] by (simp add: store_ok_def empty_store_def i64_max_def)

theorem reachable_store_ok_witness: "store_ok demo_finished"
proof (rule reachable_store_ok)
  have "store_step exact_decimal empty_store demo_begun"
    by (rule store_step.begin_step [OF demo_begin])
  moreover have "store_step exact_decimal demo_begun demo_finished"
    by (rule store_step.finalize_step [OF demo_finalize])
  ultimately show "store_steps exact_decimal empty_store demo_finished" by simp
qed

text \<open>
  The spend window is the current UTC week: \<open>monday_start\<close> is a midnight, on a Monday, not after
  the instant, and less than seven days before it.
\<close>

theorem monday_start_is_week_start:
  "monday_start now \<le> now \<and> now < monday_start now + 7 * ns_per_day \<and>
   monday_start now mod ns_per_day = 0 \<and> number_days_from_monday (monday_start now) = 0"
proof -
  define d where "d = now div ns_per_day"
  have pos: "0 < ns_per_day" by (simp add: ns_per_day_def)
  have "now = d * ns_per_day + now mod ns_per_day" by (simp add: d_def)
  moreover have "0 \<le> now mod ns_per_day" "now mod ns_per_day < ns_per_day"
    using pos by simp_all
  ultimately have day: "d * ns_per_day \<le> now" "now < (d + 1) * ns_per_day"
    unfolding distrib_right mult_1_left by linarith+
  have ms: "monday_start now = (d - (d + 3) mod 7) * ns_per_day"
    by (simp add: monday_start_def utc_day_def number_days_from_monday_def d_def)
  have "d - (d + 3) mod 7 \<le> d" "d + 1 \<le> d - (d + 3) mod 7 + 7" by presburger+
  then have "(d - (d + 3) mod 7) * ns_per_day \<le> d * ns_per_day"
    "(d + 1) * ns_per_day \<le> (d - (d + 3) mod 7 + 7) * ns_per_day"
    using pos by (simp_all only: mult_right_mono less_imp_le)
  then have "monday_start now \<le> now" "now < monday_start now + 7 * ns_per_day"
    unfolding ms using day distrib_right [of "d - (d + 3) mod 7" 7 ns_per_day] by linarith+
  moreover have "monday_start now mod ns_per_day = 0" by (simp add: ms)
  moreover have "number_days_from_monday (monday_start now) = (d - (d + 3) mod 7 + 3) mod 7"
    using pos by (simp add: ms utc_day_def number_days_from_monday_def)
  moreover have "(d - (d + 3) mod 7 + 3) mod 7 = 0" by presburger
  ultimately show ?thesis by simp
qed

section \<open>Credentials\<close>

lemma i64_ns_in_range:
  "timestamp_ns t = Inr n \<Longrightarrow> n = t \<and> offset_from_ns n = Inr t"
  by (auto simp: timestamp_ns_def offset_from_ns_def i64_min_def i64_max_def result_simps)

lemma optional_ns_in_range:
  "optional_timestamp_ns t = Inr n \<Longrightarrow> res_opt offset_from_ns n = Inr t"
  by (auto simp: optional_timestamp_ns_def result_simps dest: i64_ns_in_range)

text \<open>A credential written to its row is read back as it was: every \<open>i64\<close> of nanoseconds is an
  instant the clock type covers.\<close>

lemma credential_row_roundtrip: "bind_credential c = Inr r \<Longrightarrow> credential_from_row r = Inr c"
  by (auto simp: bind_credential_def credential_from_row_def result_simps
      dest!: i64_ns_in_range optional_ns_in_range)

text \<open>
  C40. Saved credentials survive a restart: after \<open>save_credentials\<close> succeeds, loading with a seed
  that is not newer returns the saved credential, with its expiry and refresh times, and writes
  nothing.
\<close>

theorem saved_credentials_survive_restart:
  assumes "save_credentials env c st = (Inr (), st')"
    and "last_refresh seed \<le> last_refresh c"
  shows "load_or_import_credentials no_faults seed st' = (Inr c, st')"
proof -
  from assms(1) obtain r where r: "bind_credential c = Inr r" "credentials st' = Some r"
    by (auto simp: save_credentials_def commit_credentials_def update_credentials_def result_simps
        split: if_splits option.splits sum.splits)
  have "credential_from_row r = Inr c" by (rule credential_row_roundtrip [OF r(1)])
  then show ?thesis
    using assms(2) r(2)
    by (simp add: load_or_import_credentials_def commit_credentials_def no_faults_def)
qed

definition demo_credential :: credential where
  "demo_credential = \<lparr>account_id = ''acct'', access_token = ''at'', refresh_token = ''rt'',
     access_expires_at = Some 5000000000, last_refresh = 1000000000\<rparr>"

definition demo_seeded :: store where
  "demo_seeded = empty_store\<lparr>credentials := Some \<lparr>cr_account_id = ''acct'', cr_access_token = ''at'',
     cr_refresh_token = ''rt'', cr_access_expires_at_ns = Some 5000000000,
     cr_last_refresh_ns = 1000000000\<rparr>\<rparr>"

lemma demo_save: "save_credentials no_faults demo_credential demo_seeded = (Inr (), demo_seeded)"
  by (simp add: save_credentials_def commit_credentials_def update_credentials_def
      bind_credential_def optional_timestamp_ns_def timestamp_ns_def demo_credential_def
      demo_seeded_def i64_try_from_def i64_min_def i64_max_def)

theorem saved_credentials_survive_restart_witness:
  "load_or_import_credentials no_faults demo_credential demo_seeded = (Inr demo_credential, demo_seeded)"
  using saved_credentials_survive_restart [OF demo_save, of demo_credential] by simp

text \<open>
  Loading keeps the newest credential: afterwards the database holds a row that reads back as
  the returned credential; it is the seed when there was no row or the seed is strictly newer, and
  the row found otherwise, so the stored refresh time never decreases.
\<close>

theorem import_keeps_newest:
  assumes "load_or_import_credentials env seed st = (Inr c, st')"
  shows "\<exists>row'. credentials st' = Some row' \<and> credential_from_row row' = Inr c \<and>
    (case credentials st of
       None \<Rightarrow> c = seed
     | Some row \<Rightarrow>
         (if cr_last_refresh_ns row < last_refresh seed then c = seed else row' = row) \<and>
         cr_last_refresh_ns row \<le> cr_last_refresh_ns row')"
proof -
  have stamp: "last_refresh x = cr_last_refresh_ns r" if "credential_from_row r = Inr x" for r x
    using that by (auto simp: credential_from_row_def offset_from_ns_def result_simps split: if_splits)
  have fresh: "credential_from_row r = Inr x" if "insert_credentials env x = Inr r \<or>
      update_credentials env x = Inr r" for r x
    using that credential_row_roundtrip
    by (auto simp: insert_credentials_def update_credentials_def result_simps split: if_splits)
  show ?thesis
  proof (cases "credentials st")
    case None
    with assms fresh show ?thesis
      by (auto simp: load_or_import_credentials_def commit_credentials_def result_simps
          split: if_splits sum.splits)
  next
    case (Some row)
    with assms obtain current where cur: "credential_from_row row = Inr current"
      by (auto simp: load_or_import_credentials_def commit_credentials_def result_simps
          split: if_splits sum.splits)
    show ?thesis
    proof (cases "last_refresh current < last_refresh seed")
      case True
      with assms Some cur obtain r where r: "update_credentials env seed = Inr r" "c = seed"
          "credentials st' = Some r"
        by (auto simp: load_or_import_credentials_def commit_credentials_def result_simps
            split: if_splits sum.splits)
      with fresh [of seed r] have "credential_from_row r = Inr seed" by blast
      with True Some r stamp [OF cur] stamp [OF this] show ?thesis by simp
    next
      case False
      with assms Some cur have "c = current" "credentials st' = Some row"
        by (auto simp: load_or_import_credentials_def commit_credentials_def
            split: if_splits sum.splits)
      with False Some cur stamp [OF cur] show ?thesis by simp
    qed
  qed
qed

end
