(* ===== verification/Pending.thy ===== *)
theory Pending
  imports Store_Props Api_Error
begin

text \<open>
  The guard that closes a request's ledger row (\<open>src/http_api/request.rs\<close>). A \<open>PendingRequest\<close> is
  open from admission until its first \<open>finish\<close>, and dropping it while open records the drop status.
  The store it holds is the function \<open>fin\<close> its calls use; the locale \<open>finalizer\<close> states what it
  relies on from the store, and \<open>finalize_request\<close> is shown to provide it. Calling \<open>finish\<close> on a
  finalised request panics (\<open>None\<close>).
\<close>

section \<open>The guard\<close>

type_synonym 's finalizer =
  "request_id \<Rightarrow> FinalStatus \<Rightarrow> int option \<Rightarrow> billable_usage option \<Rightarrow> 's \<Rightarrow> (StoreError + unit) \<times> 's"

record open_request =
  open_request_id :: request_id
  open_drop_status :: FinalStatus
  open_drop_http_status :: "int option"

datatype pending_state = Open open_request | Finalized

definition pending_new :: "request_id \<Rightarrow> pending_state" where
  "pending_new rid = Open \<lparr>open_request_id = rid, open_drop_status = Canceled,
     open_drop_http_status = None\<rparr>"

fun take_open :: "pending_state \<Rightarrow> (open_request \<times> pending_state) option" where
  "take_open (Open r) = Some (r, Finalized)"
| "take_open Finalized = None"

fun response_started :: "int \<Rightarrow> pending_state \<Rightarrow> pending_state option" where
  "response_started status (Open r) = Some (Open (r\<lparr>open_drop_http_status := Some status\<rparr>))"
| "response_started status Finalized = None"

definition finish ::
  "'s finalizer \<Rightarrow> FinalStatus \<Rightarrow> int option \<Rightarrow> billable_usage option \<Rightarrow> pending_state \<Rightarrow> 's \<Rightarrow>
     ((api_error + unit) \<times> pending_state \<times> 's) option" where
  "finish fin status http usage p st =
     (case take_open p of
        None \<Rightarrow> None
      | Some (r, p') \<Rightarrow>
          (case fin (open_request_id r) status http usage st of
             (res, st') \<Rightarrow> Some (map_err (\<lambda>_. internal) res, p', st')))"

definition finish_terminal ::
  "'s finalizer \<Rightarrow> 's finalizer \<Rightarrow> FinalStatus \<Rightarrow> int \<Rightarrow> int \<Rightarrow> billable_usage option \<Rightarrow>
     pending_state \<Rightarrow> 's \<Rightarrow> ((unit + unit) \<times> pending_state \<times> 's) option" where
  "finish_terminal fin fin2 status http fallback_http usage p st =
     (case take_open p of
        None \<Rightarrow> None
      | Some (r, p') \<Rightarrow>
          (case fin (open_request_id r) status (Some http) usage st of
             (Inr _, st') \<Rightarrow> Some (Inr (), p', st')
           | (Inl _, st') \<Rightarrow>
               (case fin2 (open_request_id r) UpstreamError (Some fallback_http) None st' of
                  (_, st'') \<Rightarrow> Some (Inl (), p', st''))))"

fun pending_drop :: "'s finalizer \<Rightarrow> pending_state \<Rightarrow> 's \<Rightarrow> 's" where
  "pending_drop fin (Open r) st =
     snd (fin (open_request_id r) (open_drop_status r) (open_drop_http_status r) None st)"
| "pending_drop fin Finalized st = st"

text \<open>An open guard never panics, and finishing closes it.\<close>

lemma finish_open:
  obtains r st' where "finish fin status h u (Open q) st = Some (r, Finalized, st')"
  by (cases "fin (open_request_id q) status h u st") (simp add: finish_def)

lemma finish_terminal_open:
  obtains result st' where "finish_terminal fin fin2 status h h2 u (Open q) st = Some (result, Finalized, st')"
  by (cases "fin (open_request_id q) status (Some h) u st"; cases "fst (fin (open_request_id q) status (Some h) u st)";
      cases "fin2 (open_request_id q) UpstreamError (Some h2) None (snd (fin (open_request_id q) status (Some h) u st))")
    (auto simp: finish_terminal_def)

section \<open>A life of a guard\<close>

text \<open>
  What the handlers do with one guard: some calls, then the drop every owned value ends with. Call
  \<open>k\<close> uses the store as it answers at that time, \<open>fins (2 * k)\<close> and \<open>fins (2 * k + 1)\<close>. A panic in a
  call unwinds, which drops the guard.
\<close>

datatype pending_op =
    Response_Started int
  | Finish FinalStatus "int option"
  | Finish_Terminal FinalStatus int int "billable_usage option"

fun pending_call :: "'s finalizer \<Rightarrow> 's finalizer \<Rightarrow> pending_op \<Rightarrow> pending_state \<Rightarrow> 's \<Rightarrow>
    (pending_state \<times> 's) option" where
  "pending_call f g (Response_Started s) p st = map_option (\<lambda>p'. (p', st)) (response_started s p)"
| "pending_call f g (Finish s h) p st = map_option snd (finish f s h None p st)"
| "pending_call f g (Finish_Terminal s h h2 u) p st =
     map_option snd (finish_terminal f g s h h2 u p st)"

fun pending_life :: "nat \<Rightarrow> (nat \<Rightarrow> 's finalizer) \<Rightarrow> pending_op list \<Rightarrow> pending_state \<Rightarrow> 's \<Rightarrow> 's" where
  "pending_life k fins [] p st = pending_drop (fins (2 * k)) p st"
| "pending_life k fins (op # ops) p st =
     (case pending_call (fins (2 * k)) (fins (2 * k + 1)) op p st of
        None \<Rightarrow> pending_drop (fins (2 * k)) p st
      | Some (p', st') \<Rightarrow> pending_life (Suc k) fins ops p' st')"

definition op_http_ok :: "pending_op \<Rightarrow> bool" where
  "op_http_ok op = (case op of
     Response_Started s \<Rightarrow> 100 \<le> s \<and> s \<le> 599
   | Finish _ h \<Rightarrow> opt_all (\<lambda>n. 100 \<le> n \<and> n \<le> 599) h
   | Finish_Terminal _ h h2 _ \<Rightarrow> 100 \<le> h \<and> h \<le> 599 \<and> 100 \<le> h2 \<and> h2 \<le> 599)"

section \<open>What the guard relies on\<close>

text \<open>
  \<open>started st r\<close>: the row of \<open>r\<close> is open. \<open>reliable k\<close>: at time \<open>k\<close> the statements succeed and the
  clock is in range.
\<close>

locale finalizer =
  fixes fins :: "nat \<Rightarrow> 's finalizer"
    and started :: "'s \<Rightarrow> request_id \<Rightarrow> bool"
    and ok :: "'s \<Rightarrow> bool"
    and reliable :: "nat \<Rightarrow> bool"
  assumes keeps_ok: "ok st \<Longrightarrow> fins k r s h u st = (res, st') \<Longrightarrow> ok st'"
    and success_closes: "ok st \<Longrightarrow> fins k r s h u st = (Inr x, st') \<Longrightarrow> started st r \<and> \<not> started st' r"
    and failure_keeps: "ok st \<Longrightarrow> fins k r s h u st = (Inl e, st') \<Longrightarrow> st' = st"
    and others_kept: "ok st \<Longrightarrow> fins k r s h u st = (res, st') \<Longrightarrow> q \<noteq> r \<Longrightarrow> started st' q = started st q"
    and reliable_closes: "ok st \<Longrightarrow> reliable k \<Longrightarrow> started st r \<Longrightarrow>
      opt_all (\<lambda>n. 100 \<le> n \<and> n \<le> 599) h \<Longrightarrow> \<exists>st'. fins k r s h None st = (Inr (), st')"
begin

text \<open>The guard is open exactly while its row may still be closed by it.\<close>

definition guards :: "request_id \<Rightarrow> pending_state \<Rightarrow> bool" where
  "guards r p \<longleftrightarrow> (case p of Finalized \<Rightarrow> False | Open q \<Rightarrow> open_request_id q = r \<and>
     opt_all (\<lambda>n. 100 \<le> n \<and> n \<le> 599) (open_drop_http_status q))"

definition closed_or_guarded :: "request_id \<Rightarrow> pending_state \<Rightarrow> 's \<Rightarrow> bool" where
  "closed_or_guarded r p st \<longleftrightarrow> ok st \<and> (guards r p \<or> \<not> started st r) \<and>
     (\<forall>q. p = Open q \<longrightarrow> open_request_id q = r)"

lemma fin_effect:
  assumes "ok st"
  shows "ok (snd (fins k r s h u st))" and "q \<noteq> r \<Longrightarrow> started (snd (fins k r s h u st)) q = started st q"
    and "\<not> started st r \<Longrightarrow> \<not> started (snd (fins k r s h u st)) r"
proof -
  obtain res st' where f: "fins k r s h u st = (res, st')" by fastforce
  show "ok (snd (fins k r s h u st))" "q \<noteq> r \<Longrightarrow> started (snd (fins k r s h u st)) q = started st q"
    using keeps_ok [OF assms f] others_kept [OF assms f] f by simp_all
  show "\<not> started st r \<Longrightarrow> \<not> started (snd (fins k r s h u st)) r"
    using f success_closes [OF assms, of k r s h u _ st'] failure_keeps [OF assms, of k r s h u _ st']
    by (cases res) auto
qed

lemma reliable_fin_closes:
  assumes "ok st" "reliable k" "opt_all (\<lambda>n. 100 \<le> n \<and> n \<le> 599) h"
  shows "\<not> started (snd (fins k r s h None st)) r"
proof (cases "started st r")
  case True
  from reliable_closes [OF assms(1,2) True assms(3)] obtain st' where
    "fins k r s h None st = (Inr (), st')" by blast
  with success_closes [OF assms(1) this] show ?thesis by simp
qed (use fin_effect(3) [OF assms(1)] in blast)

lemma drop_closes:
  assumes "closed_or_guarded r p st" "reliable k"
  shows "\<not> started (pending_drop (fins k) p st) r"
  using assms reliable_fin_closes fin_effect(3)
  by (cases p) (auto simp: closed_or_guarded_def guards_def)

lemma terminal_closes:
  assumes "ok st" "reliable j" "100 \<le> h2" "h2 \<le> 599"
    and "finish_terminal (fins k) (fins j) s h h2 u (Open q) st = Some (res, p', st')"
  shows "ok st' \<and> \<not> started st' (open_request_id q) \<and> p' = Finalized"
proof -
  let ?r = "open_request_id q"
  obtain res1 st1 where f: "fins k ?r s (Some h) u st = (res1, st1)" by fastforce
  show ?thesis
  proof (cases res1)
    case (Inr x)
    with f assms success_closes [OF assms(1), of k ?r s "Some h" u x st1] keeps_ok [OF assms(1) f]
    show ?thesis by (simp add: finish_terminal_def)
  next
    case (Inl e)
    with f have "st1 = st" using failure_keeps [OF assms(1), of k ?r s "Some h" u e st1] by simp
    with Inl f assms have "st' = snd (fins j ?r UpstreamError (Some h2) None st)" "p' = Finalized"
      by (auto simp: finish_terminal_def split: prod.splits)
    with assms reliable_fin_closes [OF assms(1,2), of "Some h2"] fin_effect(1) [OF assms(1)]
    show ?thesis by simp
  qed
qed

lemma call_keeps_closed:
  assumes inv: "closed_or_guarded r p st" and rel: "reliable k" "reliable j"
    and http: "op_http_ok op"
    and call: "pending_call (fins k) (fins j) op p st = Some (p', st')"
  shows "closed_or_guarded r p' st'"
proof (cases p)
  case Finalized
  with call show ?thesis by (cases op) (auto simp: finish_def finish_terminal_def)
next
  case (Open q)
  with inv have ok: "ok st" and q: "open_request_id q = r"
    by (auto simp: closed_or_guarded_def)
  show ?thesis
  proof (cases op)
    case (Response_Started s)
    with Open call inv http show ?thesis
      by (auto simp: closed_or_guarded_def guards_def op_http_ok_def)
  next
    case (Finish s h)
    with Open call q have "st' = snd (fins k r s h None st)" "p' = Finalized"
      by (auto simp: finish_def split: prod.splits)
    with reliable_fin_closes [OF ok rel(1), of h r s] fin_effect(1) [OF ok] http Finish show ?thesis
      by (auto simp: closed_or_guarded_def op_http_ok_def)
  next
    case (Finish_Terminal s h h2 u)
    with Open call obtain res where
      "finish_terminal (fins k) (fins j) s h h2 u (Open q) st = Some (res, p', st')"
      by auto
    from terminal_closes [OF ok rel(2) _ _ this] http Finish_Terminal q show ?thesis
      by (auto simp: closed_or_guarded_def op_http_ok_def)
  qed
qed

lemma call_keeps_others:
  assumes "closed_or_guarded r p st" "pending_call (fins k) (fins j) op p st = Some (p', st')" "q \<noteq> r"
  shows "started st' q = started st q"
proof (cases p)
  case Finalized
  with assms(2) show ?thesis by (cases op) (auto simp: finish_def finish_terminal_def)
next
  case (Open o')
  with assms(1) have o: "ok st" "open_request_id o' = r" by (auto simp: closed_or_guarded_def)
  note kept = fin_effect(2) [OF o(1) assms(3)]
  show ?thesis
  proof (cases op)
    case (Finish_Terminal s h h2 u)
    obtain res1 st1 where f: "fins k r s (Some h) u st = (res1, st1)" by fastforce
    with kept [of k s "Some h" u] keeps_ok [OF o(1) f] fin_effect(2) [OF _ assms(3), of st1 j UpstreamError "Some h2" None]
    show ?thesis using Finish_Terminal Open o assms(2)
      by (auto simp: finish_terminal_def split: sum.splits prod.splits)
  next
    case (Finish s h)
    with kept [of k s h None] show ?thesis using Open o assms(2) by (auto simp: finish_def split: prod.splits)
  qed (use Open assms(2) in auto)
qed

lemma drop_keeps_others:
  assumes "closed_or_guarded r p st" "q \<noteq> r"
  shows "started (pending_drop (fins k) p st) q = started st q" "ok (pending_drop (fins k) p st)"
  using assms fin_effect(1,2) by (cases p; auto simp: closed_or_guarded_def)+

lemma life_closes:
  assumes "closed_or_guarded r p st" "\<And>j. reliable j" "\<And>op. op \<in> set ops \<Longrightarrow> op_http_ok op"
  shows "\<not> started (pending_life k fins ops p st) r"
  using assms
proof (induction ops arbitrary: k p st)
  case Nil
  then show ?case by (simp add: drop_closes)
next
  case (Cons op ops)
  show ?case
  proof (cases "pending_call (fins (2 * k)) (fins (2 * k + 1)) op p st")
    case None
    with Cons.prems show ?thesis by (simp add: drop_closes)
  next
    case (Some x)
    obtain p' st' where x: "x = (p', st')" by (cases x)
    with Some have "closed_or_guarded r p' st'"
      using call_keeps_closed [of r p st "2 * k" "2 * k + 1" op p' st'] Cons.prems by simp
    with Cons Some x show ?thesis by simp
  qed
qed

end

section \<open>The store provides it\<close>

definition row_started :: "store \<Rightarrow> request_id \<Rightarrow> bool" where
  "row_started st r = (case r of RequestId i \<Rightarrow> \<exists>row \<in> set (ledger st). is_started i row)"

definition store_fins :: "decimal_ops \<Rightarrow> (nat \<Rightarrow> db_env) \<Rightarrow> (nat \<Rightarrow> int) \<Rightarrow> nat \<Rightarrow> store finalizer" where
  "store_fins D env now k = finalize_request D (env k) (now k)"

definition reliable_at :: "(nat \<Rightarrow> db_env) \<Rightarrow> (nat \<Rightarrow> int) \<Rightarrow> nat \<Rightarrow> bool" where
  "reliable_at env now k \<longleftrightarrow> \<not> env k Sql_Select \<and> \<not> env k Sql_Update \<and> (\<exists>t. timestamp_ms (now k) = Inr t)"

lemma finalize_failure_keeps:
  assumes "store_ok st" "finalize_request D env now r s h u st = (Inl e, st')"
  shows "st' = st"
proof (cases r)
  case (RequestId i)
  from assms(2) [unfolded RequestId] show ?thesis
  proof (cases rule: finalize_request_cases)
    case (ran t f acc x)
    from ran(1) obtain row where row: "row \<in> set (ledger st)" "is_started i row"
      using find_started_Some [of "is_started i"] by (force simp: select_started_def)
    from started_split [OF assms(1) row] obtain xs ys where l: "ledger st = xs @ row # ys"
      "\<And>q. q \<in> set xs \<Longrightarrow> \<not> is_started i q" "\<And>q. q \<in> set ys \<Longrightarrow> \<not> is_started i q" by metis
    then have "length (filter (is_started i) (ledger st)) = 1" using row by simp
    with ran(4,5) show ?thesis by (auto simp: update_started_def split: if_splits)
  qed simp
qed

lemma finalize_reliable_closes:
  assumes ok: "store_ok st" and rel: "\<not> env Sql_Select" "\<not> env Sql_Update" "timestamp_ms now = Inr t"
    and st: "row_started st r" and h: "opt_all (\<lambda>n. 100 \<le> n \<and> n \<le> 599) h"
  shows "\<exists>st'. finalize_request D env now r s h None st = (Inr (), st')"
proof (cases r)
  case (RequestId i)
  with st obtain row where row: "row \<in> set (ledger st)" "is_started i row"
    by (auto simp: row_started_def)
  from started_split [OF ok row] obtain xs ys where l: "ledger st = xs @ row # ys"
    "\<And>q. q \<in> set xs \<Longrightarrow> \<not> is_started i q" "\<And>q. q \<in> set ys \<Longrightarrow> \<not> is_started i q" by metis
  obtain u where sel: "select_started i st = Some u"
    using row select_started_None [of i st] by (cases "select_started i st") auto
  have len: "length (filter (is_started i) (ledger st)) = 1" using l row by simp
  have "row_check (finalized_row t d s h
      \<lparr>acc_input = None, acc_cached = None, acc_output = None, acc_cost = None\<rparr> q)"
    if "q \<in> set (ledger st)" "0 \<le> d" for q d
    using ok that h by (auto simp: store_ok_def row_check_def finalized_row_def)
  then show ?thesis
    using rel sel len RequestId
    by (auto simp: finalize_request_def usage_columns_def update_started_def duration_between_def)
qed

interpretation sf: finalizer "store_fins D env now" row_started store_ok "reliable_at env now"
  for D env now
proof unfold_locales
  fix st k r s u res st' and h :: "int option"
  assume ok: "store_ok st" and f: "store_fins D env now k r s h u st = (res, st')"
  then have "store_step D st st'" by (auto simp: store_fins_def intro: store_step.finalize_step)
  with ok show "store_ok st'" by (rule store_ok_step)
  show "row_started st' q = row_started st q" if "q \<noteq> r" for q
  proof -
    obtain i where i: "r = RequestId i" by (cases r)
    with f have "st' = st \<or> (\<exists>f d acc x. update_started (env k) i (finalized_row f d s h acc) st = (x, st'))"
      by (simp add: store_fins_def finalize_request_effect)
    with that i show ?thesis
      by (cases q) (auto simp: row_started_def update_started_def is_started_def split: if_splits)
  qed
next
  fix st k r s u x st' and h :: "int option"
  assume ok: "store_ok st" and f: "store_fins D env now k r s h u st = (Inr x, st')"
  obtain i where i: "r = RequestId i" by (cases r)
  from f i have "finalize_request D (env k) (now k) (RequestId i) s h u st = (Inr (), st')"
    by (simp add: store_fins_def)
  from finalize_success [OF ok this] obtain xs row ys row' where "ledger st = xs @ row # ys"
    "is_started i row" "st' = st\<lparr>ledger := xs @ row' # ys\<rparr>" "\<not> is_started i row'"
    "\<And>q. q \<in> set xs \<union> set ys \<Longrightarrow> \<not> is_started i q" by (metis is_started_finalized)
  then show "row_started st r \<and> \<not> row_started st' r"
    using i by (auto simp: row_started_def)
next
  fix st k r s u e st' and h :: "int option"
  assume "store_ok st" "store_fins D env now k r s h u st = (Inl e, st')"
  then show "st' = st" by (auto simp: store_fins_def dest: finalize_failure_keeps)
next
  fix st k r s and h :: "int option"
  assume "store_ok st" "reliable_at env now k" "row_started st r" "opt_all (\<lambda>n. 100 \<le> n \<and> n \<le> 599) h"
  then show "\<exists>st'. store_fins D env now k r s h None st = (Inr (), st')"
    by (auto simp: store_fins_def reliable_at_def intro: finalize_reliable_closes)
qed

text \<open>
  No admitted request stays open in the ledger: whatever calls a handler makes on its guard, in
  any order, panics included, once the guard is gone its row is no longer \<open>started\<close>, provided the
  store's statements succeed and the clock is in range.
\<close>

theorem guard_closes_its_row:
  assumes "store_ok st" and "\<And>k. reliable_at env now k"
    and "\<And>op. op \<in> set ops \<Longrightarrow> op_http_ok op"
  shows "\<not> row_started (pending_life 0 (store_fins D env now) ops (pending_new r) st) r"
proof (rule sf.life_closes)
  show "sf.closed_or_guarded r (pending_new r) st"
    using assms(1) by (simp add: sf.closed_or_guarded_def sf.guards_def pending_new_def)
qed (use assms in blast)+

text \<open>
  C17. A terminal whose accounting is refused is still closed: when \<open>finish_terminal\<close> cannot record
  the usage, the row ends as \<open>upstream_error\<close> without usage and the caller is told; when it can, the
  row carries the status, HTTP status and usage columns it was given.
\<close>

theorem finish_terminal_outcome:
  assumes "store_ok st" and "row_started st (RequestId i)"
    and "reliable_at env now j" and "100 \<le> h2" and "h2 \<le> 599"
    and "finish_terminal (store_fins D env now k) (store_fins D env now j) s h h2 u
      (pending_new (RequestId i)) st = Some (res, p', st')"
  shows "\<exists>r \<in> set (ledger st'). row_id r = i \<and> p' = Finalized \<and>
    (case res of
       Inr _ \<Rightarrow> row_status r = final_status_as_str s \<and> row_http_status r = Some h \<and>
         (\<exists>acc. usage_columns D u = Inr acc \<and> row_input_tokens r = acc_input acc \<and>
           row_output_tokens r = acc_output acc \<and> row_cost_nano_usd r = acc_cost acc)
     | Inl _ \<Rightarrow> row_status r = ''upstream_error'' \<and> row_http_status r = Some h2 \<and>
         row_cost_nano_usd r = None)"
proof -
  obtain res1 st1 where f: "finalize_request D (env k) (now k) (RequestId i) s (Some h) u st = (res1, st1)"
    by fastforce
  show ?thesis
  proof (cases res1)
    case (Inr x)
    with f have f': "finalize_request D (env k) (now k) (RequestId i) s (Some h) u st = (Inr (), st1)"
      by simp
    from f assms(6) Inr have "res = Inr ()" "p' = Finalized" "st' = st1"
      by (auto simp: finish_terminal_def pending_new_def store_fins_def)
    moreover from finalize_success [OF assms(1) f'] obtain xs row ys d finished acc where
      "is_started i row" "usage_columns D u = Inr acc"
      "st1 = st\<lparr>ledger := xs @ finalized_row finished d s (Some h) acc row # ys\<rparr>" by metis
    ultimately show ?thesis by (auto simp: is_started_def finalized_row_def)
  next
    case (Inl e)
    with f have "st1 = st" using finalize_failure_keeps [OF assms(1)] by blast
    moreover obtain st2 where g: "finalize_request D (env j) (now j) (RequestId i) UpstreamError
        (Some h2) None st = (Inr (), st2)"
      using finalize_reliable_closes [OF assms(1) _ _ _ assms(2)] assms(3-5)
      by (fastforce simp: reliable_at_def)
    ultimately have "res = Inl ()" "p' = Finalized" "st' = st2"
      using f assms(6) Inl by (auto simp: finish_terminal_def pending_new_def store_fins_def)
    moreover from finalize_success [OF assms(1) g] obtain xs row ys d finished acc where
      "is_started i row" "usage_columns D None = Inr acc"
      "st2 = st\<lparr>ledger := xs @ finalized_row finished d UpstreamError (Some h2) acc row # ys\<rparr>"
      by metis
    ultimately show ?thesis by (auto simp: is_started_def finalized_row_def usage_columns_def)
  qed
qed

theorem finish_terminal_outcome_witness:
  "\<exists>res p' st' r. finish_terminal (store_fins exact_decimal (\<lambda>_. no_faults) (\<lambda>_. demo_now) 0)
      (store_fins exact_decimal (\<lambda>_. no_faults) (\<lambda>_. demo_now) 1) Completed 200 200 None
      (pending_new (RequestId 1)) demo_begun = Some (res, p', st') \<and> r \<in> set (ledger st') \<and> row_id r = 1"
proof -
  have f: "finish_terminal (store_fins exact_decimal (\<lambda>_. no_faults) (\<lambda>_. demo_now) 0)
      (store_fins exact_decimal (\<lambda>_. no_faults) (\<lambda>_. demo_now) 1) Completed 200 200 None
      (pending_new (RequestId 1)) demo_begun = Some (Inr (), Finalized, demo_finished)"
    by (simp add: finish_terminal_def pending_new_def store_fins_def demo_finalize)
  have s: "row_started demo_begun (RequestId 1)"
    by (simp add: row_started_def demo_begun_def is_started_def admission_row_def)
  have r: "reliable_at (\<lambda>_. no_faults) (\<lambda>_. demo_now) 1"
    by (simp add: reliable_at_def demo_timestamp)
  from finish_terminal_outcome [OF demo_begun_ok s r _ _ f] f show ?thesis by fastforce
qed

end
