(* ===== verification/Terminal.thy ===== *)
theory Terminal
  imports Store Api_Error
begin

text \<open>
  Terminal Responses events (\<open>src/responses_terminal.rs\<close>): which payloads end a response, the checks on
  their status and token usage, and the retry advice added to capacity failures. The parser of HTTP
  dates is the argument \<open>http_date_ok\<close>; log lines are not modelled. A panic of an index assignment is
  the outer \<open>None\<close>; \<open>Unreachable\<close> marks an \<open>expect\<close> or \<open>unreachable!\<close>, and is shown never to occur.
\<close>

section \<open>Data\<close>

datatype TerminalKind = TK_Completed | TK_Incomplete | TK_Failed | TK_Error

fun event_name :: "TerminalKind \<Rightarrow> string" where
  "event_name TK_Completed = ''response.completed''"
| "event_name TK_Incomplete = ''response.incomplete''"
| "event_name TK_Failed = ''response.failed''"
| "event_name TK_Error = ''error''"

definition from_name :: "string \<Rightarrow> TerminalKind option" where
  "from_name value =
     (if value = ''response.completed'' then Some TK_Completed
      else if value = ''response.incomplete'' then Some TK_Incomplete
      else if value = ''response.failed'' then Some TK_Failed
      else if value = ''error'' then Some TK_Error
      else None)"

fun response_status :: "TerminalKind \<Rightarrow> string option" where
  "response_status TK_Completed = Some ''completed''"
| "response_status TK_Incomplete = Some ''incomplete''"
| "response_status TK_Failed = Some ''failed''"
| "response_status TK_Error = None"

record usage =
  input_tokens :: u64
  cached_input_tokens :: u64
  output_tokens :: u64
  reasoning_tokens :: u64
  total_tokens :: u64

record terminal_event =
  te_kind :: TerminalKind
  te_payload :: json
  te_usage :: "usage option"

datatype ProtocolError =
    InvalidTerminalField string string string
  | TerminalStatusMismatch string string string
  | CachedInputExceedsInput string
  | ReasoningExceedsOutput string
  | Unreachable

section \<open>Capacity retry advice\<close>

definition upstream_error :: "terminal_event \<Rightarrow> json option" where
  "upstream_error ev =
     opt_filter is_object
       (case te_kind ev of
          TK_Error \<Rightarrow> jget (te_payload ev) ''error''
        | TK_Failed \<Rightarrow> jpointer (te_payload ev) [''response'', ''error'']
        | TK_Completed \<Rightarrow> None
        | TK_Incomplete \<Rightarrow> None)"

text \<open>\<open>value.parse::<u64>().is_ok()\<close>, for a string that is known to be digits.\<close>

definition decimal_value :: "string \<Rightarrow> nat" where
  "decimal_value s = foldl (\<lambda>n c. 10 * n + (byte c - 48)) 0 s"

definition digits_fit_u64 :: "string \<Rightarrow> bool" where
  "digits_fit_u64 s \<longleftrightarrow> decimal_value s < 2 ^ 64"

definition retry_after_valid :: "(string \<Rightarrow> bool) \<Rightarrow> json \<Rightarrow> bool" where
  "retry_after_valid http_date_ok value =
     (case value of
        JStr s \<Rightarrow>
          (let t = trim s
           in (t \<noteq> [] \<and> list_all is_ascii_digit t \<and> digits_fit_u64 t) \<or> http_date_ok t)
      | JNum n \<Rightarrow> as_u64 (JNum n) \<noteq> None
      | _ \<Rightarrow> False)"

definition is_retry_after :: "string \<Rightarrow> bool" where
  "is_retry_after name \<longleftrightarrow> eq_ignore_ascii_case name ''retry-after''"

definition object_entries :: "json \<Rightarrow> (string \<times> json) list" where
  "object_entries v = (case as_object v of None \<Rightarrow> [] | Some m \<Rightarrow> m)"

definition retry_after_advice :: "(string \<Rightarrow> bool) \<Rightarrow> json \<Rightarrow> json \<Rightarrow> json" where
  "retry_after_advice http_date_ok error payload =
     (case find (\<lambda>(name, value). is_retry_after name \<and> retry_after_valid http_date_ok value)
         (object_entries (jindex error ''headers'') @ object_entries (jindex payload ''headers'')) of
        Some (_, value) \<Rightarrow> value
      | None \<Rightarrow> JStr ''30'')"

text \<open>\<open>headers.retain(..)\<close> and the insertion after it.\<close>

definition headers_with_advice :: "json \<Rightarrow> json \<Rightarrow> jobject" where
  "headers_with_advice error advice =
     bmap_insert ''Retry-After'' advice
       (filter (\<lambda>(name, _). \<not> is_retry_after name) (object_entries (jindex error ''headers'')))"

text \<open>\<open>payload["response"]["error"] = e\<close>: a missing \<open>response\<close> is created as null first.\<close>

definition jset2 :: "json \<Rightarrow> string \<Rightarrow> string \<Rightarrow> json \<Rightarrow> json option" where
  "jset2 v k l w = opt_bind (jset (jindex v k) l w) (\<lambda>u. jset v k u)"

definition retryable_capacity_payload ::
  "(string \<Rightarrow> bool) \<Rightarrow> terminal_event \<Rightarrow> json option option" where
  "retryable_capacity_payload http_date_ok ev =
     (case upstream_error ev of
        None \<Rightarrow> Some None
      | Some error \<Rightarrow>
          if as_str (jindex error ''code'') \<notin> {Some ''server_is_overloaded'', Some ''slow_down''}
          then Some None
          else
            (let advice = retry_after_advice http_date_ok error (te_payload ev)
             in opt_bind (jset error ''headers'' (JObj (headers_with_advice error advice))) (\<lambda>error'.
                if te_kind ev = TK_Error
                then
                  (case as_object (te_payload ev) of
                     None \<Rightarrow> Some None
                   | Some m \<Rightarrow>
                       opt_bind (jset (JObj (bmap_remove ''error'' m)) ''type'' (JStr ''response.failed'')) (\<lambda>p.
                       opt_bind (jset p ''response''
                           (jobj [(''status'', JStr ''failed''), (''error'', error')])) (\<lambda>p'.
                       Some (Some p'))))
                else opt_bind (jset2 (te_payload ev) ''response'' ''error'' error') (\<lambda>p. Some (Some p)))))"

section \<open>Validation\<close>

definition required_u64 :: "json \<Rightarrow> string \<Rightarrow> string \<Rightarrow> TerminalKind \<Rightarrow> ProtocolError + u64" where
  "required_u64 object field field_path kind =
     ok_or (InvalidTerminalField (event_name kind) field_path ''a non-negative integer'')
       (opt_bind (jget object field) as_u64)"

definition optional_detail_u64 ::
  "json \<Rightarrow> string \<Rightarrow> string \<Rightarrow> string \<Rightarrow> string \<Rightarrow> TerminalKind \<Rightarrow> ProtocolError + u64" where
  "optional_detail_u64 usage details_field details_path token_field token_path kind =
     (case opt_filter (\<lambda>d. \<not> is_null d) (jget usage details_field) of
        None \<Rightarrow> Inr 0
      | Some details \<Rightarrow>
          res_bind (ok_or (InvalidTerminalField (event_name kind) details_path ''an object'')
              (as_object details)) (\<lambda>m.
          (case map_of m token_field of
             None \<Rightarrow> Inr 0
           | Some value \<Rightarrow>
               ok_or (InvalidTerminalField (event_name kind) token_path ''a non-negative integer'')
                 (as_u64 value))))"

definition parse_usage :: "json \<Rightarrow> TerminalKind \<Rightarrow> ProtocolError + usage option" where
  "parse_usage response kind =
     (case opt_filter (\<lambda>u. \<not> is_null u) (jget response ''usage'') of
        None \<Rightarrow>
          (case kind of
             TK_Failed \<Rightarrow> Inr None
           | TK_Completed \<Rightarrow> Inl (InvalidTerminalField (event_name kind) ''response.usage'' ''an object'')
           | TK_Incomplete \<Rightarrow> Inl (InvalidTerminalField (event_name kind) ''response.usage'' ''an object'')
           | TK_Error \<Rightarrow> Inl Unreachable)
      | Some u \<Rightarrow>
          if \<not> is_object u
          then Inl (InvalidTerminalField (event_name kind) ''response.usage'' ''an object or null'')
          else
            res_bind (required_u64 u ''input_tokens'' ''response.usage.input_tokens'' kind) (\<lambda>input.
            res_bind (required_u64 u ''output_tokens'' ''response.usage.output_tokens'' kind) (\<lambda>output.
            res_bind (required_u64 u ''total_tokens'' ''response.usage.total_tokens'' kind) (\<lambda>total.
            res_bind (optional_detail_u64 u ''input_tokens_details''
                ''response.usage.input_tokens_details'' ''cached_tokens''
                ''response.usage.input_tokens_details.cached_tokens'' kind) (\<lambda>cached.
            res_bind (optional_detail_u64 u ''output_tokens_details''
                ''response.usage.output_tokens_details'' ''reasoning_tokens''
                ''response.usage.output_tokens_details.reasoning_tokens'' kind) (\<lambda>reasoning.
            if input < cached then Inl (CachedInputExceedsInput (event_name kind))
            else if output < reasoning then Inl (ReasoningExceedsOutput (event_name kind))
            else Inr (Some \<lparr>input_tokens = input, cached_input_tokens = cached,
              output_tokens = output, reasoning_tokens = reasoning, total_tokens = total\<rparr>)))))))"

definition parse_terminal_payload :: "json \<Rightarrow> ProtocolError + terminal_event option" where
  "parse_terminal_payload payload =
     (case opt_bind (opt_bind (jget payload ''type'') as_str) from_name of
        None \<Rightarrow> Inr None
      | Some kind \<Rightarrow>
          if kind = TK_Error
          then Inr (Some \<lparr>te_kind = kind, te_payload = payload, te_usage = None\<rparr>)
          else
            res_bind (ok_or (InvalidTerminalField (event_name kind) ''response'' ''an object'')
                (opt_filter is_object (jget payload ''response''))) (\<lambda>response.
            res_bind (ok_or Unreachable (response_status kind)) (\<lambda>expected.
            res_bind (ok_or (InvalidTerminalField (event_name kind) ''response.status'' ''a string'')
                (opt_bind (jget response ''status'') as_str)) (\<lambda>status.
            if status \<noteq> expected
            then Inl (TerminalStatusMismatch (event_name kind) status expected)
            else
              res_bind (parse_usage response kind) (\<lambda>u.
              Inr (Some \<lparr>te_kind = kind, te_payload = payload, te_usage = u\<rparr>))))))"

section \<open>What a terminal event guarantees\<close>

lemma from_name_event_name [simp]: "from_name (event_name k) = Some k"
  by (cases k) (simp_all add: from_name_def)

lemma from_name_Some: "from_name s = Some k \<longleftrightarrow> s = event_name k"
  by (cases k) (auto simp: from_name_def split: if_splits)

definition usage_ok :: "usage \<Rightarrow> bool" where
  "usage_ok u \<longleftrightarrow> cached_input_tokens u \<le> input_tokens u \<and> reasoning_tokens u \<le> output_tokens u"

lemma parse_usage_ok: "parse_usage r k = Inr (Some u) \<Longrightarrow> usage_ok u"
  by (auto simp: parse_usage_def usage_ok_def result_simps not_less split: option.splits if_splits
      TerminalKind.splits)

lemma parse_usage_None: "parse_usage r k = Inr None \<Longrightarrow> k = TK_Failed"
  by (auto simp: parse_usage_def result_simps split: option.splits if_splits TerminalKind.splits)

text \<open>A terminal event, declaratively.\<close>

definition terminal_ok :: "terminal_event \<Rightarrow> bool" where
  "terminal_ok ev \<longleftrightarrow>
     jget (te_payload ev) ''type'' = Some (JStr (event_name (te_kind ev))) \<and>
     (case response_status (te_kind ev) of
        None \<Rightarrow> te_usage ev = None
      | Some status \<Rightarrow>
          (\<exists>m. jget (te_payload ev) ''response'' = Some (JObj m) \<and>
             map_of m ''status'' = Some (JStr status) \<and> parse_usage (JObj m) (te_kind ev) = Inr (te_usage ev))) \<and>
     opt_all usage_ok (te_usage ev) \<and>
     (te_usage ev = None \<longrightarrow> te_kind ev \<in> {TK_Failed, TK_Error})"

lemma parse_terminal_kind:
  assumes "jget p ''type'' = Some (JStr (event_name kind))" and "kind \<noteq> TK_Error"
  shows "parse_terminal_payload p = Inr (Some ev) \<longleftrightarrow>
    (\<exists>m u status. jget p ''response'' = Some (JObj m) \<and> response_status kind = Some status \<and>
       map_of m ''status'' = Some (JStr status) \<and> parse_usage (JObj m) kind = Inr u \<and>
       ev = \<lparr>te_kind = kind, te_payload = p, te_usage = u\<rparr>)"
  using assms by (auto simp: parse_terminal_payload_def result_simps simp del: event_name.simps)

lemma parse_terminal_error:
  assumes "jget p ''type'' = Some (JStr (event_name TK_Error))"
  shows "parse_terminal_payload p = Inr (Some \<lparr>te_kind = TK_Error, te_payload = p, te_usage = None\<rparr>)"
  using assms by (simp add: parse_terminal_payload_def del: event_name.simps)

lemma parse_terminal_iff:
  "parse_terminal_payload p = Inr (Some ev) \<longleftrightarrow> te_payload ev = p \<and> terminal_ok ev"
proof (cases "\<exists>kind. jget p ''type'' = Some (JStr (event_name kind))")
  case True
  then obtain kind where t: "jget p ''type'' = Some (JStr (event_name kind))" by blast
  have inj: "event_name a = event_name b \<longleftrightarrow> a = b" for a b by (cases a; cases b) simp_all
  show ?thesis
  proof (cases "kind = TK_Error")
    case True
    with t parse_terminal_error show ?thesis
      by (cases ev) (auto simp: terminal_ok_def inj simp del: event_name.simps)
  next
    case False
    then obtain status where "response_status kind = Some status" by (cases kind) auto
    with False parse_terminal_kind [OF t False, of ev] t show ?thesis
      by (cases ev) (auto simp: terminal_ok_def inj opt_all_def dest: parse_usage_None intro: parse_usage_ok
          simp del: event_name.simps split: option.splits)
  qed
next
  case False
  then show ?thesis
    by (auto simp: parse_terminal_payload_def terminal_ok_def from_name_Some split: option.splits)
qed

text \<open>
  The validator accepts exactly the terminal events: the type is one of the four names, the
  response object has the status that type demands, the usage is present unless the response failed, and
  the cached and reasoning tokens never exceed the totals they are part of. The payload is kept as it was.
\<close>

theorem parse_terminal_exact:
  "parse_terminal_payload p = Inr (Some ev) \<longleftrightarrow> te_payload ev = p \<and> terminal_ok ev"
  by (rule parse_terminal_iff)

lemma parse_usage_reachable: "k \<noteq> TK_Error \<Longrightarrow> parse_usage r k \<noteq> Inl Unreachable"
  by (auto simp: parse_usage_def required_u64_def optional_detail_u64_def res_bind_Inl_iff result_simps
      split: option.splits if_splits TerminalKind.splits)

lemma parse_terminal_never_unreachable: "parse_terminal_payload p \<noteq> Inl Unreachable"
proof
  assume "parse_terminal_payload p = Inl Unreachable"
  then obtain k where "k \<noteq> TK_Error" "response_status k = None \<or> (\<exists>r. parse_usage r k = Inl Unreachable)"
    by (auto simp: parse_terminal_payload_def res_bind_Inl_iff result_simps split: option.splits if_splits)
  with parse_usage_reachable show False by (cases k) auto
qed

section \<open>What the retry advice guarantees\<close>

lemma filter_bmap_insert_absent:
  "P k \<Longrightarrow> \<forall>e \<in> set m. \<not> P (fst e) \<Longrightarrow> filter (\<lambda>e. P (fst e)) (bmap_insert k v m) = [(k, v)]"
  by (induction k v m rule: bmap_insert.induct) (auto simp: filter_empty_conv)

lemma is_retry_after_name: "is_retry_after ''Retry-After''"
  by (simp add: is_retry_after_def eq_ignore_ascii_case_def to_ascii_lowercase_def byte_def char_of_def bit_0)

lemma headers_with_advice_once:
  "filter (\<lambda>e. is_retry_after (fst e)) (headers_with_advice error advice) = [(''Retry-After'', advice)]"
  unfolding headers_with_advice_def
  by (rule filter_bmap_insert_absent) (auto simp: is_retry_after_name)

lemma default_advice_valid: "retry_after_valid http_date_ok (JStr ''30'')"
  by (simp add: retry_after_valid_def trim_def trim_start.simps trim_rev.simps white_space_def
      is_ascii_digit_def byte_def digits_fit_u64_def decimal_value_def)

lemma advice_valid: "retry_after_valid http_date_ok (retry_after_advice http_date_ok error payload)"
  by (auto simp: retry_after_advice_def default_advice_valid find_Some_iff split: option.splits)

definition capacity_error :: "terminal_event \<Rightarrow> json \<Rightarrow> bool" where
  "capacity_error ev error \<longleftrightarrow>
     upstream_error ev = Some error \<and>
     as_str (jindex error ''code'') \<in> {Some ''server_is_overloaded'', Some ''slow_down''}"

definition advised_error :: "(string \<Rightarrow> bool) \<Rightarrow> terminal_event \<Rightarrow> jobject \<Rightarrow> jobject" where
  "advised_error http_date_ok ev m =
     bmap_insert ''headers''
       (JObj (headers_with_advice (JObj m) (retry_after_advice http_date_ok (JObj m) (te_payload ev)))) m"

lemma upstream_error_object:
  assumes "upstream_error ev = Some error"
  obtains m where "error = JObj m"
  using assms that by (auto simp: upstream_error_def)

lemma retryable_failed:
  assumes ok: "terminal_ok ev" and k: "te_kind ev = TK_Failed" and c: "capacity_error ev (JObj e)"
  shows "\<exists>p. retryable_capacity_payload http_date_ok ev = Some (Some p) \<and>
    parse_terminal_payload p = Inr (Some \<lparr>te_kind = TK_Failed, te_payload = p, te_usage = te_usage ev\<rparr>) \<and>
    jpointer p [''response'', ''error''] = Some (JObj (advised_error http_date_ok ev e))"
proof -
  from ok k obtain b m where b: "te_payload ev = JObj b" "map_of b ''type'' = Some (JStr ''response.failed'')"
    "map_of b ''response'' = Some (JObj m)" "map_of m ''status'' = Some (JStr ''failed'')"
    "parse_usage (JObj m) TK_Failed = Inr (te_usage ev)"
    by (auto simp: terminal_ok_def jget_Some)
  let ?m = "bmap_insert ''error'' (JObj (advised_error http_date_ok ev e)) m"
  let ?p = "JObj (bmap_insert ''response'' (JObj ?m) b)"
  have r: "retryable_capacity_payload http_date_ok ev = Some (Some ?p)"
    using c k b by (auto simp: retryable_capacity_payload_def capacity_error_def jset2_def
        advised_error_def Let_def)
  have "parse_usage (JObj ?m) TK_Failed = parse_usage (JObj m) TK_Failed"
    by (simp add: parse_usage_def)
  with ok k b have "terminal_ok \<lparr>te_kind = TK_Failed, te_payload = ?p, te_usage = te_usage ev\<rparr>"
    by (auto simp: terminal_ok_def)
  with r show ?thesis by (intro exI [of _ ?p]) (simp add: parse_terminal_iff)
qed

lemma retryable_error:
  assumes ok: "terminal_ok ev" and k: "te_kind ev = TK_Error" and c: "capacity_error ev (JObj e)"
  shows "\<exists>p. retryable_capacity_payload http_date_ok ev = Some (Some p) \<and>
    parse_terminal_payload p = Inr (Some \<lparr>te_kind = TK_Failed, te_payload = p, te_usage = te_usage ev\<rparr>) \<and>
    jpointer p [''response'', ''error''] = Some (JObj (advised_error http_date_ok ev e))"
proof -
  from ok k obtain b where b: "te_payload ev = JObj b" by (auto simp: terminal_ok_def jget_Some)
  let ?r = "jobj [(''status'', JStr ''failed''), (''error'', JObj (advised_error http_date_ok ev e))]"
  let ?p = "JObj (bmap_insert ''response'' ?r
    (bmap_insert ''type'' (JStr ''response.failed'') (bmap_remove ''error'' b)))"
  have r: "retryable_capacity_payload http_date_ok ev = Some (Some ?p)"
    using c k b by (auto simp: retryable_capacity_payload_def capacity_error_def advised_error_def Let_def)
  have "parse_usage ?r TK_Failed = Inr None" by (simp add: parse_usage_def)
  moreover have "te_usage ev = None" using ok k by (simp add: terminal_ok_def)
  ultimately have "terminal_ok \<lparr>te_kind = TK_Failed, te_payload = ?p, te_usage = te_usage ev\<rparr>"
    by (auto simp: terminal_ok_def jobj_def map_of_bmap_of_list)
  with r show ?thesis by (intro exI [of _ ?p]) (simp add: parse_terminal_iff)
qed

text \<open>
  C33. The rewriting of capacity failures does not change the accounting: for a validated terminal event
  it never panics, it rewrites exactly the events whose error code is a capacity code, and what it sends
  is again a valid \<open>response.failed\<close> with the same usage, whose error differs from the upstream one in
  its headers alone, where there is exactly one Retry-After entry and its value is valid.
\<close>

theorem retry_advice_sound:
  assumes "parse_terminal_payload payload = Inr (Some ev)"
  shows "case retryable_capacity_payload http_date_ok ev of
      None \<Rightarrow> False
    | Some None \<Rightarrow> \<nexists>error. capacity_error ev error
    | Some (Some p) \<Rightarrow>
        \<exists>e e' h v. capacity_error ev (JObj e) \<and>
          parse_terminal_payload p =
            Inr (Some \<lparr>te_kind = TK_Failed, te_payload = p, te_usage = te_usage ev\<rparr>) \<and>
          jpointer p [''response'', ''error''] = Some (JObj e') \<and>
          (\<forall>k. k \<noteq> ''headers'' \<longrightarrow> map_of e' k = map_of e k) \<and>
          map_of e' ''headers'' = Some (JObj h) \<and>
          filter (\<lambda>e. is_retry_after (fst e)) h = [(''Retry-After'', v)] \<and>
          retry_after_valid http_date_ok v"
proof (cases "\<exists>error. capacity_error ev error")
  case True
  then obtain e where c: "capacity_error ev (JObj e)"
    using upstream_error_object by (metis capacity_error_def)
  have ok: "terminal_ok ev" using assms by (simp add: parse_terminal_iff)
  have "te_kind ev = TK_Failed \<or> te_kind ev = TK_Error"
    using c by (auto simp: capacity_error_def upstream_error_def split: TerminalKind.splits)
  then obtain p where "retryable_capacity_payload http_date_ok ev = Some (Some p)"
    "parse_terminal_payload p = Inr (Some \<lparr>te_kind = TK_Failed, te_payload = p, te_usage = te_usage ev\<rparr>)"
    "jpointer p [''response'', ''error''] = Some (JObj (advised_error http_date_ok ev e))"
    using retryable_failed [OF ok _ c] retryable_error [OF ok _ c] by metis
  with c show ?thesis
    by (auto simp: advised_error_def headers_with_advice_once advice_valid)
next
  case False
  then have "retryable_capacity_payload http_date_ok ev = Some None"
    by (auto simp: retryable_capacity_payload_def capacity_error_def split: option.splits)
  with False show ?thesis by simp
qed

definition demo_overloaded :: json where
  "demo_overloaded = JObj [(''error'', JObj [(''code'', JStr ''slow_down''),
     (''headers'', JObj [(''RETRY-AFTER'', JStr ''soon'')])]), (''type'', JStr ''error'')]"

theorem retry_advice_sound_witness:
  "\<exists>p. retryable_capacity_payload (\<lambda>_. False)
      \<lparr>te_kind = TK_Error, te_payload = demo_overloaded, te_usage = None\<rparr> = Some (Some p) \<and>
     (\<exists>ev. parse_terminal_payload p = Inr (Some ev) \<and> te_kind ev = TK_Failed)"
proof -
  let ?ev = "\<lparr>te_kind = TK_Error, te_payload = demo_overloaded, te_usage = None\<rparr>"
  have "parse_terminal_payload demo_overloaded = Inr (Some ?ev)"
    by (simp add: parse_terminal_payload_def demo_overloaded_def from_name_def)
  moreover have "capacity_error ?ev (JObj [(''code'', JStr ''slow_down''),
      (''headers'', JObj [(''RETRY-AFTER'', JStr ''soon'')])])"
    by (simp add: capacity_error_def upstream_error_def demo_overloaded_def)
  ultimately show ?thesis
    using retry_advice_sound [of demo_overloaded ?ev "\<lambda>_. False"] by (auto split: option.splits)
qed

end
