(* ===== verification/Sse.thy ===== *)
theory Sse
  imports Terminal
begin

text \<open>
  Reading an upstream event stream (\<open>src/sse.rs\<close>). The splitting of the byte stream into records is the
  \<open>eventsource_stream\<close> crate's; the reader's state is what is left of its output, a list of records and
  stream errors. The JSON parser is the argument \<open>parse\<close>.
\<close>

text \<open>A record as the crate yields it; a retry delay is in milliseconds.\<close>

record raw_event =
  raw_event_name :: string
  raw_id :: string
  raw_data :: string
  raw_retry :: "nat option"

record sse_event =
  sse_event_name :: string
  sse_id :: string
  sse_data :: string
  sse_retry :: "nat option"
  sse_terminal :: "terminal_event option"

datatype SseRead = SseEvent sse_event | SseEof

datatype SseProtocolError =
    InvalidTerminalJson string
  | SseInvalidTerminalField string string string
  | TerminalTypeMismatch string string
  | SseTerminal ProtocolError

datatype 'e SseReadError = SseStream 'e | SseProtocol SseProtocolError

type_synonym 'e sse_reader = "('e + raw_event) list"

definition validate_event ::
  "(string \<Rightarrow> json option) \<Rightarrow> raw_event \<Rightarrow> SseProtocolError + terminal_event option" where
  "validate_event parse ev =
     (let event_kind = from_name (raw_event_name ev) in
      case parse (raw_data ev) of
        None \<Rightarrow> if event_kind = None then Inr None else Inl (InvalidTerminalJson (raw_event_name ev))
      | Some payload \<Rightarrow>
          res_bind (map_err SseTerminal (parse_terminal_payload payload)) (\<lambda>terminal.
          (case (event_kind, map_option te_kind terminal) of
             (None, None) \<Rightarrow> Inr None
           | (Some ek, Some pk) \<Rightarrow>
               if ek \<noteq> pk then Inl (TerminalTypeMismatch (event_name ek) (event_name pk)) else Inr terminal
           | (None, Some _) \<Rightarrow> Inr terminal
           | (Some ek, None) \<Rightarrow>
               Inl (SseInvalidTerminalField (event_name ek) ''type'' (event_name ek)))))"

definition sse_next ::
  "(string \<Rightarrow> json option) \<Rightarrow> 'e sse_reader \<Rightarrow> ('e SseReadError + SseRead) \<times> 'e sse_reader" where
  "sse_next parse reader =
     (case reader of
        [] \<Rightarrow> (Inr SseEof, [])
      | Inl e # rest \<Rightarrow> (Inl (SseStream e), rest)
      | Inr ev # rest \<Rightarrow>
          (map_err SseProtocol
             (res_bind (validate_event parse ev) (\<lambda>terminal.
              Inr (SseEvent \<lparr>sse_event_name = raw_event_name ev, sse_id = raw_id ev,
                sse_data = raw_data ev, sse_retry = raw_retry ev, sse_terminal = terminal\<rparr>))), rest))"

definition into_terminal :: "sse_event \<Rightarrow> terminal_event option" where
  "into_terminal ev = sse_terminal ev"

definition sse_terminal_ref :: "sse_event \<Rightarrow> terminal_event option" where
  "sse_terminal_ref ev = sse_terminal ev"

text \<open>The \<open>Display\<close> instances; \<open>shown\<close> is that of the crate's stream errors.\<close>

fun display_terminal_error :: "ProtocolError \<Rightarrow> string" where
  "display_terminal_error (InvalidTerminalField event field expected) =
     ''terminal Responses event `'' @ event @ ''` has invalid `'' @ field @ ''`; expected '' @ expected"
| "display_terminal_error (TerminalStatusMismatch event status expected) =
     ''terminal Responses event `'' @ event @ ''` has response status `'' @ status @ ''`; expected `'' @ expected @ ''`''"
| "display_terminal_error (CachedInputExceedsInput event) =
     ''terminal Responses event `'' @ event @ ''` reports more cached input tokens than input tokens''"
| "display_terminal_error (ReasoningExceedsOutput event) =
     ''terminal Responses event `'' @ event @ ''` reports more reasoning tokens than output tokens''"
| "display_terminal_error Unreachable = []"

fun display_sse_error :: "SseProtocolError \<Rightarrow> string" where
  "display_sse_error (InvalidTerminalJson event) = ''terminal SSE event `'' @ event @ ''` contains invalid JSON''"
| "display_sse_error (SseInvalidTerminalField event field expected) =
     ''terminal SSE event `'' @ event @ ''` has invalid `'' @ field @ ''`; expected '' @ expected"
| "display_sse_error (TerminalTypeMismatch name kind) =
     ''terminal SSE event name `'' @ name @ ''` disagrees with JSON type `'' @ kind @ ''`''"
| "display_sse_error (SseTerminal e) = display_terminal_error e"

fun display_read_error :: "('e \<Rightarrow> string) \<Rightarrow> 'e SseReadError \<Rightarrow> string" where
  "display_read_error shown (SseStream e) = ''upstream SSE stream error: '' @ shown e"
| "display_read_error shown (SseProtocol e) = display_sse_error e"

section \<open>Terminal records\<close>

text \<open>The terminal kinds a record announces: by its event name, and by the type of its payload.\<close>

definition name_kind :: "raw_event \<Rightarrow> TerminalKind option" where
  "name_kind ev = from_name (raw_event_name ev)"

definition payload_kind :: "(string \<Rightarrow> json option) \<Rightarrow> raw_event \<Rightarrow> TerminalKind option" where
  "payload_kind parse ev =
     opt_bind (parse (raw_data ev)) (\<lambda>p. opt_bind (opt_bind (jget p ''type'') as_str) from_name)"

lemma parse_terminal_None:
  "parse_terminal_payload p = Inr None \<longleftrightarrow> opt_bind (opt_bind (jget p ''type'') as_str) from_name = None"
  by (auto simp: parse_terminal_payload_def result_simps split: option.splits if_splits)

lemma terminal_ok_kind:
  "terminal_ok t \<Longrightarrow> opt_bind (opt_bind (jget (te_payload t) ''type'') as_str) from_name = Some (te_kind t)"
  by (simp add: terminal_ok_def del: event_name.simps)

lemma validate_event_cases:
  "validate_event parse ev =
     (case parse (raw_data ev) of
        None \<Rightarrow> if name_kind ev = None then Inr None else Inl (InvalidTerminalJson (raw_event_name ev))
      | Some p \<Rightarrow>
          (case parse_terminal_payload p of
             Inl e \<Rightarrow> Inl (SseTerminal e)
           | Inr None \<Rightarrow>
               (case name_kind ev of
                  None \<Rightarrow> Inr None
                | Some k \<Rightarrow> Inl (SseInvalidTerminalField (event_name k) ''type'' (event_name k)))
           | Inr (Some t) \<Rightarrow>
               (case name_kind ev of
                  None \<Rightarrow> Inr (Some t)
                | Some k \<Rightarrow>
                    if k \<noteq> te_kind t then Inl (TerminalTypeMismatch (event_name k) (event_name (te_kind t)))
                    else Inr (Some t))))"
  by (simp add: validate_event_def Let_def name_kind_def res_bind_def map_err_def split: option.split sum.split)

lemma validate_event_informational:
  "validate_event parse ev = Inr None \<longleftrightarrow> name_kind ev = None \<and> payload_kind parse ev = None"
proof (cases "parse (raw_data ev)")
  case None
  then show ?thesis by (simp add: validate_event_cases payload_kind_def)
next
  case (Some p)
  have "validate_event parse ev = Inr None \<longleftrightarrow> name_kind ev = None \<and> parse_terminal_payload p = Inr None"
    using Some by (simp add: validate_event_cases split: sum.split option.split)
  then show ?thesis using Some parse_terminal_None [of p] by (simp add: payload_kind_def)
qed

lemma validate_event_terminal:
  "validate_event parse ev = Inr (Some t) \<longleftrightarrow>
     parse (raw_data ev) = Some (te_payload t) \<and> terminal_ok t \<and> name_kind ev \<in> {None, Some (te_kind t)}"
proof (cases "parse (raw_data ev)")
  case None
  then show ?thesis by (simp add: validate_event_cases)
next
  case (Some p)
  have "validate_event parse ev = Inr (Some t) \<longleftrightarrow>
    parse_terminal_payload p = Inr (Some t) \<and> name_kind ev \<in> {None, Some (te_kind t)}"
    using Some by (auto simp: validate_event_cases split: sum.split option.split)
  then show ?thesis using Some by (auto simp: parse_terminal_iff)
qed

text \<open>
  A record read from upstream is informational exactly when neither its event name nor its JSON type
  is a terminal one, it is terminal exactly when its payload is a valid terminal event that its event
  name does not contradict, and everything else is an error: no malformed or contradictory terminal is
  ever taken for an informational record.
\<close>

theorem sse_event_classified:
  "case validate_event parse ev of
     Inr None \<Rightarrow> name_kind ev = None \<and> payload_kind parse ev = None
   | Inr (Some t) \<Rightarrow> parse (raw_data ev) = Some (te_payload t) \<and> terminal_ok t \<and>
       payload_kind parse ev = Some (te_kind t) \<and> name_kind ev \<in> {None, Some (te_kind t)}
   | Inl _ \<Rightarrow> \<not> (name_kind ev = None \<and> payload_kind parse ev = None) \<and>
       \<not> (\<exists>t. parse (raw_data ev) = Some (te_payload t) \<and> terminal_ok t \<and>
            name_kind ev \<in> {None, Some (te_kind t)})"
proof (cases "validate_event parse ev")
  case (Inl e)
  then show ?thesis
    using validate_event_informational [of parse ev] validate_event_terminal [of parse ev] by auto
next
  case (Inr r)
  then show ?thesis
    using validate_event_informational [of parse ev] validate_event_terminal [of parse ev "the r"]
    by (cases r) (auto simp: payload_kind_def terminal_ok_kind)
qed

lemma sse_next_progress: "sse_next parse reader = (r, reader') \<Longrightarrow> reader' = tl reader"
  by (cases reader rule: list.exhaust) (auto simp: sse_next_def split: sum.splits)

lemma sse_next_terminal_ok:
  assumes "sse_next parse reader = (Inr (SseEvent ev), reader')" "sse_terminal ev = Some t"
  shows "terminal_ok t \<and> parse (sse_data ev) = Some (te_payload t)"
  using assms by (auto simp: sse_next_def result_simps validate_event_terminal split: list.splits sum.splits)

end
