(* ===== verification/Chat_Request.thy ===== *)
theory Chat_Request
  imports Config Terminal
begin

text \<open>
  Chat Completions requests and their conversion to the Responses wire format (the request half of
  \<open>src/chat.rs\<close>), with the fields removed one by one in the order of the code, so that what is left
  over is what is refused. Messages, tools and content parts keep the paths their errors name.
\<close>

section \<open>Errors and field access\<close>

datatype ChatErrorKind = InvalidRequest | UpstreamProtocol

record chat_error =
  ce_kind :: ChatErrorKind
  ce_param :: "string option"
  ce_message :: string

definition chat_invalid :: "string \<Rightarrow> string \<Rightarrow> chat_error" where
  "chat_invalid param message = \<lparr>ce_kind = InvalidRequest, ce_param = Some param, ce_message = message\<rparr>"

definition chat_upstream :: "string \<Rightarrow> chat_error" where
  "chat_upstream message = \<lparr>ce_kind = UpstreamProtocol, ce_param = None, ce_message = message\<rparr>"

record converted_request =
  cq_upstream_request :: json
  cq_model :: string
  cq_reasoning_effort :: "string option"
  cq_stream :: bool
  cq_include_usage :: bool

definition into_request_object :: "json \<Rightarrow> string \<Rightarrow> chat_error + jobject" where
  "into_request_object value param =
     ok_or (chat_invalid param (param @ '' must be a JSON object'')) (as_object value)"

text \<open>The conversions that name the path only say \<open>an object\<close>.\<close>

definition request_object_at :: "json \<Rightarrow> string \<Rightarrow> chat_error + jobject" where
  "request_object_at value context =
     ok_or (chat_invalid context (context @ '' must be an object'')) (as_object value)"

definition take_request_string ::
  "jobject \<Rightarrow> string \<Rightarrow> string \<Rightarrow> chat_error + (string \<times> jobject)" where
  "take_request_string object field param =
     res_bind (ok_or (chat_invalid param (param @ '' must be a string''))
         (opt_bind (map_of object field) as_str)) (\<lambda>s.
     Inr (s, bmap_remove field object))"

text \<open>\<open>object.remove(field).ok_or_else(.. is required)\<close>\<close>

definition take_required :: "jobject \<Rightarrow> string \<Rightarrow> string \<Rightarrow> chat_error + (json \<times> jobject)" where
  "take_required object field param =
     res_bind (ok_or (chat_invalid param (param @ '' is required'')) (map_of object field)) (\<lambda>v.
     Inr (v, bmap_remove field object))"

definition request_bool :: "json \<Rightarrow> string \<Rightarrow> chat_error + bool" where
  "request_bool value param = ok_or (chat_invalid param (param @ '' must be a boolean'')) (as_bool value)"

definition reject_unknown_request_fields :: "jobject \<Rightarrow> string \<Rightarrow> chat_error + unit" where
  "reject_unknown_request_fields object context =
     (case object of
        [] \<Rightarrow> Inr ()
      | (field, _) # _ \<Rightarrow>
          (let param = (if context = ''request'' then field else context @ ''.'' @ field)
           in Inl (chat_invalid param (''unsupported field '' @ param))))"

section \<open>Scalar options\<close>

definition convert_stream_options :: "json \<Rightarrow> bool \<Rightarrow> chat_error + bool" where
  "convert_stream_options value stream =
     (if \<not> stream
      then Inl (chat_invalid ''stream_options'' ''stream_options requires stream to be true'')
      else
        res_bind (into_request_object value ''stream_options'') (\<lambda>options.
        res_bind (res_opt (\<lambda>v. request_bool v ''stream_options.include_usage'')
            (map_of options ''include_usage'')) (\<lambda>include_usage.
        res_bind (reject_unknown_request_fields (bmap_remove ''include_usage'' options) ''stream_options'') (\<lambda>_.
        Inr (case include_usage of None \<Rightarrow> False | Some b \<Rightarrow> b)))))"

definition validate_ignored_completion_limit :: "json \<Rightarrow> string \<Rightarrow> chat_error + unit" where
  "validate_ignored_completion_limit value field =
     (if is_null value then Inr ()
      else if (case as_u64 value of None \<Rightarrow> False | Some limit \<Rightarrow> 0 < limit) then Inr ()
      else Inl (chat_invalid field (field @ '' must be a positive integer or null'')))"

definition convert_response_format :: "json \<Rightarrow> chat_error + json option" where
  "convert_response_format value =
     (if is_null value then Inr None
      else
        res_bind (into_request_object value ''response_format'') (\<lambda>rf.
        res_bind (take_request_string rf ''type'' ''response_format.type'') (\<lambda>(format_type, rf).
        res_bind
          (if format_type = ''text'' \<or> format_type = ''json_object'' then
             res_bind (reject_unknown_request_fields rf ''response_format'') (\<lambda>_.
             Inr (jobj [(''type'', JStr format_type)]))
           else if format_type = ''json_schema'' then
             res_bind (take_required rf ''json_schema'' ''response_format.json_schema'') (\<lambda>(schema, rf).
             res_bind (reject_unknown_request_fields rf ''response_format'') (\<lambda>_.
             res_bind (into_request_object schema ''response_format.json_schema'') (\<lambda>schema.
             Inr (JObj (bmap_insert ''type'' (JStr ''json_schema'') schema)))))
           else Inl (chat_invalid ''response_format.type'' ''unsupported response_format.type'')) (\<lambda>format.
        Inr (Some (jobj [(''format'', format)]))))))"

definition convert_reasoning_effort :: "json \<Rightarrow> chat_error + string option" where
  "convert_reasoning_effort value =
     (if is_null value then Inr None
      else
        res_bind (ok_or (chat_invalid ''reasoning_effort'' ''reasoning_effort must be a string or null'')
            (as_str value)) (\<lambda>effort.
        if effort \<in> {''none'', ''minimal'', ''low'', ''medium'', ''high'', ''xhigh'', ''max'', ''ultra''}
        then Inr (Some effort)
        else Inl (chat_invalid ''reasoning_effort'' ''unsupported reasoning_effort'')))"

section \<open>Text content\<close>

definition parse_text_part :: "string \<Rightarrow> nat \<Rightarrow> json \<Rightarrow> chat_error + string" where
  "parse_text_part param index part =
     (let context = param @ ''['' @ show_nat index @ '']'' in
      res_bind (into_request_object part context) (\<lambda>part.
      res_bind (take_request_string part ''type'' (context @ ''.type'')) (\<lambda>(part_type, part).
      if part_type \<noteq> ''text''
      then Inl (chat_invalid (context @ ''.type'') (''unsupported content type '' @ part_type))
      else
        res_bind (take_request_string part ''text'' (context @ ''.text'')) (\<lambda>(text, part).
        res_bind (reject_unknown_request_fields part context) (\<lambda>_.
        Inr text)))))"

definition parse_text_parts :: "json \<Rightarrow> string \<Rightarrow> chat_error + string list" where
  "parse_text_parts value param =
     (case value of
        JStr text \<Rightarrow> Inr [text]
      | JArr parts \<Rightarrow>
          if parts = [] then Inl (chat_invalid param (param @ '' must contain at least one text part''))
          else res_map_from 0 (parse_text_part param) parts
      | _ \<Rightarrow> Inl (chat_invalid param (param @ '' must be a string or an array of text parts'')))"

definition convert_text_content :: "json \<Rightarrow> string \<Rightarrow> string \<Rightarrow> chat_error + json list" where
  "convert_text_content value param responses_type =
     res_bind (parse_text_parts value param) (\<lambda>texts.
     Inr (map (\<lambda>t. jobj [(''type'', JStr responses_type), (''text'', JStr t)]) texts))"

text \<open>\<open>texts.join(sep)\<close>\<close>

fun join :: "string \<Rightarrow> string list \<Rightarrow> string" where
  "join sep [] = []"
| "join sep [x] = x"
| "join sep (x # y # ys) = x @ sep @ join sep (y # ys)"

section \<open>Messages\<close>

definition message_item :: "string \<Rightarrow> json list \<Rightarrow> json" where
  "message_item role parts =
     jobj [(''type'', JStr ''message''), (''role'', JStr role), (''content'', JArr parts)]"

definition function_call_item :: "string \<Rightarrow> string \<Rightarrow> string \<Rightarrow> json" where
  "function_call_item call_id name arguments =
     jobj [(''type'', JStr ''function_call''), (''call_id'', JStr call_id), (''name'', JStr name),
       (''arguments'', JStr arguments)]"

definition function_call_output_item :: "string \<Rightarrow> string \<Rightarrow> json" where
  "function_call_output_item call_id output =
     jobj [(''type'', JStr ''function_call_output''), (''call_id'', JStr call_id), (''output'', JStr output)]"

definition convert_assistant_tool_call :: "json \<Rightarrow> string \<Rightarrow> chat_error + json" where
  "convert_assistant_tool_call value context =
     res_bind (request_object_at value context) (\<lambda>call.
     res_bind (take_request_string call ''id'' (context @ ''.id'')) (\<lambda>(id, call).
     res_bind (take_request_string call ''type'' (context @ ''.type'')) (\<lambda>(call_type, call).
     if call_type \<noteq> ''function''
     then Inl (chat_invalid (context @ ''.type'') ''only function tool calls are supported'')
     else
       res_bind (take_required call ''function'' (context @ ''.function'')) (\<lambda>(function_value, call).
       res_bind (reject_unknown_request_fields call context) (\<lambda>_.
       let fc = context @ ''.function'' in
       res_bind (into_request_object function_value fc) (\<lambda>f.
       res_bind (take_request_string f ''name'' (fc @ ''.name'')) (\<lambda>(name, f).
       res_bind (take_request_string f ''arguments'' (fc @ ''.arguments'')) (\<lambda>(arguments, f).
       res_bind (reject_unknown_request_fields f fc) (\<lambda>_.
       Inr (function_call_item id name arguments))))))))))"

text \<open>The two parts of an assistant message, each with the items it adds to the input.\<close>

definition assistant_text_items :: "json option \<Rightarrow> string \<Rightarrow> chat_error + json list" where
  "assistant_text_items content context =
     (case opt_filter (\<lambda>c. \<not> is_null c) content of
        None \<Rightarrow> Inr []
      | Some c \<Rightarrow>
          res_bind (convert_text_content c (context @ ''.content'') ''output_text'') (\<lambda>parts.
          Inr [message_item ''assistant'' parts]))"

definition assistant_call_items :: "json option \<Rightarrow> string \<Rightarrow> chat_error + json list" where
  "assistant_call_items tool_calls context =
     (case opt_filter (\<lambda>c. \<not> is_null c) tool_calls of
        None \<Rightarrow> Inr []
      | Some c \<Rightarrow>
          res_bind (ok_or (chat_invalid (context @ ''.tool_calls'')
              (context @ ''.tool_calls must be an array'')) (as_array c)) (\<lambda>calls.
          if calls = []
          then Inl (chat_invalid (context @ ''.tool_calls'') (context @ ''.tool_calls must not be empty''))
          else
            res_map_from 0
              (\<lambda>index call. convert_assistant_tool_call call
                 (context @ ''.tool_calls['' @ show_nat index @ '']'')) calls))"

definition convert_assistant_message :: "jobject \<Rightarrow> string \<Rightarrow> json list \<Rightarrow> chat_error + json list" where
  "convert_assistant_message message context input =
     (let content = map_of message ''content'';
          tool_calls = map_of (bmap_remove ''content'' message) ''tool_calls''
      in
        res_bind (reject_unknown_request_fields
            (bmap_remove ''tool_calls'' (bmap_remove ''content'' message)) context) (\<lambda>_.
        res_bind (assistant_text_items content context) (\<lambda>texts.
        res_bind (assistant_call_items tool_calls context) (\<lambda>calls.
        if texts @ calls = []
        then Inl (chat_invalid (context @ ''.content'')
          ''assistant message must contain text or function tool calls'')
        else Inr (input @ texts @ calls)))))"

definition convert_tool_message :: "jobject \<Rightarrow> string \<Rightarrow> json list \<Rightarrow> chat_error + json list" where
  "convert_tool_message message context input =
     res_bind (take_request_string message ''tool_call_id'' (context @ ''.tool_call_id'')) (\<lambda>(call_id, message).
     res_bind (take_required message ''content'' (context @ ''.content'')) (\<lambda>(content, message).
     res_bind (reject_unknown_request_fields message context) (\<lambda>_.
     res_bind (parse_text_parts content (context @ ''.content'')) (\<lambda>texts.
     Inr (input @ [function_call_output_item call_id (concat texts)])))))"

text \<open>One turn of the loop of \<open>convert_messages\<close>: the system texts and the input so far.\<close>

definition convert_message ::
  "nat \<Rightarrow> json \<Rightarrow> string list \<times> json list \<Rightarrow> chat_error + (string list \<times> json list)" where
  "convert_message index value acc =
     (let context = ''messages['' @ show_nat index @ '']'';
          (system_messages, input) = acc
      in
        res_bind (request_object_at value context) (\<lambda>message.
        res_bind (take_request_string message ''role'' (context @ ''.role'')) (\<lambda>(role, message).
        if role = ''system'' then
          res_bind (take_required message ''content'' (context @ ''.content'')) (\<lambda>(content, message).
          res_bind (reject_unknown_request_fields message context) (\<lambda>_.
          res_bind (parse_text_parts content (context @ ''.content'')) (\<lambda>texts.
          Inr (system_messages @ [join [CHR 0x0A] texts], input))))
        else if role = ''developer'' \<or> role = ''user'' then
          res_bind (take_required message ''content'' (context @ ''.content'')) (\<lambda>(content, message).
          res_bind (reject_unknown_request_fields message context) (\<lambda>_.
          res_bind (convert_text_content content (context @ ''.content'') ''input_text'') (\<lambda>parts.
          Inr (system_messages, input @ [message_item role parts]))))
        else if role = ''assistant'' then
          res_bind (convert_assistant_message message context input) (\<lambda>input.
          Inr (system_messages, input))
        else if role = ''tool'' then
          res_bind (convert_tool_message message context input) (\<lambda>input.
          Inr (system_messages, input))
        else if role = ''function'' then
          Inl (chat_invalid (context @ ''.role'') ''legacy function-role messages are not supported'')
        else
          Inl (chat_invalid (context @ ''.role'') (''unsupported message role '' @ role)))))"

fun convert_messages_from ::
  "nat \<Rightarrow> json list \<Rightarrow> string list \<times> json list \<Rightarrow> chat_error + (string list \<times> json list)" where
  "convert_messages_from index [] acc = Inr acc"
| "convert_messages_from index (m # ms) acc =
     res_bind (convert_message index m acc) (\<lambda>acc'. convert_messages_from (Suc index) ms acc')"

definition convert_messages :: "json \<Rightarrow> chat_error + (string option \<times> json list)" where
  "convert_messages value =
     res_bind (ok_or (chat_invalid ''messages'' ''messages must be an array'') (as_array value)) (\<lambda>messages.
     if messages = []
     then Inl (chat_invalid ''messages'' ''messages must contain at least one message'')
     else
       res_bind (convert_messages_from 0 messages ([], [])) (\<lambda>(system_messages, input).
       Inr (if system_messages = [] then None else Some (join [CHR 0x0A] system_messages), input)))"

section \<open>Tools\<close>

definition insert_opt :: "string \<Rightarrow> json option \<Rightarrow> jobject \<Rightarrow> jobject" where
  "insert_opt k v m = (case v of None \<Rightarrow> m | Some w \<Rightarrow> bmap_insert k w m)"

definition convert_tool :: "string \<Rightarrow> json \<Rightarrow> chat_error + json" where
  "convert_tool context value =
     res_bind (request_object_at value context) (\<lambda>tool.
     res_bind (take_request_string tool ''type'' (context @ ''.type'')) (\<lambda>(tool_type, tool).
     if tool_type \<noteq> ''function''
     then Inl (chat_invalid (context @ ''.type'') ''only function tools are supported'')
     else
       res_bind (take_required tool ''function'' (context @ ''.function'')) (\<lambda>(function_value, tool).
       res_bind (reject_unknown_request_fields tool context) (\<lambda>_.
       let fc = context @ ''.function'' in
       res_bind (into_request_object function_value fc) (\<lambda>f.
       res_bind (take_request_string f ''name'' (fc @ ''.name'')) (\<lambda>(name, f).
       res_bind
         (case map_of f ''parameters'' of
            None \<Rightarrow> Inr JNull
          | Some JNull \<Rightarrow> Inr JNull
          | Some (JObj p) \<Rightarrow> Inr (JObj p)
          | Some _ \<Rightarrow> Inl (chat_invalid (fc @ ''.parameters'')
              (fc @ ''.parameters must be an object or null''))) (\<lambda>parameters.
       let f = bmap_remove ''parameters'' f in
       res_bind
         (res_opt (\<lambda>v. ok_or (chat_invalid (fc @ ''.description'')
             (fc @ ''.description must be a string'')) (as_str v)) (map_of f ''description'')) (\<lambda>description.
       let f = bmap_remove ''description'' f in
       res_bind
         (case map_of f ''strict'' of
            None \<Rightarrow> Inr False
          | Some JNull \<Rightarrow> Inr False
          | Some v \<Rightarrow> request_bool v (fc @ ''.strict'')) (\<lambda>strict.
       res_bind (reject_unknown_request_fields (bmap_remove ''strict'' f) fc) (\<lambda>_.
       Inr (JObj
         (bmap_insert ''strict'' (JBool strict)
         (bmap_insert ''parameters'' parameters
         (insert_opt ''description'' (map_option JStr description)
         (bmap_insert ''name'' (JStr name)
         (bmap_insert ''type'' (JStr ''function'') []))))))))))))))))"

definition convert_tools :: "json \<Rightarrow> chat_error + json" where
  "convert_tools value =
     res_bind (ok_or (chat_invalid ''tools'' ''tools must be an array'') (as_array value)) (\<lambda>tools.
     res_bind (res_map_from 0 (\<lambda>index. convert_tool (''tools['' @ show_nat index @ '']'')) tools) (\<lambda>converted.
     Inr (JArr converted)))"

definition convert_tool_choice :: "json \<Rightarrow> chat_error + json" where
  "convert_tool_choice value =
     (case value of
        JStr choice \<Rightarrow>
          if choice \<in> {''none'', ''auto'', ''required''} then Inr (JStr choice)
          else Inl (chat_invalid ''tool_choice''
            ''tool_choice must be none, auto, required, or a named function'')
      | JObj choice \<Rightarrow>
          res_bind (take_request_string choice ''type'' ''tool_choice.type'') (\<lambda>(choice_type, choice).
          if choice_type \<noteq> ''function''
          then Inl (chat_invalid ''tool_choice.type'' ''only named function tool_choice objects are supported'')
          else
            res_bind (take_required choice ''function'' ''tool_choice.function'') (\<lambda>(function_value, choice).
            res_bind (reject_unknown_request_fields choice ''tool_choice'') (\<lambda>_.
            res_bind (into_request_object function_value ''tool_choice.function'') (\<lambda>f.
            res_bind (take_request_string f ''name'' ''tool_choice.function.name'') (\<lambda>(name, f).
            res_bind (reject_unknown_request_fields f ''tool_choice.function'') (\<lambda>_.
            Inr (jobj [(''type'', JStr ''function''), (''name'', JStr name)])))))))
      | _ \<Rightarrow> Inl (chat_invalid ''tool_choice'' ''tool_choice must be a string or named function object''))"

section \<open>The request\<close>

definition convert_stream_flag :: "json option \<Rightarrow> chat_error + bool" where
  "convert_stream_flag value =
     (case value of
        None \<Rightarrow> Inr False
      | Some JNull \<Rightarrow> Inr False
      | Some (JBool b) \<Rightarrow> Inr b
      | Some _ \<Rightarrow> Inl (chat_invalid ''stream'' ''stream must be a boolean or null''))"

definition convert_n :: "json option \<Rightarrow> chat_error + unit" where
  "convert_n value =
     (case value of
        None \<Rightarrow> Inr ()
      | Some v \<Rightarrow>
          if v = JNull \<or> as_u64 v = Some 1 then Inr ()
          else Inl (chat_invalid ''n'' ''n must be one or null''))"

definition opt_flatten :: "'a option option \<Rightarrow> 'a option" where
  "opt_flatten x = (case x of None \<Rightarrow> None | Some y \<Rightarrow> y)"

text \<open>The Responses request, field by field in the order of the insertions.\<close>

definition upstream_object ::
  "string \<Rightarrow> json list \<Rightarrow> string option \<Rightarrow> json option \<Rightarrow> json option \<Rightarrow> bool option \<Rightarrow>
     string option \<Rightarrow> json option \<Rightarrow> jobject" where
  "upstream_object model input instructions tools tool_choice parallel effort text =
     insert_opt ''text'' text
     (insert_opt ''reasoning'' (map_option (\<lambda>e. jobj [(''effort'', JStr e)]) effort)
     (insert_opt ''parallel_tool_calls'' (map_option JBool parallel)
     (insert_opt ''tool_choice'' tool_choice
     (insert_opt ''tools'' tools
     (insert_opt ''instructions'' (map_option JStr instructions)
     (bmap_insert ''store'' (JBool False)
     (bmap_insert ''stream'' (JBool True)
     (bmap_insert ''input'' (JArr input)
     (bmap_insert ''model'' (JStr model) [])))))))))"

definition convert_request :: "json \<Rightarrow> chat_error + converted_request" where
  "convert_request value =
     res_bind (into_request_object value ''request'') (\<lambda>req.
     res_bind (take_request_string req ''model'' ''model'') (\<lambda>(model, req).
     if model = [] then Inl (chat_invalid ''model'' ''model must not be empty'')
     else
       res_bind (take_required req ''messages'' ''messages'') (\<lambda>(messages, req).
       res_bind (convert_stream_flag (map_of req ''stream'')) (\<lambda>stream.
       let req = bmap_remove ''stream'' req in
       res_bind (res_opt (\<lambda>v. convert_stream_options v stream) (map_of req ''stream_options'')) (\<lambda>iu.
       let include_usage = (case iu of None \<Rightarrow> False | Some b \<Rightarrow> b);
           req = bmap_remove ''stream_options'' req in
       res_bind (convert_n (map_of req ''n'')) (\<lambda>_.
       let req = bmap_remove ''n'' req in
       res_bind (res_opt convert_tools (map_of req ''tools'')) (\<lambda>tools.
       let req = bmap_remove ''tools'' req in
       if stream \<and> tools \<noteq> None
       then Inl (chat_invalid ''tools'' ''tools are not supported with streaming Chat Completions'')
       else
         res_bind (res_opt convert_tool_choice (map_of req ''tool_choice'')) (\<lambda>tool_choice.
         let req = bmap_remove ''tool_choice'' req in
         res_bind (res_opt (\<lambda>v. request_bool v ''parallel_tool_calls'')
             (map_of req ''parallel_tool_calls'')) (\<lambda>parallel.
         let req = bmap_remove ''parallel_tool_calls'' req in
         res_bind (res_opt convert_reasoning_effort (map_of req ''reasoning_effort'')) (\<lambda>effort.
         let effort = opt_flatten effort;
             req = bmap_remove ''reasoning_effort'' req in
         res_bind (res_opt (\<lambda>v. validate_ignored_completion_limit v ''max_completion_tokens'')
             (map_of req ''max_completion_tokens'')) (\<lambda>_.
         let req = bmap_remove ''max_completion_tokens'' req in
         res_bind (res_opt (\<lambda>v. validate_ignored_completion_limit v ''max_tokens'')
             (map_of req ''max_tokens'')) (\<lambda>_.
         let req = bmap_remove ''max_tokens'' req in
         res_bind (res_opt convert_response_format (map_of req ''response_format'')) (\<lambda>text.
         let text = opt_flatten text;
             req = bmap_remove ''response_format'' req in
         res_bind (reject_unknown_request_fields req ''request'') (\<lambda>_.
         res_bind (convert_messages messages) (\<lambda>(instructions, input).
         Inr \<lparr>cq_upstream_request =
                JObj (upstream_object model input instructions tools tool_choice parallel effort text),
              cq_model = model, cq_reasoning_effort = effort, cq_stream = stream,
              cq_include_usage = include_usage\<rparr>)))))))))))))))"

section \<open>Reading an object field by field\<close>

named_theorems request_simps \<open>inversion of the field-taking operations\<close>

lemma into_request_object_Inr [request_simps]: "into_request_object v p = Inr m \<longleftrightarrow> v = JObj m"
  by (simp add: into_request_object_def result_simps)

lemma request_object_at_Inr [request_simps]: "request_object_at v p = Inr m \<longleftrightarrow> v = JObj m"
  by (simp add: request_object_at_def result_simps)

lemma take_request_string_Inr [request_simps]:
  "take_request_string m f p = Inr r \<longleftrightarrow> (\<exists>s. map_of m f = Some (JStr s) \<and> r = (s, bmap_remove f m))"
  by (auto simp: take_request_string_def result_simps)

lemma take_required_Inr [request_simps]:
  "take_required m f p = Inr r \<longleftrightarrow> (\<exists>v. map_of m f = Some v \<and> r = (v, bmap_remove f m))"
  by (auto simp: take_required_def result_simps)

lemma reject_unknown_Inr [request_simps]: "reject_unknown_request_fields m c = Inr u \<longleftrightarrow> m = []"
  by (auto simp: reject_unknown_request_fields_def Let_def split: list.splits)

lemma request_bool_Inr [request_simps]: "request_bool v p = Inr b \<longleftrightarrow> v = JBool b"
  by (simp add: request_bool_def result_simps)

text \<open>What is left after removing some fields is empty when the object has no other field.\<close>

lemma removed_all: "bmap_remove k m = [] \<longleftrightarrow> (map_of m)(k := None) = Map.empty"
  using map_of_None_iff_bmap_Nil [of "bmap_remove k m"] by simp

lemma dom_removed: "dom (map_of (bmap_remove k m)) = dom (map_of m) - {k}"
  by simp

lemma removed_dom: "bmap_remove k m = [] \<longleftrightarrow> dom (map_of m) \<subseteq> {k}"
  using map_of_None_iff_bmap_Nil [of "bmap_remove k m"] dom_removed [of k m]
  by (simp only: dom_eq_empty_conv [symmetric]) blast

lemma fields2:
  assumes "k \<noteq> l"
  shows "map_of m k = Some a \<and> map_of m l = Some b \<and> bmap_remove l (bmap_remove k m) = [] \<longleftrightarrow>
    map_of m = [k \<mapsto> a, l \<mapsto> b]"
  unfolding removed_all using assms by (auto simp: fun_eq_iff split: if_splits)

lemma fields3:
  assumes "j \<noteq> k" "j \<noteq> l" "k \<noteq> l"
  shows "map_of m j = Some a \<and> map_of m k = Some b \<and> map_of m l = Some c \<and>
      bmap_remove l (bmap_remove k (bmap_remove j m)) = [] \<longleftrightarrow>
    map_of m = [j \<mapsto> a, k \<mapsto> b, l \<mapsto> c]"
  unfolding removed_all using assms by (auto simp: fun_eq_iff split: if_splits)

section \<open>Messages, declaratively\<close>

text \<open>
  A message as a client means it: its role with the texts it carries, the function calls of an
  assistant, or the result of a tool call. \<open>text_form\<close> and \<open>message_form\<close> say which JSON stands for
  which message; a single text may be a plain string.
\<close>

datatype tool_call = ToolCall (tc_id: string) (tc_name: string) (tc_arguments: string)

datatype chat_message =
    SystemMsg "string list"
  | InputMsg string "string list"
  | AssistantMsg "string list option" "tool_call list"
  | ToolMsg string "string list"

definition text_part_form :: "string \<Rightarrow> json \<Rightarrow> bool" where
  "text_part_form t v \<longleftrightarrow> (\<exists>m. v = JObj m \<and> map_of m = [''type'' \<mapsto> JStr ''text'', ''text'' \<mapsto> JStr t])"

definition text_form :: "string list \<Rightarrow> json \<Rightarrow> bool" where
  "text_form texts v \<longleftrightarrow>
     (\<exists>t. texts = [t] \<and> v = JStr t) \<or>
     (\<exists>vs. v = JArr vs \<and> vs \<noteq> [] \<and> list_all2 text_part_form texts vs)"

definition tool_call_form :: "tool_call \<Rightarrow> json \<Rightarrow> bool" where
  "tool_call_form c v \<longleftrightarrow>
     (\<exists>m f. v = JObj m \<and>
        map_of m = [''id'' \<mapsto> JStr (tc_id c), ''type'' \<mapsto> JStr ''function'', ''function'' \<mapsto> JObj f] \<and>
        map_of f = [''name'' \<mapsto> JStr (tc_name c), ''arguments'' \<mapsto> JStr (tc_arguments c)])"

definition tool_calls_form :: "tool_call list \<Rightarrow> json option \<Rightarrow> bool" where
  "tool_calls_form cs v \<longleftrightarrow>
     (if cs = [] then v = None \<or> v = Some JNull
      else \<exists>vs. v = Some (JArr vs) \<and> list_all2 tool_call_form cs vs)"

definition content_form :: "string list option \<Rightarrow> json option \<Rightarrow> bool" where
  "content_form ts v \<longleftrightarrow>
     (case ts of
        None \<Rightarrow> v = None \<or> v = Some JNull
      | Some texts \<Rightarrow> \<exists>c. v = Some c \<and> text_form texts c)"

definition message_form :: "chat_message \<Rightarrow> json \<Rightarrow> bool" where
  "message_form msg v \<longleftrightarrow> (\<exists>m. v = JObj m \<and>
     (case msg of
        SystemMsg ts \<Rightarrow>
          (\<exists>c. text_form ts c \<and> map_of m = [''role'' \<mapsto> JStr ''system'', ''content'' \<mapsto> c])
      | InputMsg role ts \<Rightarrow> role \<in> {''developer'', ''user''} \<and>
          (\<exists>c. text_form ts c \<and> map_of m = [''role'' \<mapsto> JStr role, ''content'' \<mapsto> c])
      | AssistantMsg ts cs \<Rightarrow>
          map_of m ''role'' = Some (JStr ''assistant'') \<and>
          dom (map_of m) \<subseteq> {''role'', ''content'', ''tool_calls''} \<and>
          content_form ts (map_of m ''content'') \<and>
          tool_calls_form cs (map_of m ''tool_calls'') \<and> (ts \<noteq> None \<or> cs \<noteq> [])
      | ToolMsg i ts \<Rightarrow>
          (\<exists>c. text_form ts c \<and>
             map_of m = [''role'' \<mapsto> JStr ''tool'', ''tool_call_id'' \<mapsto> JStr i, ''content'' \<mapsto> c])))"

text \<open>The Responses input items of a message, and its contribution to the instructions.\<close>

definition text_items :: "string \<Rightarrow> string list \<Rightarrow> json list" where
  "text_items ty texts = map (\<lambda>t. jobj [(''type'', JStr ty), (''text'', JStr t)]) texts"

definition tool_call_item :: "tool_call \<Rightarrow> json" where
  "tool_call_item c = function_call_item (tc_id c) (tc_name c) (tc_arguments c)"

definition assistant_text :: "string list option \<Rightarrow> json list" where
  "assistant_text ts =
     (case ts of
        None \<Rightarrow> []
      | Some texts \<Rightarrow> [message_item ''assistant'' (text_items ''output_text'' texts)])"

fun message_items :: "chat_message \<Rightarrow> json list" where
  "message_items (SystemMsg ts) = []"
| "message_items (InputMsg role ts) = [message_item role (text_items ''input_text'' ts)]"
| "message_items (AssistantMsg ts cs) =
     assistant_text ts @ map tool_call_item cs"
| "message_items (ToolMsg i ts) = [function_call_output_item i (concat ts)]"

fun system_texts :: "chat_message \<Rightarrow> string list" where
  "system_texts (SystemMsg ts) = [join [CHR 0x0A] ts]"
| "system_texts _ = []"

lemma res_map_from_forms:
  assumes form: "\<And>i x y. f i x = Inr y \<longleftrightarrow> (\<exists>a. form a x \<and> y = g a)"
  shows "res_map_from i f xs = Inr ys \<longleftrightarrow> (\<exists>as. list_all2 form as xs \<and> ys = map g as)"
proof (induction xs arbitrary: i ys)
  case (Cons x xs)
  have "res_map_from i f (x # xs) = Inr ys \<longleftrightarrow>
    (\<exists>a as. form a x \<and> list_all2 form as xs \<and> ys = g a # map g as)"
    unfolding res_map_from_Cons_iff Cons.IH form by blast
  also have "\<dots> \<longleftrightarrow> (\<exists>as. list_all2 form as (x # xs) \<and> ys = map g as)"
    unfolding list_all2_Cons2 by fastforce
  finally show ?case .
qed auto

lemma parse_text_part_Inr:
  "parse_text_part p i v = Inr t \<longleftrightarrow> (\<exists>a. text_part_form a v \<and> t = id a)"
proof -
  have "parse_text_part p i v = Inr t \<longleftrightarrow> (\<exists>m. v = JObj m \<and>
    map_of m ''type'' = Some (JStr ''text'') \<and> map_of m ''text'' = Some (JStr t) \<and>
    bmap_remove ''text'' (bmap_remove ''type'' m) = [])"
    by (auto simp: parse_text_part_def Let_def result_simps request_simps split: if_splits)
  then show ?thesis by (simp add: fields2 text_part_form_def)
qed

lemma parse_text_parts_Inr: "parse_text_parts v p = Inr ts \<longleftrightarrow> text_form ts v"
  using res_map_from_forms [of "parse_text_part p", OF parse_text_part_Inr]
  by (cases v) (auto simp: parse_text_parts_def text_form_def)

lemma convert_text_content_Inr:
  "convert_text_content v p ty = Inr parts \<longleftrightarrow> (\<exists>ts. text_form ts v \<and> parts = text_items ty ts)"
  by (auto simp: convert_text_content_def result_simps parse_text_parts_Inr text_items_def)

lemma convert_assistant_tool_call_Inr:
  "convert_assistant_tool_call v ctx = Inr item \<longleftrightarrow> (\<exists>c. tool_call_form c v \<and> item = tool_call_item c)"
proof -
  have "convert_assistant_tool_call v ctx = Inr item \<longleftrightarrow> (\<exists>m f i n a. v = JObj m \<and>
    (map_of m ''id'' = Some (JStr i) \<and> map_of m ''type'' = Some (JStr ''function'') \<and>
     map_of m ''function'' = Some (JObj f) \<and>
     bmap_remove ''function'' (bmap_remove ''type'' (bmap_remove ''id'' m)) = []) \<and>
    (map_of f ''name'' = Some (JStr n) \<and> map_of f ''arguments'' = Some (JStr a) \<and>
     bmap_remove ''arguments'' (bmap_remove ''name'' f) = []) \<and> item = function_call_item i n a)"
    by (auto simp: convert_assistant_tool_call_def Let_def result_simps request_simps split: if_splits)
  also have "\<dots> \<longleftrightarrow> (\<exists>m f i n a. v = JObj m \<and>
    map_of m = [''id'' \<mapsto> JStr i, ''type'' \<mapsto> JStr ''function'', ''function'' \<mapsto> JObj f] \<and>
    map_of f = [''name'' \<mapsto> JStr n, ''arguments'' \<mapsto> JStr a] \<and> item = function_call_item i n a)"
    by (simp add: fields2 fields3)
  also have "\<dots> \<longleftrightarrow> (\<exists>c. tool_call_form c v \<and> item = tool_call_item c)"
    unfolding tool_call_form_def tool_call_item_def by (metis tool_call.sel)
  finally show ?thesis .
qed

lemma assistant_text_items_Inr:
  "assistant_text_items c ctx = Inr items \<longleftrightarrow> (\<exists>ts. content_form ts c \<and> items = assistant_text ts)"
proof -
  have "\<not> text_form ts JNull" for ts by (simp add: text_form_def)
  then show ?thesis
    by (cases c) (auto simp: assistant_text_items_def is_null_def result_simps convert_text_content_Inr
        content_form_def assistant_text_def split: option.splits)
qed

lemma assistant_call_items_Inr:
  "assistant_call_items c ctx = Inr items \<longleftrightarrow> (\<exists>cs. tool_calls_form cs c \<and> items = map tool_call_item cs)"
proof -
  have calls: "res_map_from 0 (\<lambda>index call. convert_assistant_tool_call call
      (ctx @ ''.tool_calls['' @ show_nat index @ '']'')) vs = Inr items \<longleftrightarrow>
    (\<exists>cs. list_all2 tool_call_form cs vs \<and> items = map tool_call_item cs)" for vs
    by (rule res_map_from_forms) (rule convert_assistant_tool_call_Inr)
  consider "c = None \<or> c = Some JNull" | vs where "c = Some (JArr vs)"
    | v where "c = Some v" "v \<noteq> JNull" "as_array v = None"
    by (cases c) (metis as_array_Some not_None_eq)+
  then show ?thesis
  proof cases
    case 1
    then show ?thesis by (auto simp: assistant_call_items_def tool_calls_form_def is_null_def)
  next
    case (2 vs)
    show ?thesis
    proof (cases "vs = []")
      case True
      with 2 show ?thesis by (auto simp: assistant_call_items_def tool_calls_form_def is_null_def)
    next
      case False
      then have form: "tool_calls_form cs c \<longleftrightarrow> list_all2 tool_call_form cs vs" for cs
        using 2 by (auto simp: tool_calls_form_def)
      have "assistant_call_items c ctx = res_map_from 0 (\<lambda>index call. convert_assistant_tool_call call
          (ctx @ ''.tool_calls['' @ show_nat index @ '']'')) vs"
        using 2 False by (simp add: assistant_call_items_def is_null_def)
      then show ?thesis by (simp only: calls form)
    qed
  next
    case (3 v)
    then show ?thesis by (auto simp: assistant_call_items_def tool_calls_form_def is_null_def)
  qed
qed

lemma convert_assistant_message_Inr:
  assumes "map_of m ''role'' = Some (JStr ''assistant'')"
  shows "convert_assistant_message (bmap_remove ''role'' m) ctx input = Inr input' \<longleftrightarrow>
    (\<exists>ts cs. message_form (AssistantMsg ts cs) (JObj m) \<and>
       input' = input @ message_items (AssistantMsg ts cs))"
proof -
  have fields: "bmap_remove ''tool_calls'' (bmap_remove ''content'' (bmap_remove ''role'' m)) = [] \<longleftrightarrow>
    dom (map_of m) \<subseteq> {''role'', ''content'', ''tool_calls''}"
    unfolding removed_dom dom_removed by auto
  have nonempty: "assistant_text ts @ map tool_call_item cs \<noteq> [] \<longleftrightarrow> ts \<noteq> None \<or> cs \<noteq> []" for ts cs
    by (auto simp: assistant_text_def split: option.split)
  have "convert_assistant_message (bmap_remove ''role'' m) ctx input = Inr input' \<longleftrightarrow>
    dom (map_of m) \<subseteq> {''role'', ''content'', ''tool_calls''} \<and>
    (\<exists>texts calls. assistant_text_items (map_of m ''content'') ctx = Inr texts \<and>
       assistant_call_items (map_of m ''tool_calls'') ctx = Inr calls \<and>
       texts @ calls \<noteq> [] \<and> input' = input @ texts @ calls)"
    by (auto simp: convert_assistant_message_def Let_def result_simps request_simps fields)
  also have "\<dots> \<longleftrightarrow> (\<exists>ts cs. dom (map_of m) \<subseteq> {''role'', ''content'', ''tool_calls''} \<and>
      content_form ts (map_of m ''content'') \<and> tool_calls_form cs (map_of m ''tool_calls'') \<and>
      (ts \<noteq> None \<or> cs \<noteq> []) \<and> input' = input @ assistant_text ts @ map tool_call_item cs)"
    unfolding assistant_text_items_Inr assistant_call_items_Inr using nonempty by metis
  also have "\<dots> \<longleftrightarrow> (\<exists>ts cs. message_form (AssistantMsg ts cs) (JObj m) \<and>
       input' = input @ message_items (AssistantMsg ts cs))"
    using assms by (simp add: message_form_def)
  finally show ?thesis .
qed

fun role_of :: "chat_message \<Rightarrow> string" where
  "role_of (SystemMsg ts) = ''system''"
| "role_of (InputMsg role ts) = role"
| "role_of (AssistantMsg ts cs) = ''assistant''"
| "role_of (ToolMsg i ts) = ''tool''"

lemma message_form_role:
  "message_form msg v \<Longrightarrow> \<exists>m. v = JObj m \<and> map_of m ''role'' = Some (JStr (role_of msg)) \<and>
     (case msg of InputMsg r _ \<Rightarrow> r \<in> {''developer'', ''user''} | _ \<Rightarrow> True)"
  by (cases msg) (auto simp: message_form_def)

lemma text_message_iff:
  assumes "map_of m ''role'' = Some (JStr r)"
  shows "map_of m ''content'' = Some c \<and> bmap_remove ''content'' (bmap_remove ''role'' m) = [] \<longleftrightarrow>
    map_of m = [''role'' \<mapsto> JStr r, ''content'' \<mapsto> c]"
  using fields2 [of "''role''" "''content''" m "JStr r" c] assms by simp

lemma tool_message_iff:
  assumes "map_of m ''role'' = Some (JStr ''tool'')"
  shows "convert_tool_message (bmap_remove ''role'' m) ctx input = Inr input' \<longleftrightarrow>
    (\<exists>i ts. message_form (ToolMsg i ts) (JObj m) \<and> input' = input @ message_items (ToolMsg i ts))"
proof -
  have "convert_tool_message (bmap_remove ''role'' m) ctx input = Inr input' \<longleftrightarrow>
    (\<exists>i ts c. text_form ts c \<and>
       (map_of m ''role'' = Some (JStr ''tool'') \<and> map_of m ''tool_call_id'' = Some (JStr i) \<and>
        map_of m ''content'' = Some c \<and>
        bmap_remove ''content'' (bmap_remove ''tool_call_id'' (bmap_remove ''role'' m)) = []) \<and>
       input' = input @ [function_call_output_item i (concat ts)])"
    using assms by (auto simp: convert_tool_message_def result_simps request_simps parse_text_parts_Inr)
  also have "\<dots> \<longleftrightarrow> (\<exists>i ts. message_form (ToolMsg i ts) (JObj m) \<and>
    input' = input @ message_items (ToolMsg i ts))"
    by (simp add: fields3 message_form_def) blast
  finally show ?thesis .
qed

lemma system_message_iff:
  assumes "map_of m ''role'' = Some (JStr ''system'')"
  shows "convert_message i (JObj m) (sys, input) = Inr (sys', input') \<longleftrightarrow>
    (\<exists>ts. message_form (SystemMsg ts) (JObj m) \<and> sys' = sys @ [join [CHR 0x0A] ts] \<and> input' = input)"
proof -
  have "convert_message i (JObj m) (sys, input) = Inr (sys', input') \<longleftrightarrow>
    (\<exists>c ts. (map_of m ''content'' = Some c \<and> bmap_remove ''content'' (bmap_remove ''role'' m) = []) \<and>
       text_form ts c \<and> sys' = sys @ [join [CHR 0x0A] ts] \<and> input' = input)"
    using assms by (auto simp: convert_message_def Let_def result_simps request_simps parse_text_parts_Inr)
  also have "\<dots> \<longleftrightarrow> (\<exists>ts. message_form (SystemMsg ts) (JObj m) \<and>
      sys' = sys @ [join [CHR 0x0A] ts] \<and> input' = input)"
    unfolding text_message_iff [OF assms] message_form_def by auto
  finally show ?thesis .
qed

lemma input_message_iff:
  assumes "map_of m ''role'' = Some (JStr r)" and "r = ''developer'' \<or> r = ''user''"
  shows "convert_message i (JObj m) (sys, input) = Inr (sys', input') \<longleftrightarrow>
    (\<exists>ts. message_form (InputMsg r ts) (JObj m) \<and> sys' = sys \<and>
       input' = input @ [message_item r (text_items ''input_text'' ts)])"
proof -
  have "convert_message i (JObj m) (sys, input) = Inr (sys', input') \<longleftrightarrow>
    (\<exists>c ts. (map_of m ''content'' = Some c \<and> bmap_remove ''content'' (bmap_remove ''role'' m) = []) \<and>
       text_form ts c \<and> sys' = sys \<and> input' = input @ [message_item r (text_items ''input_text'' ts)])"
    using assms
    by (elim disjE)
      (auto simp: convert_message_def Let_def result_simps request_simps convert_text_content_Inr)
  also have "\<dots> \<longleftrightarrow> (\<exists>ts. message_form (InputMsg r ts) (JObj m) \<and> sys' = sys \<and>
       input' = input @ [message_item r (text_items ''input_text'' ts)])"
    unfolding text_message_iff [OF assms(1)] message_form_def using assms(2) by auto
  finally show ?thesis .
qed

lemma convert_message_role:
  assumes "convert_message i v (sys, input) = Inr acc"
  shows "\<exists>m r. v = JObj m \<and> map_of m ''role'' = Some (JStr r) \<and>
    (r = ''system'' \<or> (r = ''developer'' \<or> r = ''user'') \<or> r = ''assistant'' \<or> r = ''tool'')"
  using assms by (auto simp: convert_message_def Let_def result_simps request_simps split: if_splits)

lemma convert_message_forms:
  assumes "convert_message i v (sys, input) = Inr (sys', input')"
  shows "\<exists>msg. message_form msg v \<and> sys' = sys @ system_texts msg \<and> input' = input @ message_items msg"
proof -
  from convert_message_role [OF assms] obtain m r where v: "v = JObj m" and r: "map_of m ''role'' = Some (JStr r)"
    and "r = ''system'' \<or> (r = ''developer'' \<or> r = ''user'') \<or> r = ''assistant'' \<or> r = ''tool''"
    by (elim exE conjE)
  then consider "r = ''system''" | "r = ''developer'' \<or> r = ''user''" | "r = ''assistant''" | "r = ''tool''"
    by metis
  then show ?thesis
  proof cases
    case 1
    with assms [unfolded v] r system_message_iff show ?thesis
      unfolding v by (metis append_Nil2 message_items.simps(1) system_texts.simps(1))
  next
    case 2
    with assms [unfolded v] r input_message_iff show ?thesis
      unfolding v by (metis append_Nil2 message_items.simps(2) system_texts.simps(2))
  next
    case 3
    with assms [unfolded v] r have "sys' = sys"
      "convert_assistant_message (bmap_remove ''role'' m) (''messages['' @ show_nat i @ '']'') input = Inr input'"
      by (auto simp: convert_message_def Let_def result_simps request_simps)
    with 3 r convert_assistant_message_Inr show ?thesis
      unfolding v by (metis append_Nil2 system_texts.simps(3))
  next
    case 4
    with assms [unfolded v] r have "sys' = sys"
      "convert_tool_message (bmap_remove ''role'' m) (''messages['' @ show_nat i @ '']'') input = Inr input'"
      by (auto simp: convert_message_def Let_def result_simps request_simps)
    with 4 r tool_message_iff show ?thesis
      unfolding v by (metis append_Nil2 system_texts.simps(4))
  qed
qed

lemma convert_message_accepts:
  assumes "\<exists>msg. message_form msg v \<and> sys' = sys @ system_texts msg \<and> input' = input @ message_items msg"
  shows "convert_message i v (sys, input) = Inr (sys', input')"
proof -
  from assms obtain msg where msg: "message_form msg v" "sys' = sys @ system_texts msg"
    "input' = input @ message_items msg" by blast
  with message_form_role [OF msg(1)] obtain m where v: "v = JObj m"
    and r: "map_of m ''role'' = Some (JStr (role_of msg))" by blast
  show ?thesis
  proof (cases msg)
    case (SystemMsg ts)
    with msg r v system_message_iff [of m i sys input sys' input'] show ?thesis by auto
  next
    case (InputMsg role ts)
    with message_form_role [OF msg(1)] have "role = ''developer'' \<or> role = ''user''" by auto
    with InputMsg msg r v input_message_iff [of m role i sys input sys' input'] show ?thesis by auto
  next
    case (AssistantMsg ts cs)
    with r have ra: "map_of m ''role'' = Some (JStr ''assistant'')" by simp
    from AssistantMsg msg v convert_assistant_message_Inr [OF ra] have
      "convert_assistant_message (bmap_remove ''role'' m) ctx input = Inr input'" for ctx by blast
    with AssistantMsg msg v ra show ?thesis
      by (simp add: convert_message_def Let_def request_object_at_def take_request_string_def)
  next
    case (ToolMsg k ts)
    with r have ra: "map_of m ''role'' = Some (JStr ''tool'')" by simp
    from ToolMsg msg v tool_message_iff [OF ra] have
      "convert_tool_message (bmap_remove ''role'' m) ctx input = Inr input'" for ctx by blast
    with ToolMsg msg v ra show ?thesis
      by (simp add: convert_message_def Let_def request_object_at_def take_request_string_def)
  qed
qed

lemma convert_message_Inr:
  "convert_message i v (sys, input) = Inr (sys', input') \<longleftrightarrow>
     (\<exists>msg. message_form msg v \<and> sys' = sys @ system_texts msg \<and> input' = input @ message_items msg)"
  by (rule iffI [OF convert_message_forms convert_message_accepts])

lemma convert_messages_from_Inr:
  "convert_messages_from i vs (sys, input) = Inr (sys', input') \<longleftrightarrow>
     (\<exists>msgs. list_all2 message_form msgs vs \<and> sys' = sys @ concat (map system_texts msgs) \<and>
        input' = input @ concat (map message_items msgs))"
proof (induction vs arbitrary: i sys input)
  case (Cons v vs)
  have "convert_messages_from i (v # vs) (sys, input) = Inr (sys', input') \<longleftrightarrow>
    (\<exists>s n. convert_message i v (sys, input) = Inr (s, n) \<and>
       convert_messages_from (Suc i) vs (s, n) = Inr (sys', input'))"
    by (auto simp: result_simps)
  also have "\<dots> \<longleftrightarrow> (\<exists>msg msgs. message_form msg v \<and> list_all2 message_form msgs vs \<and>
      sys' = sys @ concat (map system_texts (msg # msgs)) \<and>
      input' = input @ concat (map message_items (msg # msgs)))"
    unfolding convert_message_Inr Cons.IH by (simp only: list.map concat.simps append_assoc [symmetric]) blast
  also have "\<dots> \<longleftrightarrow> (\<exists>msgs. list_all2 message_form msgs (v # vs) \<and>
      sys' = sys @ concat (map system_texts msgs) \<and> input' = input @ concat (map message_items msgs))"
    unfolding list_all2_Cons2 by blast
  finally show ?case .
qed auto

text \<open>
  C24. The conversion of messages is exact: a \<open>messages\<close> value is accepted if and only if it is a
  non-empty array of well-formed messages (system, developer, user, assistant, tool), and then the
  instructions are the system texts joined by newlines and the input is, in order, the items of the
  other messages with their texts, function calls and tool outputs intact.
\<close>

theorem convert_messages_exact:
  "convert_messages v = Inr (instructions, input) \<longleftrightarrow>
     (\<exists>vs msgs. v = JArr vs \<and> vs \<noteq> [] \<and> list_all2 message_form msgs vs \<and>
        instructions = (let sys = concat (map system_texts msgs)
          in if sys = [] then None else Some (join [CHR 0x0A] sys)) \<and>
        input = concat (map message_items msgs))"
proof -
  have "convert_messages v = Inr (instructions, input) \<longleftrightarrow>
    (\<exists>vs sys. v = JArr vs \<and> vs \<noteq> [] \<and> convert_messages_from 0 vs ([], []) = Inr (sys, input) \<and>
      instructions = (if sys = [] then None else Some (join [CHR 0x0A] sys)))"
    by (auto simp: convert_messages_def result_simps split: if_splits)
  also have "\<dots> \<longleftrightarrow> (\<exists>vs msgs. v = JArr vs \<and> vs \<noteq> [] \<and> list_all2 message_form msgs vs \<and>
        instructions = (let sys = concat (map system_texts msgs)
          in if sys = [] then None else Some (join [CHR 0x0A] sys)) \<and>
        input = concat (map message_items msgs))"
    unfolding convert_messages_from_Inr Let_def append_Nil by blast
  finally show ?thesis .
qed

section \<open>The converted request\<close>

definition supported_fields :: "string list" where
  "supported_fields = [''model'', ''messages'', ''stream'', ''stream_options'', ''n'', ''tools'', ''tool_choice'',
     ''parallel_tool_calls'', ''reasoning_effort'', ''max_completion_tokens'', ''max_tokens'', ''response_format'']"

lemma convert_request_facts:
  assumes "convert_request v = Inr c"
  obtains req model msgs ins input stream iu tools choice par eff fmt where
    "v = JObj req" "map_of req ''model'' = Some (JStr model)" "model \<noteq> []"
    "map_of req ''messages'' = Some msgs" "convert_messages msgs = Inr (ins, input)"
    "convert_stream_flag (map_of req ''stream'') = Inr stream"
    "res_opt (\<lambda>v. convert_stream_options v stream) (map_of req ''stream_options'') = Inr iu"
    "res_opt convert_tools (map_of req ''tools'') = Inr tools" "\<not> (stream \<and> tools \<noteq> None)"
    "res_opt convert_tool_choice (map_of req ''tool_choice'') = Inr choice"
    "res_opt (\<lambda>v. request_bool v ''parallel_tool_calls'') (map_of req ''parallel_tool_calls'') = Inr par"
    "res_opt convert_reasoning_effort (map_of req ''reasoning_effort'') = Inr eff"
    "res_opt convert_response_format (map_of req ''response_format'') = Inr fmt"
    "dom (map_of req) \<subseteq> set supported_fields"
    "c = \<lparr>cq_upstream_request =
            JObj (upstream_object model input ins tools choice par (opt_flatten eff) (opt_flatten fmt)),
          cq_model = model, cq_reasoning_effort = opt_flatten eff, cq_stream = stream,
          cq_include_usage = (case iu of None \<Rightarrow> False | Some b \<Rightarrow> b)\<rparr>"
  using assms unfolding convert_request_def
proof (elim result_elims, goal_cases)
  case (1 req model req1 msgs req2 stream iu u1 tools choice par eff u2 u3 fmt u4 ins input)
  from 1(2,3,5) have r: "v = JObj req" "map_of req ''model'' = Some (JStr model)"
    "map_of req ''messages'' = Some msgs" "req2 = bmap_remove ''messages'' (bmap_remove ''model'' req)"
    by (simp_all add: request_simps)
  have d: "dom (map_of req) \<subseteq> set supported_fields"
    using 1(17) unfolding r(4) reject_unknown_Inr removed_dom supported_fields_def list.set
    by (simp only: dom_removed Diff_subset_conv Un_insert_left Un_empty_left)
  have f: "convert_stream_flag (map_of req ''stream'') = Inr stream" using 1(6) r(4) by (simp add: map_of_remove_other del: map_of_bmap_remove)
  have f1: "res_opt (\<lambda>v. convert_stream_options v stream) (map_of req ''stream_options'') = Inr iu"
    using 1(7) r(4) by (simp add: map_of_remove_other del: map_of_bmap_remove)
  have f2: "res_opt convert_tools (map_of req ''tools'') = Inr tools" using 1(9) r(4) by (simp add: map_of_remove_other del: map_of_bmap_remove)
  have f3: "res_opt convert_tool_choice (map_of req ''tool_choice'') = Inr choice" using 1(11) r(4) by (simp add: map_of_remove_other del: map_of_bmap_remove)
  have f4: "res_opt (\<lambda>v. request_bool v ''parallel_tool_calls'') (map_of req ''parallel_tool_calls'') = Inr par"
    using 1(12) r(4) by (simp add: map_of_remove_other del: map_of_bmap_remove)
  have f5: "res_opt convert_reasoning_effort (map_of req ''reasoning_effort'') = Inr eff"
    using 1(13) r(4) by (simp add: map_of_remove_other del: map_of_bmap_remove)
  have f6: "res_opt convert_response_format (map_of req ''response_format'') = Inr fmt" using 1(16) r(4) by (simp add: map_of_remove_other del: map_of_bmap_remove)
  show ?case
    by (rule that [OF r(1,2) 1(4) r(3) 1(18) f f1 f2 1(10) f3 f4 f5 f6 d 1(19) [symmetric, unfolded sum.inject]])
qed
lemma map_of_insert_opt: "map_of (insert_opt k v m) f = (if f = k \<and> v \<noteq> None then v else map_of m f)"
  by (cases v) (simp_all add: insert_opt_def)

lemma upstream_object_fields:
  "map_of (upstream_object model input ins tools choice par eff fmt) ''model'' = Some (JStr model)"
  "map_of (upstream_object model input ins tools choice par eff fmt) ''input'' = Some (JArr input)"
  "map_of (upstream_object model input ins tools choice par eff fmt) ''stream'' = Some (JBool True)"
  "map_of (upstream_object model input ins tools choice par eff fmt) ''store'' = Some (JBool False)"
  "map_of (upstream_object model input ins tools choice par eff fmt) ''instructions'' = map_option JStr ins"
  "map_of (upstream_object model input ins tools choice par eff fmt) ''tools'' = tools"
  "map_of (upstream_object model input ins tools choice par eff fmt) ''reasoning'' =
     map_option (\<lambda>e. jobj [(''effort'', JStr e)]) eff"
  by (simp_all add: upstream_object_def map_of_insert_opt)

lemma converted_effort:
  assumes "res_opt convert_reasoning_effort x = Inr eff"
  shows "opt_flatten eff = opt_bind x as_str \<and> opt_all (\<lambda>e. e \<in> set REASONING_EFFORTS) (opt_bind x as_str)"
  using assms by (auto simp: res_opt_Inr_iff convert_reasoning_effort_def is_null_def opt_flatten_def
      REASONING_EFFORTS_def result_simps split: if_splits)

lemma stream_options_need_stream:
  "res_opt (\<lambda>v. convert_stream_options v stream) x = Inr iu \<Longrightarrow> (case iu of None \<Rightarrow> False | Some b \<Rightarrow> b) \<Longrightarrow> stream"
  by (auto simp: res_opt_Inr_iff convert_stream_options_def split: if_splits)

lemma upstream_effort:
  "requested_effort (JObj (upstream_object model input ins tools choice par eff fmt)) = eff"
  by (cases eff) (simp_all add: requested_effort_def upstream_object_fields)

text \<open>What the handler reads of a request before converting it is what the conversion finds.\<close>

lemma converted_request_named:
  assumes "convert_request v = Inr c"
  shows "opt_bind (jget v ''model'') as_str = Some (cq_model c)"
    and "opt_bind (jget v ''reasoning_effort'') as_str = cq_reasoning_effort c"
    and "\<exists>u. cq_upstream_request c = JObj u \<and> requested_effort (JObj u) = cq_reasoning_effort c"
proof -
  have "opt_bind (jget v ''model'') as_str = Some (cq_model c) \<and>
    opt_bind (jget v ''reasoning_effort'') as_str = cq_reasoning_effort c \<and>
    (\<exists>u. cq_upstream_request c = JObj u \<and> requested_effort (JObj u) = cq_reasoning_effort c)"
    using assms
  proof (cases rule: convert_request_facts)
    case (1 req model msgs ins input stream iu tools choice par eff fmt)
    then show ?thesis using converted_effort [OF 1(12)] by (simp add: upstream_effort)
  qed
  then show "opt_bind (jget v ''model'') as_str = Some (cq_model c)"
    "opt_bind (jget v ''reasoning_effort'') as_str = cq_reasoning_effort c"
    "\<exists>u. cq_upstream_request c = JObj u \<and> requested_effort (JObj u) = cq_reasoning_effort c" by blast+
qed

text \<open>
  C34. A converted Chat request is a streaming, unstored Responses request for the model and effort the
  client named: the client's object has no unsupported field, the model is not empty, the effort is one
  of the known ones and sits where the relay later rewrites it, the instructions and input are those of
  the messages, and tools never go with streaming.
\<close>

theorem converted_request_sound:
  assumes "convert_request v = Inr c"
  shows "\<exists>req u input. v = JObj req \<and> cq_upstream_request c = JObj u \<and>
    dom (map_of req) \<subseteq> set supported_fields \<and>
    map_of req ''model'' = Some (JStr (cq_model c)) \<and> cq_model c \<noteq> [] \<and>
    cq_reasoning_effort c = opt_bind (map_of req ''reasoning_effort'') as_str \<and>
    opt_all (\<lambda>e. e \<in> set REASONING_EFFORTS) (cq_reasoning_effort c) \<and>
    map_of u ''model'' = Some (JStr (cq_model c)) \<and> requested_effort (JObj u) = cq_reasoning_effort c \<and>
    map_of u ''stream'' = Some (JBool True) \<and> map_of u ''store'' = Some (JBool False) \<and>
    convert_messages (jindex v ''messages'') = Inr (opt_bind (map_of u ''instructions'') as_str, input) \<and>
    map_of u ''input'' = Some (JArr input) \<and>
    (cq_stream c \<longrightarrow> map_of u ''tools'' = None) \<and> (cq_include_usage c \<longrightarrow> cq_stream c)"
  using assms
proof (cases rule: convert_request_facts)
  case (1 req model msgs ins input stream iu tools choice par eff fmt)
  have "cq_include_usage c \<longrightarrow> cq_stream c"
    using stream_options_need_stream [OF 1(7)] unfolding 1(15) by simp
  moreover have "opt_bind (map_option JStr ins) as_str = ins" by (cases ins) simp_all
  ultimately show ?thesis
    unfolding 1(15)
    by - (rule exI [where x = req], rule exI [where x = "upstream_object model input ins tools choice par
        (opt_flatten eff) (opt_flatten fmt)"], rule exI [where x = input],
      use 1(1-5,9,14) converted_effort [OF 1(12)] in \<open>simp add: upstream_object_fields upstream_effort\<close>)
qed

definition demo_chat :: json where
  "demo_chat = JObj [(''messages'', JArr [JObj [(''content'', JStr ''hi''), (''role'', JStr ''user'')]]),
     (''model'', JStr ''big''), (''reasoning_effort'', JStr ''low''), (''stream'', JBool True)]"

lemma demo_chat_converts:
  "convert_request demo_chat = Inr \<lparr>cq_upstream_request = JObj (upstream_object ''big''
       [message_item ''user'' (text_items ''input_text'' [''hi''])] None None None None (Some ''low'') None),
     cq_model = ''big'', cq_reasoning_effort = Some ''low'', cq_stream = True, cq_include_usage = False\<rparr>"
  by (simp add: demo_chat_def convert_request_def into_request_object_def take_request_string_def
      take_required_def convert_stream_flag_def convert_n_def convert_reasoning_effort_def is_null_def
      opt_flatten_def reject_unknown_request_fields_def convert_messages_def convert_message_def
      request_object_at_def convert_text_content_def parse_text_parts_def text_items_def bmap_remove_def Let_def)

theorem converted_request_sound_witness:
  "\<exists>c. convert_request demo_chat = Inr c \<and> requested_effort (cq_upstream_request c) = Some ''low''"
  using converted_request_sound [OF demo_chat_converts] demo_chat_converts by auto

text \<open>Every failure of a computation is a request error that names its parameter.\<close>

definition client_error :: "chat_error \<Rightarrow> bool" where
  "client_error e \<longleftrightarrow> ce_kind e = InvalidRequest \<and> ce_param e \<noteq> None"

definition blames_client :: "chat_error + 'a \<Rightarrow> bool" where
  "blames_client r \<longleftrightarrow> (\<forall>e. r = Inl e \<longrightarrow> client_error e)"

named_theorems blames_intros \<open>computations whose errors are the client's\<close>

lemma blames_basic [blames_intros]:
  "blames_client (Inr x)"
  "blames_client (Inl (chat_invalid p m))"
  "blames_client (ok_or (chat_invalid p m) o')"
  by (auto simp: blames_client_def client_error_def chat_invalid_def ok_or_Inl_iff)

lemma blames_bind [blames_intros]:
  "blames_client m \<Longrightarrow> (\<And>x. blames_client (f x)) \<Longrightarrow> blames_client (res_bind m f)"
  by (auto simp: blames_client_def res_bind_Inl_iff)

lemma blames_bind_pair [blames_intros]:
  "blames_client m \<Longrightarrow> (\<And>x y. blames_client (f x y)) \<Longrightarrow> blames_client (res_bind m (\<lambda>(x, y). f x y))"
  by (auto simp: blames_client_def res_bind_Inl_iff)

lemma blames_if [blames_intros]:
  "blames_client a \<Longrightarrow> blames_client b \<Longrightarrow> blames_client (if c then a else b)"
  by simp

lemma blames_opt [blames_intros]: "(\<And>x. blames_client (f x)) \<Longrightarrow> blames_client (res_opt f o')"
  by (cases o') (auto intro: blames_bind blames_basic)

lemma blames_map [blames_intros]: "(\<And>i x. blames_client (f i x)) \<Longrightarrow> blames_client (res_map_from j f xs)"
  by (induction xs arbitrary: j) (auto intro: blames_bind blames_basic)

lemma blames_fields [blames_intros]:
  "blames_client (into_request_object v p)"
  "blames_client (request_object_at v p)"
  "blames_client (take_request_string m f p)"
  "blames_client (take_required m f p)"
  "blames_client (request_bool v p)"
  by (auto simp: into_request_object_def request_object_at_def take_request_string_def take_required_def
      request_bool_def intro!: blames_intros)

lemma blames_unknown [blames_intros]: "blames_client (reject_unknown_request_fields m c)"
  by (cases m) (auto simp: reject_unknown_request_fields_def Let_def intro: blames_basic)

lemma blames_options [blames_intros]:
  "blames_client (convert_stream_options v s)"
  "blames_client (validate_ignored_completion_limit v f)"
  "blames_client (convert_response_format v)"
  "blames_client (convert_reasoning_effort v)"
  "blames_client (convert_n x)"
  by (auto simp: convert_stream_options_def validate_ignored_completion_limit_def convert_response_format_def
      convert_reasoning_effort_def convert_n_def split: option.split intro!: blames_intros)

lemma blames_stream_flag [blames_intros]: "blames_client (convert_stream_flag x)"
  by (auto simp: convert_stream_flag_def split: option.split json.split intro: blames_basic)

lemma blames_text [blames_intros]: "blames_client (parse_text_parts v p)" "blames_client (convert_text_content v p t)"
  by (auto simp: parse_text_parts_def parse_text_part_def convert_text_content_def Let_def
      split: json.split intro!: blames_intros)

lemma blames_calls [blames_intros]: "blames_client (convert_assistant_tool_call v c)"
  by (auto simp: convert_assistant_tool_call_def Let_def intro!: blames_intros)

lemma blames_messages [blames_intros]:
  "blames_client (convert_assistant_message m c i)"
  "blames_client (convert_tool_message m c i)"
  by (auto simp: convert_assistant_message_def convert_tool_message_def assistant_text_items_def
      assistant_call_items_def Let_def split: option.split intro!: blames_intros)

lemma blames_message [blames_intros]: "blames_client (convert_message i v acc)"
  by (cases acc) (auto simp: convert_message_def Let_def intro!: blames_intros)

lemma blames_convert_messages [blames_intros]: "blames_client (convert_messages v)"
proof -
  have "blames_client (convert_messages_from i vs acc)" for i vs acc
    by (induction vs arbitrary: i acc) (auto intro!: blames_intros)
  then show ?thesis by (auto simp: convert_messages_def intro!: blames_intros)
qed

lemma blames_tools [blames_intros]: "blames_client (convert_tools v)"
  by (auto simp: convert_tools_def convert_tool_def Let_def split: option.split json.split intro!: blames_intros)

lemma blames_tool_choice [blames_intros]: "blames_client (convert_tool_choice v)"
  by (auto simp: convert_tool_choice_def split: json.split intro!: blames_intros)

text \<open>
  Whatever a Chat request contains, a failed conversion is reported as the client's error with the
  parameter it is about: the HTTP layer never has to treat it as an upstream failure.
\<close>

theorem request_errors_are_client_errors:
  "case convert_request v of Inl e \<Rightarrow> ce_kind e = InvalidRequest \<and> ce_param e \<noteq> None | Inr _ \<Rightarrow> True"
proof -
  have "blames_client (convert_request v)"
    unfolding convert_request_def Let_def by (intro blames_intros)
  then show ?thesis by (simp add: blames_client_def client_error_def split: sum.split)
qed
end
