(* ===== verification/Chat_Response.thy ===== *)
theory Chat_Response
  imports Chat_Request
begin

text \<open>
  Responses events turned into Chat Completions (the response half of \<open>src/chat.rs\<close>): the chunk
  converter of streamed answers with its state, and the conversion of a terminal event into one
  completion.
\<close>

section \<open>Reading upstream objects\<close>

definition upstream_string :: "jobject \<Rightarrow> string \<Rightarrow> string \<Rightarrow> chat_error + string" where
  "upstream_string object field context =
     ok_or (chat_upstream (context @ ''.'' @ field @ '' must be a string''))
       (opt_bind (map_of object field) as_str)"

definition upstream_integer :: "jobject \<Rightarrow> string \<Rightarrow> string \<Rightarrow> chat_error + i64" where
  "upstream_integer object field context =
     ok_or (chat_upstream (context @ ''.'' @ field @ '' must be an integer''))
       (opt_bind (map_of object field) as_i64)"

definition incomplete_finish_reason :: "jobject \<Rightarrow> chat_error + string" where
  "incomplete_finish_reason response =
     res_bind (ok_or (chat_upstream ''incomplete response is missing incomplete_details'')
         (opt_bind (map_of response ''incomplete_details'') as_object)) (\<lambda>details.
     res_bind (upstream_string details ''reason'' ''incomplete response details'') (\<lambda>reason.
     if reason = ''max_output_tokens'' then Inr ''length''
     else if reason = ''content_filter'' then Inr ''content_filter''
     else Inl (chat_upstream (''unsupported incomplete response reason '' @ reason))))"

definition chat_usage :: "usage \<Rightarrow> json" where
  "chat_usage u = jobj [
     (''prompt_tokens'', json_of_u64 (input_tokens u)),
     (''prompt_tokens_details'', jobj [(''cached_tokens'', json_of_u64 (cached_input_tokens u))]),
     (''completion_tokens'', json_of_u64 (output_tokens u)),
     (''completion_tokens_details'', jobj [(''reasoning_tokens'', json_of_u64 (reasoning_tokens u))]),
     (''total_tokens'', json_of_u64 (total_tokens u))]"

datatype TerminalStatus = TS_Completed | TS_Incomplete

text \<open>The terminal kinds that are completions; the others are an upstream error.\<close>

definition terminal_status :: "TerminalKind \<Rightarrow> chat_error + TerminalStatus" where
  "terminal_status kind =
     (case kind of
        TK_Completed \<Rightarrow> Inr TS_Completed
      | TK_Incomplete \<Rightarrow> Inr TS_Incomplete
      | _ \<Rightarrow> Inl (chat_upstream (''upstream emitted '' @ event_name kind @ '' instead of a completion'')))"

section \<open>Streaming\<close>

record chat_stream_converter =
  cv_id :: "string option"
  cv_created :: "i64 option"
  cv_model :: "string option"
  cv_include_usage :: bool

record converted_stream_terminal =
  cst_chunks :: "json list"
  cst_usage :: usage
  cst_status :: TerminalStatus

definition converter_new :: "bool \<Rightarrow> chat_stream_converter" where
  "converter_new include_usage =
     \<lparr>cv_id = None, cv_created = None, cv_model = None, cv_include_usage = include_usage\<rparr>"

text \<open>The assignments happen one by one: a failing field leaves the earlier ones set.\<close>

definition capture_metadata ::
  "chat_stream_converter \<Rightarrow> jobject \<Rightarrow> (chat_error + unit) \<times> chat_stream_converter" where
  "capture_metadata cv response =
     (case upstream_string response ''id'' ''response'' of
        Inl e \<Rightarrow> (Inl e, cv)
      | Inr i \<Rightarrow>
          (let cv = cv\<lparr>cv_id := Some i\<rparr> in
           case upstream_integer response ''created_at'' ''response'' of
             Inl e \<Rightarrow> (Inl e, cv)
           | Inr c \<Rightarrow>
               (let cv = cv\<lparr>cv_created := Some c\<rparr> in
                case upstream_string response ''model'' ''response'' of
                  Inl e \<Rightarrow> (Inl e, cv)
                | Inr m \<Rightarrow> (Inr (), cv\<lparr>cv_model := Some m\<rparr>))))"

definition metadata :: "chat_stream_converter \<Rightarrow> chat_error + (string \<times> i64 \<times> string)" where
  "metadata cv =
     (case (cv_id cv, cv_created cv, cv_model cv) of
        (Some i, Some c, Some m) \<Rightarrow> Inr (i, c, m)
      | _ \<Rightarrow> Inl (chat_upstream ''upstream emitted Chat content before response metadata''))"

definition chunk :: "chat_stream_converter \<Rightarrow> json \<Rightarrow> string option \<Rightarrow> chat_error + json" where
  "chunk cv delta finish_reason =
     res_bind (metadata cv) (\<lambda>(i, created, model).
     Inr (jobj [
       (''id'', JStr i), (''object'', JStr ''chat.completion.chunk''),
       (''created'', json_of_i64 created), (''model'', JStr model),
       (''choices'', JArr [jobj [
          (''index'', json_of_u64 0), (''delta'', delta), (''logprobs'', JNull),
          (''finish_reason'', json_of_str_option finish_reason)]])]))"

definition usage_chunk :: "chat_stream_converter \<Rightarrow> usage \<Rightarrow> chat_error + json" where
  "usage_chunk cv u =
     res_bind (metadata cv) (\<lambda>(i, created, model).
     Inr (jobj [
       (''id'', JStr i), (''object'', JStr ''chat.completion.chunk''),
       (''created'', json_of_i64 created), (''model'', JStr model),
       (''choices'', JArr []), (''usage'', chat_usage u)]))"

definition convert_event ::
  "chat_stream_converter \<Rightarrow> json \<Rightarrow> (chat_error + json option) \<times> chat_stream_converter" where
  "convert_event cv event =
     (let ty = opt_bind (jget event ''type'') as_str in
      if ty = Some ''response.created'' then
        (case opt_bind (jget event ''response'') as_object of
           None \<Rightarrow> (Inl (chat_upstream ''response.created is missing response''), cv)
         | Some response \<Rightarrow>
             (case capture_metadata cv response of
                (Inl e, cv) \<Rightarrow> (Inl e, cv)
              | (Inr _, cv) \<Rightarrow>
                  (res_bind (chunk cv (jobj [(''role'', JStr ''assistant''), (''content'', JStr [])]) None)
                     (\<lambda>c. Inr (Some c)), cv)))
      else if ty = Some ''response.output_text.delta'' then
        (res_bind (ok_or (chat_upstream ''response.output_text.delta.delta must be a string'')
             (opt_bind (jget event ''delta'') as_str)) (\<lambda>delta.
         res_bind (chunk cv (jobj [(''content'', JStr delta)]) None) (\<lambda>c. Inr (Some c))), cv)
      else (Inr None, cv))"

text \<open>The last part of \<open>convert_terminal\<close>, once the metadata is captured.\<close>

definition terminal_chunks ::
  "chat_stream_converter \<Rightarrow> TerminalStatus \<Rightarrow> jobject \<Rightarrow> usage option \<Rightarrow>
     chat_error + converted_stream_terminal" where
  "terminal_chunks cv status response u =
     res_bind (ok_or (chat_upstream ''terminal response is missing usage'') u) (\<lambda>u.
     res_bind
       (case status of
          TS_Completed \<Rightarrow> Inr ''stop''
        | TS_Incomplete \<Rightarrow> incomplete_finish_reason response) (\<lambda>finish_reason.
     res_bind (chunk cv (jobj []) (Some finish_reason)) (\<lambda>first.
     res_bind (if cv_include_usage cv then res_bind (usage_chunk cv u) (\<lambda>c. Inr [c]) else Inr []) (\<lambda>extra.
     Inr \<lparr>cst_chunks = first # extra, cst_usage = u, cst_status = status\<rparr>))))"

definition convert_terminal ::
  "chat_stream_converter \<Rightarrow> terminal_event \<Rightarrow>
     (chat_error + converted_stream_terminal) \<times> chat_stream_converter" where
  "convert_terminal cv terminal =
     (case terminal_status (te_kind terminal) of
        Inl e \<Rightarrow> (Inl e, cv)
      | Inr status \<Rightarrow>
          (case opt_bind (jget (te_payload terminal) ''response'') as_object of
             None \<Rightarrow> (Inl (chat_upstream ''terminal event is missing its response object''), cv)
           | Some response \<Rightarrow>
               (case capture_metadata cv response of
                  (Inl e, cv') \<Rightarrow> (Inl e, cv')
                | (Inr _, cv') \<Rightarrow> (terminal_chunks cv' status response (te_usage terminal), cv'))))"

section \<open>One completion\<close>

record converted_output =
  co_text :: "string option"
  co_refusal :: "string option"
  co_tool_calls :: "json list"

text \<open>\<open>target.get_or_insert_with(String::new).push_str(s)\<close>\<close>

definition push_str :: "string option \<Rightarrow> string \<Rightarrow> string option" where
  "push_str target s = Some (case target of None \<Rightarrow> s | Some t \<Rightarrow> t @ s)"

fun convert_content_parts ::
  "nat \<Rightarrow> nat \<Rightarrow> json list \<Rightarrow> converted_output \<Rightarrow> chat_error + converted_output" where
  "convert_content_parts item_index content_index [] converted = Inr converted"
| "convert_content_parts item_index content_index (p # ps) converted =
     res_bind (ok_or (chat_upstream (''response output['' @ show_nat item_index @ ''].content['' @
         show_nat content_index @ ''] must be an object'')) (as_object p)) (\<lambda>part.
     res_bind (upstream_string part ''type'' ''message content part'') (\<lambda>ty.
     res_bind
       (if ty = ''output_text'' then
          res_bind (upstream_string part ''text'' ''output_text content part'') (\<lambda>s.
          Inr (converted\<lparr>co_text := push_str (co_text converted) s\<rparr>))
        else if ty = ''refusal'' then
          res_bind (upstream_string part ''refusal'' ''refusal content part'') (\<lambda>s.
          Inr (converted\<lparr>co_refusal := push_str (co_refusal converted) s\<rparr>))
        else Inl (chat_upstream (''unsupported Responses message content type '' @ ty))) (\<lambda>converted'.
     convert_content_parts item_index (Suc content_index) ps converted')))"

definition convert_output_message ::
  "jobject \<Rightarrow> nat \<Rightarrow> converted_output \<Rightarrow> chat_error + converted_output" where
  "convert_output_message item item_index converted =
     res_bind (upstream_string item ''role'' ''message output item'') (\<lambda>role.
     if role \<noteq> ''assistant'' then Inl (chat_upstream ''Responses message output role must be assistant'')
     else
       res_bind (ok_or (chat_upstream ''Responses message content must be an array'')
           (opt_bind (map_of item ''content'') as_array)) (\<lambda>content.
       convert_content_parts item_index 0 content converted))"

definition chat_tool_call :: "string \<Rightarrow> string \<Rightarrow> string \<Rightarrow> json" where
  "chat_tool_call call_id name arguments =
     jobj [(''id'', JStr call_id), (''type'', JStr ''function''),
       (''function'', jobj [(''name'', JStr name), (''arguments'', JStr arguments)])]"

definition convert_output_item :: "nat \<Rightarrow> json \<Rightarrow> converted_output \<Rightarrow> chat_error + converted_output" where
  "convert_output_item index value converted =
     res_bind (ok_or (chat_upstream (''response output item '' @ show_nat index @ '' must be an object''))
         (as_object value)) (\<lambda>item.
     res_bind (upstream_string item ''type'' ''response output item'') (\<lambda>item_type.
     if item_type = ''reasoning'' then Inr converted
     else if item_type = ''message'' then convert_output_message item index converted
     else if item_type = ''function_call'' then
       res_bind (upstream_string item ''call_id'' ''function call output item'') (\<lambda>call_id.
       res_bind (upstream_string item ''name'' ''function call output item'') (\<lambda>name.
       res_bind (upstream_string item ''arguments'' ''function call output item'') (\<lambda>arguments.
       Inr (converted\<lparr>co_tool_calls := co_tool_calls converted @ [chat_tool_call call_id name arguments]\<rparr>))))
     else Inl (chat_upstream (''unsupported Responses output item type '' @ item_type))))"

fun convert_output_from :: "nat \<Rightarrow> json list \<Rightarrow> converted_output \<Rightarrow> chat_error + converted_output" where
  "convert_output_from index [] converted = Inr converted"
| "convert_output_from index (v # vs) converted =
     res_bind (convert_output_item index v converted) (\<lambda>converted'.
     convert_output_from (Suc index) vs converted')"

definition convert_output :: "json list \<Rightarrow> chat_error + converted_output" where
  "convert_output output =
     convert_output_from 0 output \<lparr>co_text = None, co_refusal = None, co_tool_calls = []\<rparr>"

record converted_terminal =
  ct_chat_completion :: json
  ct_usage :: usage
  ct_status :: TerminalStatus

definition completion_message :: "converted_output \<Rightarrow> json" where
  "completion_message out =
     JObj (
       (if co_tool_calls out = [] then id else bmap_insert ''tool_calls'' (JArr (co_tool_calls out)))
       (bmap_insert ''refusal'' (json_of_str_option (co_refusal out))
       (bmap_insert ''content'' (json_of_str_option (co_text out))
       (bmap_insert ''role'' (JStr ''assistant'') []))))"

definition convert_terminal_event :: "terminal_event \<Rightarrow> chat_error + converted_terminal" where
  "convert_terminal_event terminal =
     res_bind (terminal_status (te_kind terminal)) (\<lambda>status.
     res_bind (ok_or (chat_upstream ''terminal Responses event must be an object'')
         (as_object (te_payload terminal))) (\<lambda>event.
     res_bind (ok_or (chat_upstream ''terminal event is missing its response object'')
         (opt_bind (map_of event ''response'') as_object)) (\<lambda>response.
     res_bind (upstream_string response ''object'' ''terminal response'') (\<lambda>object_type.
     if object_type \<noteq> ''response'' then Inl (chat_upstream ''terminal response has an invalid object type'')
     else
       res_bind (upstream_string response ''id'' ''terminal response'') (\<lambda>i.
       if i = [] then Inl (chat_upstream ''terminal response id must not be empty'')
       else
         res_bind (upstream_string response ''model'' ''terminal response'') (\<lambda>model.
         if model = [] then Inl (chat_upstream ''terminal response model must not be empty'')
         else
           res_bind (upstream_integer response ''created_at'' ''terminal response'') (\<lambda>created.
           res_bind (ok_or (chat_upstream ''terminal response is missing usage'') (te_usage terminal)) (\<lambda>u.
           res_bind (ok_or (chat_upstream ''terminal response output must be an array'')
               (opt_bind (map_of response ''output'') as_array)) (\<lambda>output.
           res_bind (convert_output output) (\<lambda>out.
           res_bind
             (case status of
                TS_Completed \<Rightarrow> Inr (if co_tool_calls out \<noteq> [] then ''tool_calls'' else ''stop'')
              | TS_Incomplete \<Rightarrow> incomplete_finish_reason response) (\<lambda>finish_reason.
           Inr \<lparr>ct_chat_completion = jobj [
                  (''id'', JStr i), (''object'', JStr ''chat.completion''),
                  (''created'', json_of_i64 created), (''model'', JStr model),
                  (''choices'', JArr [jobj [
                     (''index'', json_of_u64 0), (''message'', completion_message out),
                     (''logprobs'', JNull), (''finish_reason'', JStr finish_reason)]]),
                  (''usage'', chat_usage u)],
                ct_usage = u, ct_status = status\<rparr>)))))))))))"

section \<open>The output, declaratively\<close>

text \<open>The strings of the parts of one kind, in order, over all message items; the function calls.\<close>

definition part_string :: "string \<Rightarrow> string \<Rightarrow> json \<Rightarrow> string option" where
  "part_string ty field p =
     (if jget p ''type'' = Some (JStr ty) then opt_bind (jget p field) as_str else None)"

definition message_parts :: "json \<Rightarrow> json list" where
  "message_parts v =
     (if jget v ''type'' = Some (JStr ''message'')
      then (case opt_bind (jget v ''content'') as_array of None \<Rightarrow> [] | Some ps \<Rightarrow> ps) else [])"

definition output_strings :: "string \<Rightarrow> string \<Rightarrow> json list \<Rightarrow> string list" where
  "output_strings ty field vs = List.map_filter (part_string ty field) (concat (map message_parts vs))"

definition output_call :: "json \<Rightarrow> tool_call option" where
  "output_call v =
     (if jget v ''type'' = Some (JStr ''function_call'')
      then
        (case (opt_bind (jget v ''call_id'') as_str, opt_bind (jget v ''name'') as_str,
               opt_bind (jget v ''arguments'') as_str) of
           (Some i, Some n, Some a) \<Rightarrow> Some (ToolCall i n a)
         | _ \<Rightarrow> None)
      else None)"

definition output_calls :: "json list \<Rightarrow> tool_call list" where
  "output_calls vs = List.map_filter output_call vs"

definition tool_call_json :: "tool_call \<Rightarrow> json" where
  "tool_call_json c = chat_tool_call (tc_id c) (tc_name c) (tc_arguments c)"

text \<open>Text that never occurs stays null; text that occurs is concatenated, even when empty.\<close>

definition append_all :: "string option \<Rightarrow> string list \<Rightarrow> string option" where
  "append_all t ss = (if ss = [] then t else Some ((case t of None \<Rightarrow> [] | Some s \<Rightarrow> s) @ concat ss))"

definition extend_output :: "converted_output \<Rightarrow> json list \<Rightarrow> tool_call list \<Rightarrow> converted_output" where
  "extend_output c ps calls =
     \<lparr>co_text = append_all (co_text c) (List.map_filter (part_string ''output_text'' ''text'') ps),
      co_refusal = append_all (co_refusal c) (List.map_filter (part_string ''refusal'' ''refusal'') ps),
      co_tool_calls = co_tool_calls c @ map tool_call_json calls\<rparr>"

lemma map_filter_append: "List.map_filter f (xs @ ys) = List.map_filter f xs @ List.map_filter f ys"
  by (simp add: List.map_filter_def)

lemma append_all_Cons: "append_all t (s # ss) = append_all (push_str t s) ss"
  by (auto simp: append_all_def push_str_def split: option.split)

lemma append_all_Nil [simp]: "append_all t [] = t"
  by (simp add: append_all_def)

lemma append_all_append: "append_all t (xs @ ys) = append_all (append_all t xs) ys"
  by (induction xs arbitrary: t) (simp_all add: append_all_Cons)

lemma extend_output_Nil [simp]: "extend_output c [] [] = c"
  by (simp add: extend_output_def)

lemma extend_output_append:
  "extend_output c (ps @ qs) (cs @ ds) = extend_output (extend_output c ps cs) qs ds"
  by (simp add: extend_output_def append_all_append map_filter_append)

lemma upstream_string_Inr [result_simps]: "upstream_string m f c = Inr s \<longleftrightarrow> map_of m f = Some (JStr s)"
  by (auto simp: upstream_string_def result_simps)

lemma convert_content_parts_Inr:
  "convert_content_parts i j ps c = Inr c' \<Longrightarrow> c' = extend_output c ps []"
proof (induction ps arbitrary: j c)
  case (Cons p ps)
  from Cons.prems obtain m ty c1 where p: "p = JObj m" "map_of m ''type'' = Some (JStr ty)"
    and c1: "(ty = ''output_text'' \<and> (\<exists>s. map_of m ''text'' = Some (JStr s) \<and>
         c1 = c\<lparr>co_text := push_str (co_text c) s\<rparr>)) \<or>
       (ty = ''refusal'' \<and> (\<exists>s. map_of m ''refusal'' = Some (JStr s) \<and>
         c1 = c\<lparr>co_refusal := push_str (co_refusal c) s\<rparr>))"
    and rest: "convert_content_parts i (Suc j) ps c1 = Inr c'"
    by (auto simp: result_simps split: if_splits)
  from c1 p have "extend_output c1 ps [] = extend_output c (p # ps) []"
    by (elim disjE) (auto simp: extend_output_def part_string_def append_all_Cons map_filter_simps)
  with Cons.IH [OF rest] show ?case by simp
qed simp

lemma convert_output_item_Inr:
  assumes "convert_output_item i v c = Inr c'"
  shows "c' = extend_output c (message_parts v) (List.map_filter output_call [v])"
proof -
  from assms obtain m ty where v: "v = JObj m" "map_of m ''type'' = Some (JStr ty)"
    by (auto simp: convert_output_item_def result_simps)
  with assms consider "ty = ''reasoning''" "c' = c" | "ty = ''message''" "convert_output_message m i c = Inr c'"
    | k n a where "ty = ''function_call''" "map_of m ''call_id'' = Some (JStr k)"
      "map_of m ''name'' = Some (JStr n)" "map_of m ''arguments'' = Some (JStr a)"
      "c' = c\<lparr>co_tool_calls := co_tool_calls c @ [chat_tool_call k n a]\<rparr>"
    by (auto simp: convert_output_item_def result_simps split: if_splits)
  then show ?thesis
  proof cases
    case 1
    with v show ?thesis by (simp add: message_parts_def output_call_def map_filter_simps)
  next
    case 2
    then obtain ps where "map_of m ''content'' = Some (JArr ps)" "convert_content_parts i 0 ps c = Inr c'"
      by (auto simp: convert_output_message_def result_simps split: if_splits)
    with 2 v convert_content_parts_Inr show ?thesis
      by (simp add: message_parts_def output_call_def map_filter_simps)
  next
    case 3
    with v show ?thesis
      by (simp add: message_parts_def output_call_def map_filter_simps extend_output_def tool_call_json_def)
  qed
qed

lemma convert_output_from_Inr:
  "convert_output_from i vs c = Inr c' \<Longrightarrow>
     c' = extend_output c (concat (map message_parts vs)) (output_calls vs)"
proof (induction vs arbitrary: i c)
  case Nil
  then show ?case by (simp add: output_calls_def)
next
  case (Cons v vs)
  then obtain c1 where "convert_output_item i v c = Inr c1" "convert_output_from (Suc i) vs c1 = Inr c'"
    by (auto simp: result_simps)
  with Cons.IH convert_output_item_Inr have "c' = extend_output (extend_output c (message_parts v)
    (List.map_filter output_call [v])) (concat (map message_parts vs)) (output_calls vs)" by metis
  then show ?case
    by (simp add: extend_output_append [symmetric] output_calls_def map_filter_simps split: option.split)
qed

lemma convert_output_Inr:
  "convert_output vs = Inr out \<Longrightarrow>
     co_text out = append_all None (output_strings ''output_text'' ''text'' vs) \<and>
     co_refusal out = append_all None (output_strings ''refusal'' ''refusal'' vs) \<and>
     co_tool_calls out = map tool_call_json (output_calls vs)"
  by (auto simp: convert_output_def extend_output_def output_strings_def dest: convert_output_from_Inr)


definition demo_terminal :: terminal_event where
  "demo_terminal = \<lparr>te_kind = TK_Completed, te_payload = jobj [(''response'', jobj [
     (''object'', JStr ''response''), (''id'', JStr ''r1''), (''model'', JStr ''big''),
     (''created_at'', json_of_u64 7), (''output'', JArr [
        jobj [(''type'', JStr ''message''), (''role'', JStr ''assistant''), (''content'', JArr [
          jobj [(''type'', JStr ''output_text''), (''text'', JStr ''a'')],
          jobj [(''type'', JStr ''output_text''), (''text'', JStr ''b'')]])],
        jobj [(''type'', JStr ''function_call''), (''call_id'', JStr ''c1''), (''name'', JStr ''f''),
          (''arguments'', JStr ''{}'')]])])],
     te_usage = Some \<lparr>input_tokens = 5, cached_input_tokens = 1, output_tokens = 2, reasoning_tokens = 0,
       total_tokens = 7\<rparr>\<rparr>"

lemma demo_terminal_converts: "\<exists>ct. convert_terminal_event demo_terminal = Inr ct"
  by (simp add: demo_terminal_def convert_terminal_event_def terminal_status_def upstream_string_def
      upstream_integer_def convert_output_def convert_output_item_def convert_output_message_def
      json_of_u64_def jobj_def map_of_bmap_of_list)


section \<open>Round trip of tool calls\<close>

lemma map_of_jobj: "jobj es = JObj m \<Longrightarrow> map_of m = map_of (rev es)"
  by (auto simp: jobj_def map_of_bmap_of_list)

lemma tool_call_json_form: "tool_call_form c (tool_call_json c)"
  unfolding tool_call_form_def tool_call_json_def chat_tool_call_def jobj_def
  by (auto simp: map_of_bmap_of_list fun_eq_iff)

lemma assistant_echo_form:
  assumes "cs \<noteq> []"
  shows "message_form (AssistantMsg (map_option (\<lambda>t. [t]) c) cs)
    (jobj [(''role'', JStr ''assistant''), (''content'', json_of_str_option c),
       (''tool_calls'', JArr (map tool_call_json cs))])"
proof -
  have "list_all2 tool_call_form cs (map tool_call_json cs)"
    by (simp add: list_all2_conv_all_nth tool_call_json_form)
  with assms show ?thesis
    unfolding message_form_def jobj_def
    by (cases c) (auto simp: map_of_bmap_of_list content_form_def text_form_def tool_calls_form_def
        json_of_str_option_def split: if_splits)
qed

text \<open>
  Tool calls survive a turn of the conversation: the assistant message a client builds from the
  content and the tool calls of a completion is converted back into an assistant text and function call
  items with the same call ids, names and arguments, in the same order, that the upstream produced.
\<close>

theorem tool_calls_roundtrip:
  assumes "convert_output items = Inr out" and "output_calls items \<noteq> []"
  shows "convert_message k
      (jobj [(''role'', JStr ''assistant''), (''content'', json_of_str_option (co_text out)),
         (''tool_calls'', JArr (co_tool_calls out))]) (sys, input) =
    Inr (sys, input @ assistant_text (map_option (\<lambda>t. [t]) (co_text out)) @
      map tool_call_item (output_calls items))"
proof -
  have "co_tool_calls out = map tool_call_json (output_calls items)"
    using convert_output_Inr [OF assms(1)] by simp
  with assistant_echo_form [OF assms(2), of "co_text out"] show ?thesis
    unfolding convert_message_Inr
    by (intro exI [of _ "AssistantMsg (map_option (\<lambda>t. [t]) (co_text out)) (output_calls items)"]) simp
qed

section \<open>Streams\<close>

text \<open>A stream so far: the chunks of a sequence of events, up to the first error.\<close>

fun run_events ::
  "chat_stream_converter \<Rightarrow> json list \<Rightarrow> chat_error + (json list \<times> chat_stream_converter)" where
  "run_events cv [] = Inr ([], cv)"
| "run_events cv (e # es) =
     (case convert_event cv e of
        (Inl err, _) \<Rightarrow> Inl err
      | (Inr None, cv') \<Rightarrow> run_events cv' es
      | (Inr (Some c), cv') \<Rightarrow> res_bind (run_events cv' es) (\<lambda>(cs, cv''). Inr (c # cs, cv'')))"

definition chunk_choice :: "json \<Rightarrow> json option" where
  "chunk_choice c = (case jget c ''choices'' of Some (JArr [v]) \<Rightarrow> Some v | _ \<Rightarrow> None)"

definition chunk_content :: "json \<Rightarrow> string" where
  "chunk_content c =
     str_or [] (opt_bind (opt_bind (chunk_choice c) (\<lambda>v. jpointer v [''delta'', ''content''])) as_str)"

definition chunk_finish :: "json \<Rightarrow> string option" where
  "chunk_finish c = opt_bind (opt_bind (chunk_choice c) (\<lambda>v. jget v ''finish_reason'')) as_str"

definition event_delta :: "json \<Rightarrow> string" where
  "event_delta e =
     (if jget e ''type'' = Some (JStr ''response.output_text.delta'')
      then str_or [] (opt_bind (jget e ''delta'') as_str) else [])"

lemma chunk_Inr:
  "chunk cv d f = Inr c \<Longrightarrow> chunk_finish c = f \<and>
     chunk_content c = str_or [] (opt_bind (jget d ''content'') as_str) \<and>
     jget c ''id'' = map_option JStr (cv_id cv) \<and> cv_id cv \<noteq> None"
proof -
  assume "chunk cv d f = Inr c"
  then obtain i cr m where "metadata cv = Inr (i, cr, m)" and c: "c = jobj [
       (''id'', JStr i), (''object'', JStr ''chat.completion.chunk''),
       (''created'', json_of_i64 cr), (''model'', JStr m),
       (''choices'', JArr [jobj [
          (''index'', json_of_u64 0), (''delta'', d), (''logprobs'', JNull),
          (''finish_reason'', json_of_str_option f)]])]"
    unfolding chunk_def by (auto simp: res_bind_Inr_iff)
  then have "cv_id cv = Some i" by (auto simp: metadata_def split: option.splits)
  moreover have "chunk_choice c = Some (jobj [(''index'', json_of_u64 0), (''delta'', d), (''logprobs'', JNull),
      (''finish_reason'', json_of_str_option f)])"
    by (simp add: chunk_choice_def c)
  ultimately show ?thesis
    by (cases "jget d ''content''") (simp_all add: chunk_finish_def chunk_content_def c)
qed

lemma capture_keeps_usage: "capture_metadata cv m = (x, cv') \<Longrightarrow> cv_include_usage cv' = cv_include_usage cv"
  by (auto simp: capture_metadata_def Let_def split: sum.splits)

lemma convert_event_cases:
  assumes "convert_event cv e = (Inr r, cv')"
  obtains (created) m c where "jget e ''type'' = Some (JStr ''response.created'')"
      "capture_metadata cv m = (Inr (), cv')" "r = Some c"
      "chunk cv' (jobj [(''role'', JStr ''assistant''), (''content'', JStr [])]) None = Inr c"
  | (delta) d c where "jget e ''type'' = Some (JStr ''response.output_text.delta'')" "cv' = cv"
      "jget e ''delta'' = Some (JStr d)" "r = Some c" "chunk cv (jobj [(''content'', JStr d)]) None = Inr c"
  | (other) "jget e ''type'' \<noteq> Some (JStr ''response.output_text.delta'')" "r = None" "cv' = cv"
proof -
  consider "opt_bind (jget e ''type'') as_str = Some ''response.created''"
    | "opt_bind (jget e ''type'') as_str = Some ''response.output_text.delta''"
    | "opt_bind (jget e ''type'') as_str \<noteq> Some ''response.created''"
      "opt_bind (jget e ''type'') as_str \<noteq> Some ''response.output_text.delta''" by blast
  then show thesis
  proof cases
    case 1
    with assms created show thesis
      by (auto simp: convert_event_def Let_def result_simps split: option.splits prod.splits sum.splits)
  next
    case 2
    with assms delta show thesis by (auto simp: convert_event_def Let_def result_simps)
  next
    case 3
    with assms other show thesis by (auto simp: convert_event_def Let_def)
  qed
qed

lemma convert_event_content:
  assumes "convert_event cv e = (Inr r, cv')"
  shows "(case r of None \<Rightarrow> [] | Some c \<Rightarrow> chunk_content c) = event_delta e \<and>
    (\<forall>c. r = Some c \<longrightarrow> chunk_finish c = None) \<and> cv_include_usage cv' = cv_include_usage cv"
  using assms
proof (cases rule: convert_event_cases)
  case (created m c)
  with chunk_Inr [OF created(4)] capture_keeps_usage [OF created(2)] show ?thesis
    by (simp add: event_delta_def)
next
  case (delta d c)
  with chunk_Inr [OF delta(5)] show ?thesis by (simp add: event_delta_def)
next
  case other
  then show ?thesis by (simp add: event_delta_def)
qed

lemma run_events_content:
  "run_events cv es = Inr (cs, cv') \<Longrightarrow> concat (map chunk_content cs) = concat (map event_delta es) \<and>
     (\<forall>c \<in> set cs. chunk_finish c = None) \<and> cv_include_usage cv' = cv_include_usage cv"
proof (induction es arbitrary: cv cs)
  case (Cons e es)
  obtain r cv1 where e: "convert_event cv e = (r, cv1)" by (cases "convert_event cv e")
  with Cons.prems obtain x where x: "r = Inr x" by (cases r) simp_all
  note facts = convert_event_content [OF e [unfolded x]]
  show ?case
  proof (cases x)
    case None
    with Cons.prems e x Cons.IH [of cv1 cs] facts show ?thesis by simp
  next
    case (Some c)
    with Cons.prems e x obtain cs' where "run_events cv1 es = Inr (cs', cv')" "cs = c # cs'"
      by (auto simp: result_simps)
    with Cons.IH [of cv1 cs'] facts Some show ?thesis by simp
  qed
qed simp

lemma terminal_chunks_Inr:
  assumes "terminal_chunks cv status response ou = Inr st"
  shows "ou = Some (cst_usage st) \<and>
    (\<exists>fin extra. cst_chunks st = fin # extra \<and> chunk_content fin = [] \<and> chunk_finish fin \<noteq> None \<and>
       (if cv_include_usage cv
        then \<exists>u. extra = [u] \<and> jget u ''usage'' = Some (chat_usage (cst_usage st)) \<and>
          jget u ''choices'' = Some (JArr [])
        else extra = []))"
  using assms unfolding terminal_chunks_def
proof (elim result_elims, goal_cases)
  case (1 u fr fin extra)
  have "jget c ''usage'' = Some (chat_usage u) \<and> jget c ''choices'' = Some (JArr [])"
    if "usage_chunk cv u = Inr c" for c
    using that by (auto simp: usage_chunk_def result_simps)
  with 1 chunk_Inr [OF 1(3)] show ?case by (auto simp: result_simps split: if_splits)
qed

lemma convert_terminal_Inr:
  assumes "convert_terminal cv t = (Inr st, cv')"
  obtains status response where "terminal_chunks cv' status response (te_usage t) = Inr st"
    "cv_include_usage cv' = cv_include_usage cv"
proof -
  from assms obtain status response where
    "opt_bind (jget (te_payload t) ''response'') as_object = Some response"
    "terminal_status (te_kind t) = Inr status"
    unfolding convert_terminal_def by (cases "terminal_status (te_kind t)") (auto split: option.splits)
  with assms that show thesis
    by (cases "capture_metadata cv response") (auto simp: convert_terminal_def dest: capture_keeps_usage
        split: sum.splits)
qed

text \<open>
  C39. A streamed answer loses and repeats nothing: the contents of the chunks concatenate to the text
  deltas of the upstream events in order, no chunk before the terminal carries a finish reason, exactly
  the first chunk of the terminal does, and a usage chunk with the accounted usage follows exactly when
  the client asked for it.
\<close>

theorem stream_carries_the_deltas:
  assumes "run_events (converter_new include_usage) events = Inr (chunks, cv)"
    and "convert_terminal cv t = (Inr st, cv')"
  shows "concat (map chunk_content chunks) = concat (map event_delta events) \<and>
    (\<forall>c \<in> set chunks. chunk_finish c = None) \<and> te_usage t = Some (cst_usage st) \<and>
    (\<exists>fin extra. cst_chunks st = fin # extra \<and> chunk_content fin = [] \<and> chunk_finish fin \<noteq> None \<and>
       (if include_usage
        then \<exists>u. extra = [u] \<and> jget u ''usage'' = Some (chat_usage (cst_usage st)) \<and>
          jget u ''choices'' = Some (JArr [])
        else extra = []))"
  using assms(2)
proof (cases rule: convert_terminal_Inr)
  case (1 status response)
  have "cv_include_usage cv' = include_usage"
    using run_events_content [OF assms(1)] 1(2) by (simp add: converter_new_def)
  with terminal_chunks_Inr [OF 1(1)] run_events_content [OF assms(1)] show ?thesis by simp
qed

definition demo_events :: "json list" where
  "demo_events = [
     jobj [(''type'', JStr ''response.created''), (''response'', jobj [(''id'', JStr ''r1''),
       (''created_at'', json_of_u64 7), (''model'', JStr ''big'')])],
     jobj [(''type'', JStr ''response.output_text.delta''), (''delta'', JStr ''ab'')],
     jobj [(''type'', JStr ''response.output_text.done'')]]"

lemma demo_events_run:
  "\<exists>chunks st. run_events (converter_new True) demo_events = Inr (chunks,
     \<lparr>cv_id = Some ''r1'', cv_created = Some 7, cv_model = Some ''big'', cv_include_usage = True\<rparr>) \<and>
   convert_terminal \<lparr>cv_id = Some ''r1'', cv_created = Some 7, cv_model = Some ''big'', cv_include_usage = True\<rparr>
     demo_terminal = (Inr st,
     \<lparr>cv_id = Some ''r1'', cv_created = Some 7, cv_model = Some ''big'', cv_include_usage = True\<rparr>)"
  by (simp add: demo_events_def converter_new_def convert_event_def capture_metadata_def upstream_string_def
      upstream_integer_def chunk_def metadata_def demo_terminal_def convert_terminal_def terminal_status_def
      terminal_chunks_def usage_chunk_def json_of_u64_def jobj_def map_of_bmap_of_list)

theorem stream_carries_the_deltas_witness:
  "\<exists>chunks cv. run_events (converter_new True) demo_events = Inr (chunks, cv) \<and>
     concat (map chunk_content chunks) = ''ab''"
proof -
  have "concat (map event_delta demo_events) = ''ab''"
    by (simp add: demo_events_def event_delta_def)
  moreover from demo_events_run obtain chunks st cv cv' where
    "run_events (converter_new True) demo_events = Inr (chunks, cv)" "convert_terminal cv demo_terminal = (Inr st, cv')"
    by blast
  ultimately show ?thesis using stream_carries_the_deltas by metis
qed

end
