(* ===== verification/Upstream_Headers.thy ===== *)
theory Upstream_Headers
  imports Auth
begin

text \<open>
  The headers sent upstream (\<open>src/upstream_headers.rs\<close>): the allowlist of headers passed through, and
  the session header derived from the body's cache key. \<open>HeaderValue::from_str\<close> is the argument
  \<open>from_str\<close>.
\<close>

definition CODEX_ORIGINATOR :: string where
  "CODEX_ORIGINATOR = ''codex_cli_rs''"

definition CODEX_VERSION :: string where
  "CODEX_VERSION = ''0.159.2''"

definition CODEX_USER_AGENT :: string where
  "CODEX_USER_AGENT = ''codex_cli_rs/0.159.2 (codex-api)''"

definition CODEX_PASSTHROUGH_HEADERS :: "string list" where
  "CODEX_PASSTHROUGH_HEADERS =
     [''originator'', ''session_id'', ''thread_id'', ''session-id'', ''thread-id'', ''x-client-request-id'',
      ''user-agent'', ''x-codex-beta-features'', ''x-codex-turn-state'', ''x-codex-turn-metadata'',
      ''x-codex-window-id'', ''x-codex-parent-thread-id'', ''x-codex-image-turn-id'', ''x-openai-subagent'',
      ''x-openai-memgen-request'', ''x-responsesapi-include-timing-metrics'',
      ''x-openai-internal-codex-responses-lite'']"

text \<open>\<open>HeaderMap::insert\<close> replaces every value of the name; \<open>remove\<close> drops them.\<close>

definition header_remove :: "string \<Rightarrow> header_map \<Rightarrow> header_map" where
  "header_remove name h = filter (\<lambda>e. fst e \<noteq> name) h"

definition header_insert :: "string \<Rightarrow> string \<Rightarrow> header_map \<Rightarrow> header_map" where
  "header_insert name value h = header_remove name h @ [(name, value)]"

definition codex_passthrough_headers :: "header_map \<Rightarrow> header_map" where
  "codex_passthrough_headers source =
     fold (\<lambda>name headers.
         case header_get source name of
           None \<Rightarrow> headers
         | Some value \<Rightarrow> header_insert name value headers)
       CODEX_PASSTHROUGH_HEADERS []"

definition codex_request_headers :: "(string \<Rightarrow> string option) \<Rightarrow> header_map \<Rightarrow> json \<Rightarrow> header_map" where
  "codex_request_headers from_str source b =
     (let headers = codex_passthrough_headers source in
      if header_get headers ''session_id'' = None \<and> header_get headers ''session-id'' = None
      then
        (case opt_filter (\<lambda>key. key \<noteq> []) (opt_bind (jget b ''prompt_cache_key'') as_str) of
           None \<Rightarrow> headers
         | Some key \<Rightarrow>
             (case from_str key of
                None \<Rightarrow> headers
              | Some session_id \<Rightarrow> header_insert ''session_id'' session_id headers))
      else headers)"

section \<open>What goes upstream\<close>

lemma get_all_remove: "get_all (header_remove n h) k = (if k = n then [] else get_all h k)"
  by (auto simp: get_all_def header_remove_def filter_empty_conv intro!: arg_cong [where f = "map snd"] filter_cong)

lemma get_all_insert: "get_all (header_insert n v h) k = (if k = n then [v] else get_all h k)"
proof -
  have "get_all (xs @ ys) k = get_all xs k @ get_all ys k" for xs ys by (simp add: get_all_def)
  then show ?thesis by (simp add: header_insert_def get_all_remove) (simp add: get_all_def)
qed

text \<open>A header map is a keyed store: one value is read, writes replace, removals forget.\<close>

interpretation hd: keyed_store header_get header_insert header_remove
  by unfold_locales (auto simp: fun_eq_iff header_get_def get_all_insert get_all_remove)

lemma passthrough_fold:
  "distinct names \<Longrightarrow> get_all (fold (\<lambda>name headers.
         case header_get source name of
           None \<Rightarrow> headers
         | Some value \<Rightarrow> header_insert name value headers) names h) k =
     (if k \<in> set names then (case header_get source k of None \<Rightarrow> get_all h k | Some v \<Rightarrow> [v])
      else get_all h k)"
proof (induction names arbitrary: h)
  case (Cons n ns)
  then show ?case by (auto simp: get_all_insert split: option.split)
qed simp

lemma passthrough_distinct: "distinct CODEX_PASSTHROUGH_HEADERS"
  by (simp add: CODEX_PASSTHROUGH_HEADERS_def)

lemma get_all_passthrough:
  "get_all (codex_passthrough_headers source) k =
     (if k \<in> set CODEX_PASSTHROUGH_HEADERS
      then (case header_get source k of None \<Rightarrow> [] | Some v \<Rightarrow> [v]) else [])"
  unfolding codex_passthrough_headers_def passthrough_fold [OF passthrough_distinct]
  by (simp add: get_all_def split: option.split)

lemma header_get_passthrough:
  "k \<in> set CODEX_PASSTHROUGH_HEADERS \<Longrightarrow> header_get (codex_passthrough_headers source) k = header_get source k"
  by (simp add: header_get_def [of "codex_passthrough_headers source"] get_all_passthrough split: option.split)

lemma session_names: "''session_id'' \<in> set CODEX_PASSTHROUGH_HEADERS" "''session-id'' \<in> set CODEX_PASSTHROUGH_HEADERS"
  by (simp_all add: CODEX_PASSTHROUGH_HEADERS_def)

lemma authorization_not_listed: "''authorization'' \<notin> set CODEX_PASSTHROUGH_HEADERS"
  by (simp add: CODEX_PASSTHROUGH_HEADERS_def)

lemma get_all_request_headers:
  "get_all (codex_request_headers from_str source b) k =
     (if k = ''session_id'' \<and> header_get source ''session_id'' = None \<and> header_get source ''session-id'' = None
      then (case opt_bind (opt_filter (\<lambda>key. key \<noteq> []) (opt_bind (jget b ''prompt_cache_key'') as_str)) from_str of
              None \<Rightarrow> [] | Some v \<Rightarrow> [v])
      else if k \<in> set CODEX_PASSTHROUGH_HEADERS
      then (case header_get source k of None \<Rightarrow> [] | Some v \<Rightarrow> [v])
      else [])"
proof (cases "opt_filter (\<lambda>key. key \<noteq> []) (opt_bind (jget b ''prompt_cache_key'') as_str)")
  case None
  then show ?thesis
    by (simp add: codex_request_headers_def Let_def header_get_passthrough session_names get_all_passthrough)
next
  case (Some key)
  then show ?thesis
    by (simp add: codex_request_headers_def Let_def header_get_passthrough session_names get_all_insert
        get_all_passthrough split: option.split)
qed

text \<open>
  Only allowlisted headers ever reach the upstream, each at most once and with the client's first
  value; the one exception is \<open>session_id\<close>, which is set from a non-empty \<open>prompt_cache_key\<close> exactly
  when the client sent no session header. In particular the client's \<open>authorization\<close> is never
  forwarded.
\<close>

theorem request_headers_exact:
  "get_all (codex_request_headers from_str source b) k =
     (if k = ''session_id'' \<and> header_get source ''session_id'' = None \<and> header_get source ''session-id'' = None
      then (case opt_bind (opt_filter (\<lambda>key. key \<noteq> []) (opt_bind (jget b ''prompt_cache_key'') as_str)) from_str of
              None \<Rightarrow> [] | Some v \<Rightarrow> [v])
      else if k \<in> set CODEX_PASSTHROUGH_HEADERS
      then (case header_get source k of None \<Rightarrow> [] | Some v \<Rightarrow> [v])
      else []) \<and>
   get_all (codex_request_headers from_str source b) ''authorization'' = []"
  by (simp only: get_all_request_headers authorization_not_listed) simp

end
