(* ===== verification/Credentials.thy ===== *)
theory Credentials
  imports Store_Props
begin

text \<open>
  The ChatGPT credentials (\<open>src/credentials.rs\<close>): the seed read from the authentication file, when a
  token must be refreshed, the exchange of the rotating refresh token, and the single flight that
  keeps concurrent callers from exchanging it twice. Base64, the deserialisers of the token claims,
  \<open>HeaderValue::from_str\<close> and the RFC 3339 parser are arguments (\<open>token_ops\<close>), the answer of the OAuth
  endpoint is a value of \<open>oauth_reply\<close>. Instants are nanoseconds of Unix time.
\<close>

section \<open>Data\<close>

record token_ops =
  tk_base64 :: "string \<Rightarrow> string option"
  tk_expiry_claims :: "string \<Rightarrow> int option"
  tk_account_claims :: "string \<Rightarrow> string option option option"
  tk_header_value :: "string \<Rightarrow> string option"
  tk_rfc3339 :: "string \<Rightarrow> int option"

datatype CredentialError =
    ReadSeed
  | InvalidSeed
  | InvalidSeedStructure
  | CredentialStore StoreError
  | OauthRequest
  | OauthRejected nat
  | OauthResponse
  | InvalidOauthResponse
  | SharedRefresh CredentialError
  | RefreshTaskStopped

record credential_snapshot =
  snap_access_token :: string
  snap_account_id :: string
  snap_generation :: u64

record credential_state =
  cs_credential :: credential
  cs_generation :: u64

datatype RefreshReason = Proactive | Unauthorized

record auth_tokens =
  at_id_token :: string
  at_access_token :: string
  at_refresh_token :: string
  at_account_id :: "string option"

record auth_file =
  af_auth_mode :: string
  af_tokens :: auth_tokens
  af_last_refresh :: string

record refresh_response =
  rr_id_token :: "string option"
  rr_access_token :: "string option"
  rr_refresh_token :: "string option"

text \<open>No answer, a status that is not a success, a body that does not parse, or tokens.\<close>

datatype oauth_reply =
    Oauth_No_Response
  | Oauth_Status nat
  | Oauth_Bad_Body
  | Oauth_Tokens refresh_response

section \<open>Tokens\<close>

fun split_on :: "char \<Rightarrow> string \<Rightarrow> string list" where
  "split_on c [] = [[]]"
| "split_on c (x # xs) =
     (if x = c then [] # split_on c xs
      else (case split_on c xs of [] \<Rightarrow> [[x]] | y # ys \<Rightarrow> (x # y) # ys))"

text \<open>\<open>decode_jwt_payload\<close> for one type of claims.\<close>

definition decode_jwt_payload :: "token_ops \<Rightarrow> (string \<Rightarrow> 'a option) \<Rightarrow> string \<Rightarrow> 'a option" where
  "decode_jwt_payload ops claims token =
     (case split_on (CHR ''.'') token of
        _ # payload # _ \<Rightarrow> opt_bind (tk_base64 ops payload) claims
      | _ \<Rightarrow> None)"

text \<open>\<open>from_unix_timestamp\<close> covers the years -9999 to 9999.\<close>

definition from_unix_timestamp :: "int \<Rightarrow> int option" where
  "from_unix_timestamp s = (if - 377705116800 \<le> s \<and> s < 253402300800 then Some (s * 10 ^ 9) else None)"

definition access_expiry :: "token_ops \<Rightarrow> string \<Rightarrow> int option" where
  "access_expiry ops token =
     opt_bind (decode_jwt_payload ops (tk_expiry_claims ops) token) from_unix_timestamp"

definition account_id_from_id_token :: "token_ops \<Rightarrow> string \<Rightarrow> string option" where
  "account_id_from_id_token ops token =
     opt_bind (decode_jwt_payload ops (tk_account_claims ops) token) (\<lambda>auth.
     opt_bind auth (\<lambda>claim. opt_filter (\<lambda>i. trim i \<noteq> []) claim))"

definition optional_nonempty :: "string option \<Rightarrow> CredentialError + string option" where
  "optional_nonempty value =
     (case value of
        Some v \<Rightarrow> if trim v = [] then Inl InvalidOauthResponse else Inr (Some v)
      | None \<Rightarrow> Inr None)"

definition upstream_headers_are_valid :: "token_ops \<Rightarrow> string \<Rightarrow> string \<Rightarrow> bool" where
  "upstream_headers_are_valid ops access account \<longleftrightarrow>
     tk_header_value ops (''Bearer '' @ access) \<noteq> None \<and> tk_header_value ops account \<noteq> None"

definition proactive_refresh_window :: int where
  "proactive_refresh_window = 5 * 60 * 10 ^ 9"

definition opaque_token_refresh_age :: int where
  "opaque_token_refresh_age = 8 * 86400 * 10 ^ 9"

definition credential_needs_refresh :: "credential \<Rightarrow> int \<Rightarrow> bool" where
  "credential_needs_refresh c now =
     (case access_expires_at c of
        Some expires_at \<Rightarrow> expires_at \<le> now + proactive_refresh_window
      | None \<Rightarrow> last_refresh c < now - opaque_token_refresh_age)"

section \<open>The seed\<close>

definition read_auth_seed ::
  "token_ops \<Rightarrow> (string \<Rightarrow> auth_file option) \<Rightarrow> string option \<Rightarrow> CredentialError + credential" where
  "read_auth_seed ops parse contents =
     res_bind (ok_or ReadSeed contents) (\<lambda>bytes.
     res_bind (ok_or InvalidSeed (parse bytes)) (\<lambda>auth.
     let tokens = af_tokens auth in
     if af_auth_mode auth \<noteq> ''chatgpt'' \<or> trim (at_access_token tokens) = [] \<or>
        trim (at_refresh_token tokens) = [] \<or> trim (at_id_token tokens) = []
     then Inl InvalidSeedStructure
     else
       res_bind
         (ok_or InvalidSeedStructure
           (case opt_filter (\<lambda>i. trim i \<noteq> []) (at_account_id tokens) of
              Some i \<Rightarrow> Some i
            | None \<Rightarrow> account_id_from_id_token ops (at_id_token tokens))) (\<lambda>account.
       if \<not> upstream_headers_are_valid ops (at_access_token tokens) account
       then Inl InvalidSeedStructure
       else
         res_bind (ok_or InvalidSeedStructure (tk_rfc3339 ops (af_last_refresh auth))) (\<lambda>refreshed.
         Inr \<lparr>account_id = account, access_token = at_access_token tokens,
              refresh_token = at_refresh_token tokens,
              access_expires_at = access_expiry ops (at_access_token tokens),
              last_refresh = refreshed\<rparr>))))"

definition credential_manager_load ::
  "token_ops \<Rightarrow> (string \<Rightarrow> auth_file option) \<Rightarrow> db_env \<Rightarrow> string option \<Rightarrow> store \<Rightarrow>
     (CredentialError + credential_state) \<times> store" where
  "credential_manager_load ops parse env contents st =
     (case read_auth_seed ops parse contents of
        Inl e \<Rightarrow> (Inl e, st)
      | Inr seed \<Rightarrow>
          (case load_or_import_credentials env seed st of
             (Inl e, st') \<Rightarrow> (Inl (CredentialStore e), st')
           | (Inr c, st') \<Rightarrow> (Inr \<lparr>cs_credential = c, cs_generation = 0\<rparr>, st')))"

section \<open>Refreshing\<close>

definition snapshot_from_state :: "credential_state \<Rightarrow> credential_snapshot" where
  "snapshot_from_state s =
     \<lparr>snap_access_token = access_token (cs_credential s), snap_account_id = account_id (cs_credential s),
      snap_generation = cs_generation s\<rparr>"

text \<open>
  The critical section of \<open>refresh_generation\<close>, given the generation of the flight that is recorded: the
  snapshot to return at once, or a flight to wait for, an existing one or a new one.
\<close>

datatype refresh_entry = Answer credential_snapshot | Join_Flight | Start_Flight

definition enter_refresh ::
  "int \<Rightarrow> u64 \<Rightarrow> RefreshReason \<Rightarrow> u64 option \<Rightarrow> credential_state \<Rightarrow> refresh_entry" where
  "enter_refresh now expected reason flight s =
     (if cs_generation s \<noteq> expected then Answer (snapshot_from_state s)
      else if reason = Proactive \<and> \<not> credential_needs_refresh (cs_credential s) now
      then Answer (snapshot_from_state s)
      else if flight = Some expected then Join_Flight
      else Start_Flight)"

text \<open>\<open>credentials\<close>: which refresh it asks for, if any.\<close>

definition credentials_entry :: "int \<Rightarrow> credential_state \<Rightarrow> u64 option" where
  "credentials_entry now s =
     (if credential_needs_refresh (cs_credential s) now then Some (cs_generation s) else None)"

text \<open>
  \<open>perform_refresh\<close> holds no lock while it waits for the endpoint, so it is two steps: reading the
  refresh token, and applying the answer. \<open>save\<close> is the store's \<open>save_credentials\<close>.
\<close>

definition refresh_begin :: "u64 \<Rightarrow> credential_state \<Rightarrow> credential_snapshot + string" where
  "refresh_begin expected s =
     (if cs_generation s \<noteq> expected then Inl (snapshot_from_state s)
      else Inr (refresh_token (cs_credential s)))"

definition refreshed_credential ::
  "token_ops \<Rightarrow> int \<Rightarrow> refresh_response \<Rightarrow> credential \<Rightarrow> CredentialError + credential" where
  "refreshed_credential ops now r c =
     (let account = (case opt_bind (rr_id_token r) (account_id_from_id_token ops) of
                       Some i \<Rightarrow> i | None \<Rightarrow> account_id c)
      in
        res_bind (optional_nonempty (rr_access_token r)) (\<lambda>access.
        res_bind (optional_nonempty (rr_refresh_token r)) (\<lambda>refresh.
        let access = (case access of Some t \<Rightarrow> t | None \<Rightarrow> access_token c);
            refresh = (case refresh of Some t \<Rightarrow> t | None \<Rightarrow> refresh_token c)
        in if \<not> upstream_headers_are_valid ops access account then Inl InvalidOauthResponse
           else Inr \<lparr>account_id = account, access_token = access, refresh_token = refresh,
                     access_expires_at = access_expiry ops access, last_refresh = now\<rparr>)))"

definition refresh_finish ::
  "token_ops \<Rightarrow> (credential \<Rightarrow> 's \<Rightarrow> (StoreError + unit) \<times> 's) \<Rightarrow> int \<Rightarrow> u64 \<Rightarrow> oauth_reply \<Rightarrow>
     credential_state \<Rightarrow> 's \<Rightarrow> (CredentialError + credential_snapshot) \<times> credential_state \<times> 's" where
  "refresh_finish ops save now expected reply s st =
     (case reply of
        Oauth_No_Response \<Rightarrow> (Inl OauthRequest, s, st)
      | Oauth_Status n \<Rightarrow> (Inl (OauthRejected n), s, st)
      | Oauth_Bad_Body \<Rightarrow> (Inl OauthResponse, s, st)
      | Oauth_Tokens r \<Rightarrow>
          if cs_generation s \<noteq> expected then (Inr (snapshot_from_state s), s, st)
          else
            (case refreshed_credential ops now r (cs_credential s) of
               Inl e \<Rightarrow> (Inl e, s, st)
             | Inr updated \<Rightarrow>
                 (case save updated st of
                    (Inl e, st') \<Rightarrow> (Inl (CredentialStore e), s, st')
                  | (Inr _, st') \<Rightarrow>
                      (let s' = \<lparr>cs_credential = updated, cs_generation = cs_generation s + 1\<rparr>
                       in (Inr (snapshot_from_state s'), s', st')))))"

text \<open>The end of the refresh task: a 5xx rejection clears the flight, so that it can be retried.\<close>

definition retryable_server_error :: "CredentialError + credential_snapshot \<Rightarrow> bool" where
  "retryable_server_error outcome =
     (case outcome of Inl (OauthRejected n) \<Rightarrow> 500 \<le> n \<and> n \<le> 599 | _ \<Rightarrow> False)"

definition settle_flight ::
  "u64 \<Rightarrow> CredentialError + credential_snapshot \<Rightarrow> u64 option \<Rightarrow> u64 option" where
  "settle_flight expected outcome flight =
     (if retryable_server_error outcome \<and> flight = Some expected then None else flight)"

section \<open>What a refresh promises\<close>

text \<open>
  What the manager relies on of its store: a save that succeeds is what the next start reads, and a
  save that fails changes nothing.
\<close>

locale credential_store =
  fixes save :: "credential \<Rightarrow> 's \<Rightarrow> (StoreError + unit) \<times> 's"
    and stored :: "'s \<Rightarrow> credential option"
  assumes save_ok: "save c st = (Inr u, st') \<Longrightarrow> stored st' = Some c"
    and save_err: "save c st = (Inl e, st') \<Longrightarrow> st' = st"
begin

lemma finish_cases:
  assumes "refresh_finish ops save now g reply s st = (r, s', st')"
  obtains (failed) e where "r = Inl e" "s' = s" "st' = st"
    | (stale) "r = Inr (snapshot_from_state s)" "cs_generation s \<noteq> g" "s' = s" "st' = st"
    | (renewed) rr where "reply = Oauth_Tokens rr" "cs_generation s = g" "cs_generation s' = g + 1"
        "refreshed_credential ops now rr (cs_credential s) = Inr (cs_credential s')"
        "stored st' = Some (cs_credential s')" "r = Inr (snapshot_from_state s')"
proof (cases "\<exists>rr c. reply = Oauth_Tokens rr \<and> cs_generation s = g \<and>
    refreshed_credential ops now rr (cs_credential s) = Inr c")
  case True
  then obtain rr c where rr: "reply = Oauth_Tokens rr" "cs_generation s = g"
      "refreshed_credential ops now rr (cs_credential s) = Inr c" by blast
  obtain q st2 where sv: "save c st = (q, st2)" by fastforce
  show ?thesis
  proof (cases q)
    case (Inl e)
    with sv have "st2 = st" by (simp add: save_err)
    with rr sv Inl assms show ?thesis by (auto simp: refresh_finish_def intro: failed)
  next
    case (Inr u)
    with sv have "stored st2 = Some c" by (simp add: save_ok)
    with rr sv Inr assms show ?thesis by (auto simp: refresh_finish_def Let_def intro: renewed)
  qed
next
  case False
  then have "(\<exists>e. r = Inl e) \<and> s' = s \<and> st' = st \<or>
      r = Inr (snapshot_from_state s) \<and> cs_generation s \<noteq> g \<and> s' = s \<and> st' = st"
    using assms by (auto simp: refresh_finish_def split: oauth_reply.splits if_splits sum.splits)
  then show ?thesis using failed stale by blast
qed

lemma finish_in_step:
  assumes "refresh_finish ops save now g reply s st = (r, s', st')" "stored st = Some (cs_credential s)"
  shows "stored st' = Some (cs_credential s')"
  using assms(1) by (rule finish_cases) (use assms(2) in simp_all)

end

definition stored_credential :: "store \<Rightarrow> credential option" where
  "stored_credential st =
     opt_bind (credentials st) (\<lambda>row. case credential_from_row row of Inl e \<Rightarrow> None | Inr c \<Rightarrow> Some c)"

interpretation db: credential_store "save_credentials env" stored_credential for env
proof
  fix c st u st'
  assume "save_credentials env c st = (Inr u, st')"
  then obtain r where "bind_credential c = Inr r" "credentials st' = Some r"
    by (auto simp: save_credentials_def commit_credentials_def update_credentials_def result_simps
        split: if_splits option.splits sum.splits)
  then show "stored_credential st' = Some c"
    by (simp add: stored_credential_def credential_row_roundtrip)
next
  fix c st e st'
  assume "save_credentials env c st = (Inl e, st')"
  then show "st' = st"
    by (auto simp: save_credentials_def commit_credentials_def split: if_splits sum.splits)
qed

lemma optional_nonempty_Inr:
  "optional_nonempty v = Inr w \<longleftrightarrow> w = v \<and> opt_all (\<lambda>t. trim t \<noteq> []) v"
  by (auto simp: optional_nonempty_def split: option.split)

lemma refreshed_credential_fields:
  assumes "refreshed_credential ops now rr c = Inr c'"
  shows "upstream_headers_are_valid ops (access_token c') (account_id c')"
    and "access_token c' = (case rr_access_token rr of Some t \<Rightarrow> t | None \<Rightarrow> access_token c)"
    and "refresh_token c' = (case rr_refresh_token rr of Some t \<Rightarrow> t | None \<Rightarrow> refresh_token c)"
    and "last_refresh c' = now"
proof -
  from assms obtain acc ref where "optional_nonempty (rr_access_token rr) = Inr acc"
      "optional_nonempty (rr_refresh_token rr) = Inr ref"
    unfolding refreshed_credential_def Let_def by (elim result_elims)
  then have "optional_nonempty (rr_access_token rr) = Inr (rr_access_token rr)"
      "optional_nonempty (rr_refresh_token rr) = Inr (rr_refresh_token rr)"
    by (simp_all add: optional_nonempty_Inr)
  note c' = assms [unfolded refreshed_credential_def Let_def this res_bind_simps]
  show "upstream_headers_are_valid ops (access_token c') (account_id c')"
    and "access_token c' = (case rr_access_token rr of Some t \<Rightarrow> t | None \<Rightarrow> access_token c)"
    and "refresh_token c' = (case rr_refresh_token rr of Some t \<Rightarrow> t | None \<Rightarrow> refresh_token c)"
    and "last_refresh c' = now"
    using c' by (auto split: if_splits)
qed

text \<open>
  C14. A refresh is all or nothing: an error of any kind (no answer, a rejection, an unreadable body,
  empty or unusable tokens, a failed save) leaves the credential, its generation and the database
  as they were; a success either finds that another refresh won, or has the new credential in the
  database, in memory and in the snapshot returned, one generation on, with tokens the answer omits
  kept and headers that can be sent.
\<close>

theorem refresh_all_or_nothing:
  assumes "refresh_finish ops (save_credentials env) now g reply s st = (r, s', st')"
  shows "case r of
      Inl e \<Rightarrow> s' = s \<and> st' = st
    | Inr snap \<Rightarrow> snap = snapshot_from_state s' \<and>
        (cs_generation s \<noteq> g \<and> s' = s \<and> st' = st \<or>
         (\<exists>rr. reply = Oauth_Tokens rr \<and> cs_generation s = g \<and> cs_generation s' = g + 1 \<and>
            stored_credential st' = Some (cs_credential s') \<and>
            upstream_headers_are_valid ops (access_token (cs_credential s')) (account_id (cs_credential s')) \<and>
            access_token (cs_credential s') =
              (case rr_access_token rr of Some t \<Rightarrow> t | None \<Rightarrow> access_token (cs_credential s)) \<and>
            refresh_token (cs_credential s') =
              (case rr_refresh_token rr of Some t \<Rightarrow> t | None \<Rightarrow> refresh_token (cs_credential s)) \<and>
            last_refresh (cs_credential s') = now))"
  using assms
proof (cases rule: db.finish_cases)
  case (renewed rr)
  then show ?thesis using refreshed_credential_fields [OF renewed(4)] by simp
qed simp_all

definition demo_ops :: token_ops where
  "demo_ops = \<lparr>tk_base64 = (\<lambda>s. None), tk_expiry_claims = (\<lambda>s. None), tk_account_claims = (\<lambda>s. None),
     tk_header_value = Some, tk_rfc3339 = (\<lambda>s. Some 1000000000)\<rparr>"

definition demo_state :: credential_state where
  "demo_state = \<lparr>cs_credential = demo_credential, cs_generation = 0\<rparr>"

definition demo_renewed :: credential_state where
  "demo_renewed =
     \<lparr>cs_credential = \<lparr>account_id = ''acct'', access_token = ''at2'', refresh_token = ''rt'',
        access_expires_at = None, last_refresh = 9000000000\<rparr>, cs_generation = 1\<rparr>"

definition demo_reply :: oauth_reply where
  "demo_reply = Oauth_Tokens \<lparr>rr_id_token = None, rr_access_token = Some ''at2'', rr_refresh_token = None\<rparr>"

definition demo_resaved :: store where
  "demo_resaved = empty_store\<lparr>credentials := Some \<lparr>cr_account_id = ''acct'', cr_access_token = ''at2'',
     cr_refresh_token = ''rt'', cr_access_expires_at_ns = None, cr_last_refresh_ns = 9000000000\<rparr>\<rparr>"

lemma demo_no_expiry: "access_expiry demo_ops ''at2'' = None"
  by (simp add: access_expiry_def decode_jwt_payload_def demo_ops_def)

lemma demo_trim: "trim ''at2'' = ''at2''"
  by code_simp

lemma demo_refreshed:
  "refreshed_credential demo_ops 9000000000
     \<lparr>rr_id_token = None, rr_access_token = Some ''at2'', rr_refresh_token = None\<rparr> demo_credential =
     Inr (cs_credential demo_renewed)"
  by (simp add: refreshed_credential_def optional_nonempty_def demo_no_expiry upstream_headers_are_valid_def
      demo_renewed_def demo_credential_def demo_trim Let_def) (simp add: demo_ops_def)

lemma demo_resave:
  "save_credentials no_faults (cs_credential demo_renewed) demo_seeded = (Inr (), demo_resaved)"
  by (simp add: save_credentials_def commit_credentials_def update_credentials_def no_faults_def
      bind_credential_def optional_timestamp_ns_def timestamp_ns_def demo_renewed_def
      demo_seeded_def demo_resaved_def i64_try_from_def i64_min_def i64_max_def)

lemma demo_refresh:
  "refresh_finish demo_ops (save_credentials no_faults) 9000000000 0 demo_reply demo_state demo_seeded =
     (Inr (snapshot_from_state demo_renewed), demo_renewed, demo_resaved)"
  by (simp add: refresh_finish_def demo_reply_def demo_state_def demo_refreshed demo_resave)
    (simp add: demo_renewed_def Let_def)

theorem refresh_all_or_nothing_witness:
  "stored_credential demo_resaved = Some (cs_credential demo_renewed) \<and>
   access_token (cs_credential demo_renewed) = ''at2'' \<and> refresh_token (cs_credential demo_renewed) = ''rt''"
  using refresh_all_or_nothing [OF demo_refresh]
  by (simp add: demo_state_def demo_reply_def demo_credential_def)

end
