(* ===== verification/Credential_Flight.thy ===== *)
theory Credential_Flight
  imports Credentials
begin

text \<open>
  Concurrent callers of \<open>CredentialManager\<close> (\<open>refresh_generation\<close> and the task it spawns) as a step
  relation. A step is one critical section: a caller enters, a task reads the refresh token, the
  answer of the endpoint is applied, a task settles the flight and publishes its outcome. The log of
  exchanges and 5xx rejections and the count of refreshes are ghost state.
\<close>

section \<open>The system\<close>

datatype task_phase =
    Queued
  | Exchanging
  | Settling "CredentialError + credential_snapshot"

record refresh_task =
  tk_channel :: nat
  tk_generation :: u64
  tk_phase :: task_phase

record refresh_flight =
  fl_generation :: u64
  fl_channel :: nat

datatype exchange_event = Exchanged u64 | Rejected_5xx u64

record credential_system =
  sy_state :: credential_state
  sy_store :: store
  sy_flight :: "refresh_flight option"
  sy_tasks :: "refresh_task list"
  sy_outcomes :: "nat \<Rightarrow> (CredentialError + credential_snapshot) option"
  sy_next_channel :: nat
  sy_log :: "exchange_event list"
  sy_refreshes :: nat

definition credential_system_init :: "credential_state \<Rightarrow> store \<Rightarrow> credential_system" where
  "credential_system_init s st =
     \<lparr>sy_state = s, sy_store = st, sy_flight = None, sy_tasks = [], sy_outcomes = (\<lambda>c. None),
      sy_next_channel = 0, sy_log = [], sy_refreshes = 0\<rparr>"

text \<open>A caller: the answer it has at once, or the channel it waits on.\<close>

definition refresh_generation ::
  "int \<Rightarrow> u64 \<Rightarrow> RefreshReason \<Rightarrow> credential_system \<Rightarrow> (credential_snapshot + nat) \<times> credential_system" where
  "refresh_generation now expected reason y =
     (case enter_refresh now expected reason (map_option fl_generation (sy_flight y)) (sy_state y) of
        Answer snapshot \<Rightarrow> (Inl snapshot, y)
      | Join_Flight \<Rightarrow> (Inr (case sy_flight y of Some f \<Rightarrow> fl_channel f | None \<Rightarrow> 0), y)
      | Start_Flight \<Rightarrow>
          (let channel = sy_next_channel y in
           (Inr channel,
            y\<lparr>sy_flight := Some \<lparr>fl_generation = expected, fl_channel = channel\<rparr>,
              sy_tasks := sy_tasks y @ [\<lparr>tk_channel = channel, tk_generation = expected, tk_phase = Queued\<rparr>],
              sy_next_channel := channel + 1\<rparr>)))"

text \<open>
  The two ways in: a request that needs a credential, which reads the state (\<open>state\<close>) and lets its lock go before
  it enters, and one whose credential was refused.
\<close>

definition manager_credentials ::
  "int \<Rightarrow> credential_state \<Rightarrow> int \<Rightarrow> credential_system \<Rightarrow> (credential_snapshot + nat) \<times> credential_system" where
  "manager_credentials read_at state now y =
     (case credentials_entry read_at state of
        Some g \<Rightarrow> refresh_generation now g Proactive y
      | None \<Rightarrow> (Inl (snapshot_from_state (sy_state y)), y))"

definition refresh_after_unauthorized ::
  "int \<Rightarrow> u64 \<Rightarrow> credential_system \<Rightarrow> (credential_snapshot + nat) \<times> credential_system" where
  "refresh_after_unauthorized now failed y = refresh_generation now failed Unauthorized y"

text \<open>\<open>finish_refreshes\<close> waits for this.\<close>

definition refreshes_finished :: "credential_system \<Rightarrow> bool" where
  "refreshes_finished y \<longleftrightarrow> sy_tasks y = []"

text \<open>The loop at the end of \<open>refresh_generation\<close>: what a waiting caller returns once it is published.\<close>

definition await_outcome ::
  "nat \<Rightarrow> credential_system \<Rightarrow> (CredentialError + credential_snapshot) option" where
  "await_outcome channel y =
     map_option (\<lambda>r. case r of Inl e \<Rightarrow> Inl (SharedRefresh e) | Inr snapshot \<Rightarrow> Inr snapshot)
       (sy_outcomes y channel)"

definition task_begin :: "refresh_task \<Rightarrow> credential_system \<Rightarrow> refresh_task \<times> exchange_event list" where
  "task_begin t y =
     (case refresh_begin (tk_generation t) (sy_state y) of
        Inl snapshot \<Rightarrow> (t\<lparr>tk_phase := Settling (Inr snapshot)\<rparr>, [])
      | Inr refresh \<Rightarrow> (t\<lparr>tk_phase := Exchanging\<rparr>, [Exchanged (tk_generation t)]))"

definition is_5xx :: "oauth_reply \<Rightarrow> bool" where
  "is_5xx reply = (case reply of Oauth_Status n \<Rightarrow> 500 \<le> n \<and> n \<le> 599 | _ \<Rightarrow> False)"

inductive task_step :: "token_ops \<Rightarrow> credential_system \<Rightarrow> credential_system \<Rightarrow> bool" for ops where
  start:
    "sy_tasks y = before @ t # after \<Longrightarrow> tk_phase t = Queued \<Longrightarrow> task_begin t y = (t', events) \<Longrightarrow>
     task_step ops y (y\<lparr>sy_tasks := before @ t' # after, sy_log := sy_log y @ events\<rparr>)"
| reply:
    "sy_tasks y = before @ t # after \<Longrightarrow> tk_phase t = Exchanging \<Longrightarrow>
     refresh_finish ops (save_credentials env) now (tk_generation t) answer (sy_state y) (sy_store y) =
       (outcome, s', st') \<Longrightarrow>
     task_step ops y
       (y\<lparr>sy_state := s', sy_store := st',
          sy_tasks := before @ t\<lparr>tk_phase := Settling outcome\<rparr> # after,
          sy_log := sy_log y @ (if is_5xx answer then [Rejected_5xx (tk_generation t)] else []),
          sy_refreshes := sy_refreshes y + (if s' = sy_state y then 0 else 1)\<rparr>)"
| publish:
    "sy_tasks y = before @ t # after \<Longrightarrow> tk_phase t = Settling outcome \<Longrightarrow>
     task_step ops y
       (y\<lparr>sy_flight :=
            (if settle_flight (tk_generation t) outcome (map_option fl_generation (sy_flight y)) = None
             then None else sy_flight y),
          sy_tasks := before @ after,
          sy_outcomes := (sy_outcomes y)(tk_channel t \<mapsto> outcome)\<rparr>)"

inductive credential_step :: "token_ops \<Rightarrow> credential_system \<Rightarrow> credential_system \<Rightarrow> bool" for ops where
  caller: "refresh_generation now expected reason y = (answer, y') \<Longrightarrow> credential_step ops y y'"
| task: "task_step ops y y' \<Longrightarrow> credential_step ops y y'"

inductive credential_reachable :: "token_ops \<Rightarrow> credential_system \<Rightarrow> credential_system \<Rightarrow> bool" for ops y0 where
  initially: "credential_reachable ops y0 y0"
| later: "credential_reachable ops y0 y \<Longrightarrow> credential_step ops y y' \<Longrightarrow> credential_reachable ops y0 y'"


section \<open>A generation is exchanged once\<close>

definition tasks_in :: "(refresh_task \<Rightarrow> bool) \<Rightarrow> credential_system \<Rightarrow> nat" where
  "tasks_in P y = length (filter P (sy_tasks y))"

text \<open>A task that may still exchange the token, or whose 5xx answer has not been settled.\<close>

definition holds_claim :: "u64 \<Rightarrow> refresh_task \<Rightarrow> bool" where
  "holds_claim g t \<longleftrightarrow> tk_generation t = g \<and>
     (case tk_phase t of Queued \<Rightarrow> True | Exchanging \<Rightarrow> False | Settling r \<Rightarrow> retryable_server_error r)"

definition allowance :: "u64 \<Rightarrow> credential_system \<Rightarrow> nat" where
  "allowance g y =
     (if map_option fl_generation (sy_flight y) = Some g \<or> g < cs_generation (sy_state y) then 1 else 0)"

definition flight_inv :: "credential_system \<Rightarrow> bool" where
  "flight_inv y \<longleftrightarrow>
     (\<forall>g. count_list (sy_log y) (Exchanged g) + tasks_in (holds_claim g) y
          \<le> count_list (sy_log y) (Rejected_5xx g) + allowance g y) \<and>
     (\<forall>f. sy_flight y = Some f \<longrightarrow> fl_generation f \<le> cs_generation (sy_state y)) \<and>
     unat (cs_generation (sy_state y)) = sy_refreshes y"

lemma finish_retryable:
  assumes "refresh_finish ops (save_credentials env) now g answer s st = (outcome, s', st')"
  shows "retryable_server_error outcome = is_5xx answer"
proof -
  have err: "e = InvalidOauthResponse" if "refreshed_credential ops now r c = Inl e" for r c e
    using that by (auto simp: refreshed_credential_def Let_def optional_nonempty_def res_bind_Inl_iff
        split: option.splits if_splits)
  from assms show ?thesis
    by (auto simp: refresh_finish_def Let_def retryable_server_error_def is_5xx_def dest!: err
        split: oauth_reply.splits if_splits sum.splits prod.splits)
qed

lemma generation_step:
  fixes g :: u64
  assumes "unat g + 1 < 2 ^ 64"
  shows "unat (g + 1) = unat g + 1" and "g < g + 1"
proof -
  show "unat (g + 1) = unat g + 1"
    using assms unat_add_lem [of g 1] by simp
  then show "g < g + 1" by (simp add: word_less_nat_alt)
qed

lemma caller_keeps_flight_inv:
  assumes inv: "flight_inv y" and "refresh_generation now expected reason y = (answer, y')"
  shows "flight_inv y'"
proof (cases "enter_refresh now expected reason (map_option fl_generation (sy_flight y)) (sy_state y)")
  case Start_Flight
  then have g: "expected = cs_generation (sy_state y)"
      and old: "map_option fl_generation (sy_flight y) \<noteq> Some expected"
    by (auto simp: enter_refresh_def split: if_splits)
  have y': "y' = y\<lparr>sy_flight := Some \<lparr>fl_generation = expected, fl_channel = sy_next_channel y\<rparr>,
              sy_tasks := sy_tasks y @ [\<lparr>tk_channel = sy_next_channel y, tk_generation = expected, tk_phase = Queued\<rparr>],
              sy_next_channel := sy_next_channel y + 1\<rparr>"
    using assms(2) Start_Flight by (simp add: refresh_generation_def Let_def)
  have "count_list (sy_log y) (Exchanged k) + tasks_in (holds_claim k) y'
      \<le> count_list (sy_log y) (Rejected_5xx k) + allowance k y'" for k
  proof -
    have "count_list (sy_log y) (Exchanged k) + tasks_in (holds_claim k) y
        \<le> count_list (sy_log y) (Rejected_5xx k) + allowance k y"
      using inv by (simp add: flight_inv_def)
    moreover have "tasks_in (holds_claim k) y' = tasks_in (holds_claim k) y + (if k = expected then 1 else 0)"
      by (simp add: y' tasks_in_def holds_claim_def)
    moreover have "allowance k y + (if k = expected then 1 else 0) \<le> allowance k y'"
      using inv g old by (auto simp: y' allowance_def flight_inv_def)
    ultimately show ?thesis by linarith
  qed
  then show ?thesis
    using inv g by (simp add: flight_inv_def y')
qed (use assms in \<open>auto simp: refresh_generation_def\<close>)

lemma task_begin_cases:
  assumes "task_begin t y = (t', events)"
  obtains (stale) snapshot where "t' = t\<lparr>tk_phase := Settling (Inr snapshot)\<rparr>" "events = []"
    | (sent) "t' = t\<lparr>tk_phase := Exchanging\<rparr>" "events = [Exchanged (tk_generation t)]"
  using assms
  by (cases "refresh_begin (tk_generation t) (sy_state y)") (force simp: task_begin_def)+

lemma start_keeps_flight_inv:
  assumes inv: "flight_inv y" and tasks: "sy_tasks y = before @ t # after" and queued: "tk_phase t = Queued"
    and begun: "task_begin t y = (t', events)"
  shows "flight_inv (y\<lparr>sy_tasks := before @ t' # after, sy_log := sy_log y @ events\<rparr>)" (is "flight_inv ?y")
proof -
  have "count_list (sy_log ?y) (Exchanged k) + tasks_in (holds_claim k) ?y
      \<le> count_list (sy_log ?y) (Rejected_5xx k) + allowance k ?y" for k
  proof -
    have "count_list (sy_log y) (Exchanged k) + tasks_in (holds_claim k) y
        \<le> count_list (sy_log y) (Rejected_5xx k) + allowance k y"
      using inv by (simp add: flight_inv_def)
    moreover have "count_list events (Rejected_5xx k) = 0" "allowance k ?y = allowance k y"
      using begun by (rule task_begin_cases, simp_all add: allowance_def)
    moreover have "count_list events (Exchanged k) + (if holds_claim k t' then 1 else 0) \<le>
        (if holds_claim k t then 1 else (0::nat))"
      using begun
      by (rule task_begin_cases) (simp_all add: holds_claim_def queued retryable_server_error_def)
    moreover have "tasks_in (holds_claim k) ?y + (if holds_claim k t then 1 else 0) =
        tasks_in (holds_claim k) y + (if holds_claim k t' then 1 else 0)"
      by (simp add: tasks_in_def tasks)
    moreover have "count_list (sy_log ?y) (Exchanged k) = count_list (sy_log y) (Exchanged k) + count_list events (Exchanged k)"
        "count_list (sy_log ?y) (Rejected_5xx k) = count_list (sy_log y) (Rejected_5xx k) + count_list events (Rejected_5xx k)"
      by simp_all
    ultimately show ?thesis by linarith
  qed
  then show ?thesis using inv by (simp add: flight_inv_def)
qed

lemma reply_keeps_flight_inv:
  assumes inv: "flight_inv y" and tasks: "sy_tasks y = before @ t # after" and phase: "tk_phase t = Exchanging"
    and finish: "refresh_finish ops (save_credentials env) now (tk_generation t) answer (sy_state y) (sy_store y) =
      (outcome, s', st')"
    and y': "y' = y\<lparr>sy_state := s', sy_store := st',
          sy_tasks := before @ t\<lparr>tk_phase := Settling outcome\<rparr> # after,
          sy_log := sy_log y @ (if is_5xx answer then [Rejected_5xx (tk_generation t)] else []),
          sy_refreshes := sy_refreshes y + (if s' = sy_state y then 0 else 1)\<rparr>"
    and small: "sy_refreshes y' < 2 ^ 64"
  shows "flight_inv y'"
proof -
  let ?g = "cs_generation (sy_state y)"
  let ?d = "\<lambda>k. if tk_generation t = k \<and> is_5xx answer then 1 else (0::nat)"
  have gen: "?g \<le> cs_generation s' \<and> unat (cs_generation s') = sy_refreshes y'"
    using finish
  proof (cases rule: db.finish_cases)
    case (renewed rr)
    then have "s' \<noteq> sy_state y" by auto
    with small y' inv have "unat ?g + 1 < 2 ^ 64" by (simp add: flight_inv_def)
    from generation_step [OF this] renewed \<open>s' \<noteq> sy_state y\<close> inv y' show ?thesis
      by (simp add: flight_inv_def)
  qed (use inv y' in \<open>simp_all add: flight_inv_def\<close>)
  have "count_list (sy_log y') (Exchanged k) + tasks_in (holds_claim k) y'
      \<le> count_list (sy_log y') (Rejected_5xx k) + allowance k y'" for k
  proof -
    have "count_list (sy_log y) (Exchanged k) + tasks_in (holds_claim k) y
        \<le> count_list (sy_log y) (Rejected_5xx k) + allowance k y"
      using inv by (simp add: flight_inv_def)
    moreover have "allowance k y \<le> allowance k y'"
      using gen by (auto simp: allowance_def y')
    moreover have "tasks_in (holds_claim k) y' = tasks_in (holds_claim k) y + ?d k"
      using phase finish_retryable [OF finish]
      by (simp add: y' tasks_in_def tasks holds_claim_def)
    moreover have "count_list (sy_log y') (Exchanged k) = count_list (sy_log y) (Exchanged k)"
        "count_list (sy_log y') (Rejected_5xx k) = count_list (sy_log y) (Rejected_5xx k) + ?d k"
      by (simp_all add: y')
    ultimately show ?thesis by linarith
  qed
  then show ?thesis
    using inv gen by (auto simp: flight_inv_def y')
qed

lemma publish_keeps_flight_inv:
  assumes inv: "flight_inv y" and tasks: "sy_tasks y = before @ t # after" and phase: "tk_phase t = Settling outcome"
    and y': "y' = y\<lparr>sy_flight :=
            (if settle_flight (tk_generation t) outcome (map_option fl_generation (sy_flight y)) = None
             then None else sy_flight y),
          sy_tasks := before @ after,
          sy_outcomes := (sy_outcomes y)(tk_channel t \<mapsto> outcome)\<rparr>"
  shows "flight_inv y'"
proof -
  have "count_list (sy_log y') (Exchanged k) + tasks_in (holds_claim k) y'
      \<le> count_list (sy_log y') (Rejected_5xx k) + allowance k y'" for k
  proof -
    have "count_list (sy_log y) (Exchanged k) + tasks_in (holds_claim k) y
        \<le> count_list (sy_log y) (Rejected_5xx k) + allowance k y"
      using inv by (simp add: flight_inv_def)
    moreover have "tasks_in (holds_claim k) y =
        tasks_in (holds_claim k) y' + (if holds_claim k t then 1 else 0)"
      by (simp add: y' tasks_in_def tasks)
    moreover have "allowance k y \<le> allowance k y' + (if holds_claim k t then 1 else 0)"
      using phase by (auto simp: allowance_def y' settle_flight_def holds_claim_def split: if_splits)
    ultimately show ?thesis by (simp add: y')
  qed
  then show ?thesis
    using inv by (auto simp: flight_inv_def y' split: if_splits)
qed

lemma flight_inv_step:
  assumes "credential_step ops y y'" "flight_inv y" "sy_refreshes y' < 2 ^ 64"
  shows "flight_inv y'"
  using assms
proof (cases rule: credential_step.cases)
  case (caller now expected reason answer)
  then show ?thesis using assms caller_keeps_flight_inv by blast
next
  case task
  then show ?thesis
    using assms(2,3)
    by cases (blast intro: start_keeps_flight_inv reply_keeps_flight_inv publish_keeps_flight_inv)+
qed

lemma refreshes_mono: "credential_step ops y y' \<Longrightarrow> sy_refreshes y \<le> sy_refreshes y'"
  by (auto elim!: credential_step.cases task_step.cases
      simp: refresh_generation_def Let_def split: refresh_entry.splits)

lemma flight_inv_reachable:
  assumes "credential_reachable ops y0 y" "flight_inv y0"
  shows "sy_refreshes y < 2 ^ 64 \<Longrightarrow> flight_inv y"
  using assms(1)
proof induction
  case (later y y')
  then show ?case using flight_inv_step refreshes_mono le_less_trans by blast
qed (rule assms(2))

lemma flight_inv_init: "cs_generation s = 0 \<Longrightarrow> flight_inv (credential_system_init s st)"
  by (simp add: flight_inv_def credential_system_init_def tasks_in_def allowance_def)

lemma flight_inv_bound:
  assumes "flight_inv y" shows "count_list (sy_log y) (Exchanged g) \<le> count_list (sy_log y) (Rejected_5xx g) + 1"
proof -
  from assms have "count_list (sy_log y) (Exchanged g) \<le> count_list (sy_log y) (Rejected_5xx g) + allowance g y"
    unfolding flight_inv_def using add_leD1 by blast
  moreover have "allowance g y \<le> 1" by (simp add: allowance_def)
  ultimately show ?thesis by linarith
qed

section \<open>A run\<close>

definition demo_idle :: credential_system where
  "demo_idle = credential_system_init demo_state demo_seeded"

definition demo_queued :: credential_system where
  "demo_queued = snd (refresh_generation 0 0 Unauthorized demo_idle)"

definition demo_exchanging :: credential_system where
  "demo_exchanging = demo_queued
     \<lparr>sy_tasks := [\<lparr>tk_channel = 0, tk_generation = 0, tk_phase = Exchanging\<rparr>], sy_log := [Exchanged 0]\<rparr>"

lemma demo_queued_tasks:
  "sy_tasks demo_queued = [] @ \<lparr>tk_channel = 0, tk_generation = 0, tk_phase = Queued\<rparr> # []"
  "sy_state demo_queued = demo_state" "sy_log demo_queued = []" "sy_refreshes demo_queued = 0"
  "sy_next_channel demo_queued = 1"
  by (simp_all add: demo_queued_def demo_idle_def credential_system_init_def refresh_generation_def
      enter_refresh_def demo_state_def Let_def)

lemma demo_start: "task_step demo_ops demo_queued demo_exchanging"
proof -
  have "task_begin \<lparr>tk_channel = 0, tk_generation = 0, tk_phase = Queued\<rparr> demo_queued =
      (\<lparr>tk_channel = 0, tk_generation = 0, tk_phase = Exchanging\<rparr>, [Exchanged 0])"
    by (simp add: task_begin_def refresh_begin_def demo_queued_tasks demo_state_def)
  from task_step.start [OF demo_queued_tasks(1) _ this, of demo_ops] show ?thesis
    by (simp add: demo_queued_tasks demo_exchanging_def)
qed

lemma demo_reachable:
  "credential_reachable demo_ops demo_idle demo_queued" "credential_reachable demo_ops demo_idle demo_exchanging"
proof -
  show queued: "credential_reachable demo_ops demo_idle demo_queued"
    by (rule later [OF initially]) (auto simp: demo_queued_def intro: caller [OF surjective_pairing])
  show "credential_reachable demo_ops demo_idle demo_exchanging"
    by (rule later [OF queued task [OF demo_start]])
qed

text \<open>
  A rotating refresh token is exchanged once: whatever callers and tasks interleave, the token of
  a generation is sent to the endpoint at most once more than the endpoint answered it with a 5xx
  status. The count of refreshes bounds the runs in which the 64-bit generation has not wrapped.
\<close>

theorem refresh_token_exchanged_once:
  assumes "credential_reachable ops (credential_system_init s st) y"
    and "cs_generation s = 0" and "sy_refreshes y < 2 ^ 64"
  shows "count_list (sy_log y) (Exchanged g) \<le> count_list (sy_log y) (Rejected_5xx g) + 1"
  by (rule flight_inv_bound [OF flight_inv_reachable [OF assms(1) flight_inv_init [OF assms(2)] assms(3)]])

section \<open>Memory, disk and snapshots\<close>

definition usable :: "token_ops \<Rightarrow> credential_snapshot \<Rightarrow> bool" where
  "usable ops snapshot = upstream_headers_are_valid ops (snap_access_token snapshot) (snap_account_id snapshot)"

definition settled :: "token_ops \<Rightarrow> CredentialError + credential_snapshot \<Rightarrow> bool" where
  "settled ops outcome = (case outcome of Inl e \<Rightarrow> True | Inr snapshot \<Rightarrow> usable ops snapshot)"

definition memory_inv :: "token_ops \<Rightarrow> credential_system \<Rightarrow> bool" where
  "memory_inv ops y \<longleftrightarrow>
     stored_credential (sy_store y) = Some (cs_credential (sy_state y)) \<and>
     usable ops (snapshot_from_state (sy_state y)) \<and>
     (\<forall>t \<in> set (sy_tasks y). case tk_phase t of Settling r \<Rightarrow> settled ops r | _ \<Rightarrow> True) \<and>
     (\<forall>c. opt_all (settled ops) (sy_outcomes y c))"

lemma finish_settled:
  assumes "refresh_finish ops (save_credentials env) now g answer s st = (outcome, s', st')"
    and "usable ops (snapshot_from_state s)"
  shows "usable ops (snapshot_from_state s') \<and> settled ops outcome"
  using assms(1)
proof (cases rule: db.finish_cases)
  case (renewed rr)
  then show ?thesis
    using refreshed_credential_fields(1) [OF renewed(4)]
    by (simp add: usable_def settled_def snapshot_from_state_def)
qed (use assms(2) in \<open>simp_all add: settled_def\<close>)

lemma await_outcome_Inr:
  "await_outcome channel y = Some (Inr snapshot) \<Longrightarrow> sy_outcomes y channel = Some (Inr snapshot)"
proof -
  assume "await_outcome channel y = Some (Inr snapshot)"
  then obtain r where r: "sy_outcomes y channel = Some r"
      "(case r of Inl e \<Rightarrow> Inl (SharedRefresh e) | Inr snapshot \<Rightarrow> Inr snapshot) = Inr snapshot"
    by (auto simp: await_outcome_def)
  then show ?thesis by (cases r) simp_all
qed

lemma memory_inv_snapshots:
  assumes "memory_inv ops y" "await_outcome channel y = Some (Inr snapshot)" shows "usable ops snapshot"
proof -
  from assms(1) have "opt_all (settled ops) (sy_outcomes y channel)" by (simp add: memory_inv_def)
  with await_outcome_Inr [OF assms(2)] show ?thesis by (simp add: settled_def)
qed

lemma memory_inv_task:
  assumes "task_step ops y y'" "memory_inv ops y"
  shows "memory_inv ops y'"
  using assms
proof (cases rule: task_step.cases)
  case (start before t after t' events)
  then have "case tk_phase t' of Settling r \<Rightarrow> settled ops r | _ \<Rightarrow> True"
    using assms(2)
    by (cases "refresh_begin (tk_generation t) (sy_state y)")
      (auto simp: task_begin_def refresh_begin_def memory_inv_def settled_def split: if_splits)
  with start assms(2) show ?thesis by (simp add: memory_inv_def ball_Un)
next
  case (reply before t after env now answer outcome s' st')
  then show ?thesis
    using assms(2) finish_settled [OF reply(4)] db.finish_in_step [OF reply(4)]
    by (simp add: memory_inv_def ball_Un)
next
  case (publish before t after outcome)
  then show ?thesis using assms(2) by (simp add: memory_inv_def ball_Un)
qed

lemma refresh_generation_frame:
  assumes "refresh_generation now expected reason y = (answer, y')"
  shows "sy_state y' = sy_state y" "sy_store y' = sy_store y" "sy_outcomes y' = sy_outcomes y"
    and "y' = y \<or> (\<exists>t. tk_phase t = Queued \<and> tk_channel t = sy_next_channel y \<and> sy_tasks y' = sy_tasks y @ [t] \<and>
        sy_next_channel y' = sy_next_channel y + 1)"
  using assms by (auto simp: refresh_generation_def Let_def split: refresh_entry.splits)

lemma refresh_generation_answer:
  "refresh_generation now expected reason y = (Inl snapshot, y') \<Longrightarrow> snapshot = snapshot_from_state (sy_state y)"
  by (auto simp: refresh_generation_def enter_refresh_def Let_def split: refresh_entry.splits if_splits)

lemma callers_snapshot:
  "manager_credentials read_at state now y = (Inl snapshot, y') \<Longrightarrow> snapshot = snapshot_from_state (sy_state y)"
  "refresh_after_unauthorized now failed y = (Inl snapshot, y') \<Longrightarrow> snapshot = snapshot_from_state (sy_state y)"
  by (auto simp: manager_credentials_def refresh_after_unauthorized_def split: option.splits dest: refresh_generation_answer)

lemma memory_inv_step:
  assumes "credential_step ops y y'" "memory_inv ops y"
  shows "memory_inv ops y'"
  using assms(1)
proof cases
  case (caller now expected reason answer)
  note frame = refresh_generation_frame [OF this]
  from frame(4) show ?thesis
    using assms(2) frame(1-3) by (auto simp: memory_inv_def)
next
  case task
  then show ?thesis using memory_inv_task assms(2) by blast
qed

text \<open>
  Memory and disk agree at every step, and every credential handed out can be sent: in each
  reachable state the database holds the credential in memory, and each snapshot a caller takes or is
  sent by a refresh task has an access token and an account id that are header values.
\<close>

theorem credentials_durable_and_usable:
  assumes "credential_reachable ops (credential_system_init s st) y"
    and "stored_credential st = Some (cs_credential s)" and "usable ops (snapshot_from_state s)"
  shows "stored_credential (sy_store y) = Some (cs_credential (sy_state y)) \<and>
    usable ops (snapshot_from_state (sy_state y)) \<and>
    (\<forall>channel snapshot. await_outcome channel y = Some (Inr snapshot) \<longrightarrow> usable ops snapshot)"
proof -
  from assms(1) have "memory_inv ops y"
  proof induction
    case initially
    then show ?case using assms(2,3) by (simp add: memory_inv_def credential_system_init_def)
  qed (rule memory_inv_step)
  then show ?thesis using memory_inv_snapshots [of ops y] by (simp add: memory_inv_def)
qed

section \<open>Every caller is answered\<close>

fun phase_rank :: "task_phase \<Rightarrow> nat" where
  "phase_rank Queued = 3"
| "phase_rank Exchanging = 2"
| "phase_rank (Settling r) = 1"

definition work_left :: "credential_system \<Rightarrow> nat" where
  "work_left y = sum_list (map (phase_rank \<circ> tk_phase) (sy_tasks y))"

lemma task_step_works: "task_step ops y y' \<Longrightarrow> work_left y' < work_left y"
proof (induction rule: task_step.induct)
  case (start y before t after t' events)
  from start(3) show ?case
    by (rule task_begin_cases) (simp_all add: work_left_def start(1,2))
qed (simp_all add: work_left_def)

lemma work_left_bound: "work_left y \<le> 3 * length (sy_tasks y)"
proof -
  have "phase_rank p \<le> 3" for p by (cases p) simp_all
  then have "sum_list (map (phase_rank \<circ> tk_phase) ts) \<le> 3 * length ts" for ts
    by (induction ts) (simp_all add: add_mono)
  then show ?thesis by (simp add: work_left_def)
qed

lemma task_progress:
  assumes "sy_tasks y \<noteq> []" shows "\<exists>y'. task_step ops y y'"
proof -
  from assms obtain t after where y: "sy_tasks y = [] @ t # after" by (auto simp: neq_Nil_conv)
  show ?thesis
  proof (cases "tk_phase t")
    case Queued
    obtain t' events where "task_begin t y = (t', events)" by fastforce
    from task_step.start [OF y Queued this] show ?thesis by blast
  next
    case Exchanging
    obtain outcome s' st' where
      "refresh_finish ops (save_credentials no_faults) 0 (tk_generation t) Oauth_No_Response (sy_state y) (sy_store y) =
         (outcome, s', st')" by (metis prod_cases3)
    from task_step.reply [OF y Exchanging this] show ?thesis by blast
  next
    case (Settling r)
    from task_step.publish [OF y this] show ?thesis by blast
  qed
qed

definition channel_inv :: "credential_system \<Rightarrow> bool" where
  "channel_inv y \<longleftrightarrow>
     (\<forall>c < sy_next_channel y. sy_outcomes y c \<noteq> None \<or> (\<exists>t \<in> set (sy_tasks y). tk_channel t = c))"

lemma channel_inv_task:
  assumes "task_step ops y y'" "channel_inv y"
  shows "channel_inv y' \<and> sy_next_channel y' = sy_next_channel y"
  using assms
proof (cases rule: task_step.cases)
  case (start before t after t' events)
  from start(4) have "tk_channel t' = tk_channel t" by (rule task_begin_cases) simp_all
  with start assms(2) show ?thesis by (simp add: channel_inv_def)
qed (auto simp: channel_inv_def)

lemma channel_inv_step:
  assumes "credential_step ops y y'" "channel_inv y" shows "channel_inv y'"
  using assms(1)
proof cases
  case (caller now expected reason answer)
  have frame: "sy_outcomes y' = sy_outcomes y" by (rule refresh_generation_frame(3) [OF caller])
  from refresh_generation_frame(4) [OF caller] show ?thesis
  proof
    assume "\<exists>t. tk_phase t = Queued \<and> tk_channel t = sy_next_channel y \<and>
      sy_tasks y' = sy_tasks y @ [t] \<and> sy_next_channel y' = sy_next_channel y + 1"
    with assms(2) show ?thesis
      unfolding channel_inv_def frame by (elim exE) (auto simp: less_Suc_eq simp del: not_None_eq)
  qed (use assms(2) in simp)
next
  case task
  then show ?thesis using channel_inv_task assms(2) by blast
qed

lemma channel_inv_init: "channel_inv (credential_system_init s st)"
  by (simp add: channel_inv_def credential_system_init_def)

lemma channel_inv_reachable:
  assumes "credential_reachable ops (credential_system_init s st) y" shows "channel_inv y"
  using assms by induction (auto intro: channel_inv_step channel_inv_init)

lemma task_steps_drain:
  "(task_step ops ^^ n) y y' \<Longrightarrow> channel_inv y \<Longrightarrow>
     n + work_left y' \<le> work_left y \<and> channel_inv y' \<and> sy_next_channel y' = sy_next_channel y"
proof (induction n arbitrary: y')
  case (Suc n)
  then obtain z where "(task_step ops ^^ n) y z" "task_step ops z y'" by auto
  with Suc task_step_works channel_inv_task show ?case by fastforce
qed simp

text \<open>
  Every caller that waits is answered: from any reachable state the refresh tasks take at most
  three steps each, a state in which some task is left can always take one more, and once none is
  left (what \<open>finish_refreshes\<close> waits for) every channel ever handed to a caller has its outcome.
\<close>

theorem refresh_tasks_drain:
  assumes "credential_reachable ops (credential_system_init s st) y"
    and "(task_step ops ^^ n) y y'"
  shows "n \<le> 3 * length (sy_tasks y) \<and>
    (if sy_tasks y' = [] then \<forall>channel < sy_next_channel y. await_outcome channel y' \<noteq> None
     else \<exists>y''. task_step ops y' y'')"
proof -
  note drain = task_steps_drain [OF assms(2) channel_inv_reachable [OF assms(1)]]
  have "n \<le> 3 * length (sy_tasks y)"
    using drain work_left_bound [of y] by linarith
  moreover have "\<forall>channel < sy_next_channel y. await_outcome channel y' \<noteq> None" if "sy_tasks y' = []"
    using drain that by (auto simp: channel_inv_def await_outcome_def)
  ultimately show ?thesis using task_progress by auto
qed

end
