(* ===== verification/Upstream_Http.thy ===== *)
theory Upstream_Http
  imports Upstream_Headers Credential_Flight
begin

text \<open>
  The HTTP client of the upstream (\<open>src/upstream_http.rs\<close>): the models list with its cache, and the
  JSON requests, each with one refresh and one retry after a 401. The network answers the requests
  sent so far (\<open>net\<close>), and every request is recorded, so that the properties can count them. A request
  is recorded as the calls made on its builder. \<open>credentials\<close> and \<open>refresh_after_unauthorized\<close> of the
  credential manager are the arguments \<open>creds\<close> and \<open>refresh\<close>; the URL type, \<open>HeaderValue::from_str\<close> and
  the JSON parser are arguments too.
\<close>

section \<open>Requests\<close>

record url_ops =
  u_path :: "url \<Rightarrow> string"
  u_set_path :: "string \<Rightarrow> url \<Rightarrow> url"
  u_clear_query :: "url \<Rightarrow> url"
  u_clear_fragment :: "url \<Rightarrow> url"
  u_append_pair :: "string \<Rightarrow> string \<Rightarrow> url \<Rightarrow> url"
  u_set_scheme :: "string \<Rightarrow> url \<Rightarrow> url option"

record http_request =
  rq_method :: string
  rq_url :: url
  rq_header :: "(string \<times> string) list"
  rq_headers :: header_map
  rq_json :: "json option"

record http_response =
  rs_status :: nat
  rs_headers :: header_map
  rs_body :: string

type_synonym network = "http_request list \<Rightarrow> http_response option"

type_synonym sends = "http_request list"

datatype UpstreamHttpError =
    Credentials CredentialError
  | CredentialRefresh CredentialError
  | AuthenticationRejected
  | InvalidCredentialHeader
  | Transport
  | InvalidModelsPayload

definition transmit :: "network \<Rightarrow> http_request \<Rightarrow> sends \<Rightarrow> (UpstreamHttpError + http_response) \<times> sends" where
  "transmit net rq sent = (ok_or Transport (net (sent @ [rq])), sent @ [rq])"

text \<open>\<open>str::trim_end_matches('/')\<close>.\<close>

definition trim_end_slashes :: "string \<Rightarrow> string" where
  "trim_end_slashes s = rev (dropWhile (\<lambda>c. c = CHR ''/'') (rev s))"

record upstream_http_client =
  responses_url :: url
  images_url :: url
  models_url :: url

definition upstream_http_client_new :: "url_ops \<Rightarrow> url \<Rightarrow> upstream_http_client" where
  "upstream_http_client_new U base =
     (let base_path = trim_end_slashes (u_path U base);
          responses = u_clear_fragment U (u_clear_query U (u_set_path U (base_path @ ''/responses'') base));
          models = u_clear_fragment U (u_clear_query U (u_set_path U (base_path @ ''/models'') base))
      in \<lparr>responses_url = responses, images_url = u_set_path U (base_path @ ''/images'') responses,
          models_url = u_append_pair U ''client_version'' CODEX_VERSION models\<rparr>)"

definition codex_headers :: "string \<Rightarrow> string \<Rightarrow> credential_snapshot \<Rightarrow> (string \<times> string) list" where
  "codex_headers authorization accept credential =
     [(''authorization'', authorization), (''chatgpt-account-id'', snap_account_id credential),
      (''originator'', CODEX_ORIGINATOR), (''version'', CODEX_VERSION), (''user-agent'', CODEX_USER_AGENT),
      (''accept'', accept)]"

definition send_once ::
  "(string \<Rightarrow> string option) \<Rightarrow> network \<Rightarrow> url \<Rightarrow> string \<Rightarrow> json \<Rightarrow> header_map \<Rightarrow> credential_snapshot \<Rightarrow>
     sends \<Rightarrow> (UpstreamHttpError + http_response) \<times> sends" where
  "send_once from_str net u accept b downstream_headers credential sent =
     (case from_str (''Bearer '' @ snap_access_token credential) of
        None \<Rightarrow> (Inl InvalidCredentialHeader, sent)
      | Some authorization \<Rightarrow>
          transmit net
            \<lparr>rq_method = ''POST'', rq_url = u, rq_header = codex_headers authorization accept credential,
             rq_headers = codex_request_headers from_str downstream_headers b, rq_json = Some b\<rparr> sent)"

definition send_models_once ::
  "(string \<Rightarrow> string option) \<Rightarrow> network \<Rightarrow> upstream_http_client \<Rightarrow> credential_snapshot \<Rightarrow> sends \<Rightarrow>
     (UpstreamHttpError + http_response) \<times> sends" where
  "send_models_once from_str net client credential sent =
     (case from_str (''Bearer '' @ snap_access_token credential) of
        None \<Rightarrow> (Inl InvalidCredentialHeader, sent)
      | Some authorization \<Rightarrow>
          transmit net
            \<lparr>rq_method = ''GET'', rq_url = models_url client,
             rq_header = codex_headers authorization ''application/json'' credential,
             rq_headers = [], rq_json = None\<rparr> sent)"

section \<open>Operations\<close>

text \<open>The credential manager, as the clients see it.\<close>

type_synonym fetch_credentials = "CredentialError + credential_snapshot"

type_synonym refresh_credentials = "u64 \<Rightarrow> CredentialError + credential_snapshot"

definition send_json ::
  "(string \<Rightarrow> string option) \<Rightarrow> network \<Rightarrow> fetch_credentials \<Rightarrow> refresh_credentials \<Rightarrow> url \<Rightarrow> string \<Rightarrow>
     json \<Rightarrow> header_map \<Rightarrow> sends \<Rightarrow> (UpstreamHttpError + http_response) \<times> sends" where
  "send_json from_str net creds refresh u accept b downstream_headers sent =
     (case creds of
        Inl e \<Rightarrow> (Inl (Credentials e), sent)
      | Inr credential \<Rightarrow>
          (case send_once from_str net u accept b downstream_headers credential sent of
             (Inl e, sent') \<Rightarrow> (Inl e, sent')
           | (Inr response, sent') \<Rightarrow>
               if rs_status response \<noteq> 401 then (Inr response, sent')
               else
                 (case refresh (snap_generation credential) of
                    Inl e \<Rightarrow> (Inl (CredentialRefresh e), sent')
                  | Inr credential' \<Rightarrow>
                      (case send_once from_str net u accept b downstream_headers credential' sent' of
                         (Inl e, sent'') \<Rightarrow> (Inl e, sent'')
                       | (Inr response', sent'') \<Rightarrow>
                           (if rs_status response' = 401 then Inl AuthenticationRejected
                            else Inr response', sent'')))))"

definition upstream_send ::
  "(string \<Rightarrow> string option) \<Rightarrow> network \<Rightarrow> fetch_credentials \<Rightarrow> refresh_credentials \<Rightarrow>
     upstream_http_client \<Rightarrow> json \<Rightarrow> header_map \<Rightarrow> sends \<Rightarrow> (UpstreamHttpError + http_response) \<times> sends" where
  "upstream_send from_str net creds refresh client b downstream_headers sent =
     send_json from_str net creds refresh (responses_url client) ''text/event-stream'' b downstream_headers sent"

definition upstream_images ::
  "(string \<Rightarrow> string option) \<Rightarrow> url_ops \<Rightarrow> network \<Rightarrow> fetch_credentials \<Rightarrow> refresh_credentials \<Rightarrow>
     upstream_http_client \<Rightarrow> string \<Rightarrow> json \<Rightarrow> header_map \<Rightarrow> sends \<Rightarrow>
     (UpstreamHttpError + http_response) \<times> sends" where
  "upstream_images from_str U net creds refresh client operation b downstream_headers sent =
     (let u = u_set_path U (u_path U (images_url client) @ ''/'' @ operation) (images_url client)
      in send_json from_str net creds refresh u ''application/json'' b downstream_headers sent)"

record cached_models =
  fetched_at :: int
  cached_list :: "json list"

definition MODELS_CACHE_TTL :: int where
  "MODELS_CACHE_TTL = 3600 * 10 ^ 9"

definition cache_hit :: "int \<Rightarrow> cached_models option \<Rightarrow> json list option" where
  "cache_hit now cache =
     map_option cached_list (opt_filter (\<lambda>c. now - fetched_at c < MODELS_CACHE_TTL) cache)"

definition valid_model :: "json \<Rightarrow> bool" where
  "valid_model model =
     (case opt_bind (opt_bind (as_object model) (\<lambda>object. map_of object ''slug'')) as_str of
        None \<Rightarrow> False | Some slug \<Rightarrow> slug \<noteq> [])"

definition models_payload :: "json \<Rightarrow> UpstreamHttpError + json list" where
  "models_payload payload =
     ok_or InvalidModelsPayload
       (opt_filter (list_all valid_model) (opt_bind (jget payload ''models'') as_array))"

text \<open>From the final response on: \<open>error_for_status\<close>, the parser and the shape of the payload.\<close>

definition read_models :: "(string \<Rightarrow> json option) \<Rightarrow> http_response \<Rightarrow> UpstreamHttpError + json list" where
  "read_models parse response =
     (if 400 \<le> rs_status response \<and> rs_status response \<le> 599 then Inl Transport
      else res_bind (ok_or Transport (parse (rs_body response))) models_payload)"

definition fetch_models ::
  "(string \<Rightarrow> string option) \<Rightarrow> network \<Rightarrow> fetch_credentials \<Rightarrow> refresh_credentials \<Rightarrow>
     upstream_http_client \<Rightarrow> sends \<Rightarrow> (UpstreamHttpError + http_response) \<times> sends" where
  "fetch_models from_str net creds refresh client sent =
     (case creds of
        Inl e \<Rightarrow> (Inl (Credentials e), sent)
      | Inr credential \<Rightarrow>
          (case send_models_once from_str net client credential sent of
             (Inl e, sent') \<Rightarrow> (Inl e, sent')
           | (Inr response, sent') \<Rightarrow>
               if rs_status response = 401 then
                 (case refresh (snap_generation credential) of
                    Inl e \<Rightarrow> (Inl (CredentialRefresh e), sent')
                  | Inr credential' \<Rightarrow>
                      (case send_models_once from_str net client credential' sent' of
                         (Inl e, sent'') \<Rightarrow> (Inl e, sent'')
                       | (Inr response', sent'') \<Rightarrow>
                           (if rs_status response' = 401 then Inl AuthenticationRejected
                            else Inr response', sent'')))
               else (Inr response, sent')))"

definition upstream_models ::
  "(string \<Rightarrow> string option) \<Rightarrow> (string \<Rightarrow> json option) \<Rightarrow> network \<Rightarrow> fetch_credentials \<Rightarrow>
     refresh_credentials \<Rightarrow> upstream_http_client \<Rightarrow> int \<Rightarrow> cached_models option \<Rightarrow> sends \<Rightarrow>
     (UpstreamHttpError + json list) \<times> cached_models option \<times> sends" where
  "upstream_models from_str parse net creds refresh client now cache sent =
     (case cache_hit now cache of
        Some models \<Rightarrow> (Inr models, cache, sent)
      | None \<Rightarrow>
          (case fetch_models from_str net creds refresh client sent of
             (response, sent') \<Rightarrow>
               (case res_bind response (read_models parse) of
                  Inl e \<Rightarrow> (Inl e, cache, sent')
                | Inr models \<Rightarrow>
                    (Inr models, Some \<lparr>fetched_at = now, cached_list = models\<rparr>, sent'))))"

definition find_model :: "string \<Rightarrow> json list \<Rightarrow> json option" where
  "find_model slug models = find (\<lambda>model. opt_bind (jget model ''slug'') as_str = Some slug) models"

definition upstream_model ::
  "(string \<Rightarrow> string option) \<Rightarrow> (string \<Rightarrow> json option) \<Rightarrow> network \<Rightarrow> fetch_credentials \<Rightarrow>
     refresh_credentials \<Rightarrow> upstream_http_client \<Rightarrow> int \<Rightarrow> string \<Rightarrow> cached_models option \<Rightarrow> sends \<Rightarrow>
     (UpstreamHttpError + json option) \<times> cached_models option \<times> sends" where
  "upstream_model from_str parse net creds refresh client now slug cache sent =
     (case upstream_models from_str parse net creds refresh client now cache sent of
        (models, cache', sent') \<Rightarrow> (res_bind models (\<lambda>ms. Inr (find_model slug ms)), cache', sent'))"

section \<open>One refresh, one retry\<close>

text \<open>
  What the two authenticated calls share: an attempt sends at most one request, made from the
  credential, and returns what the network answers.
\<close>

definition retry_unauthorized ::
  "(credential_snapshot \<Rightarrow> sends \<Rightarrow> (UpstreamHttpError + http_response) \<times> sends) \<Rightarrow> fetch_credentials \<Rightarrow>
     refresh_credentials \<Rightarrow> sends \<Rightarrow> (UpstreamHttpError + http_response) \<times> sends" where
  "retry_unauthorized attempt creds refresh sent =
     (case creds of
        Inl e \<Rightarrow> (Inl (Credentials e), sent)
      | Inr credential \<Rightarrow>
          (case attempt credential sent of
             (Inl e, sent') \<Rightarrow> (Inl e, sent')
           | (Inr response, sent') \<Rightarrow>
               if rs_status response \<noteq> 401 then (Inr response, sent')
               else
                 (case refresh (snap_generation credential) of
                    Inl e \<Rightarrow> (Inl (CredentialRefresh e), sent')
                  | Inr credential' \<Rightarrow>
                      (case attempt credential' sent' of
                         (Inl e, sent'') \<Rightarrow> (Inl e, sent'')
                       | (Inr response', sent'') \<Rightarrow>
                           (if rs_status response' = 401 then Inl AuthenticationRejected
                            else Inr response', sent'')))))"

definition retried_answer :: "network \<Rightarrow> sends \<Rightarrow> UpstreamHttpError + http_response" where
  "retried_answer net sent =
     (case net sent of
        None \<Rightarrow> Inl Transport
      | Some response \<Rightarrow> if rs_status response = 401 then Inl AuthenticationRejected else Inr response)"

locale authenticated_attempt =
  fixes attempt :: "credential_snapshot \<Rightarrow> sends \<Rightarrow> (UpstreamHttpError + http_response) \<times> sends"
    and request :: "credential_snapshot \<Rightarrow> http_request option"
    and net :: network
  assumes attempt_none: "request c = None \<Longrightarrow> attempt c sent = (Inl InvalidCredentialHeader, sent)"
    and attempt_some: "request c = Some rq \<Longrightarrow> attempt c sent = transmit net rq sent"
begin

lemma attempt_cases:
  obtains (none) "request c = None" "attempt c sent = (Inl InvalidCredentialHeader, sent)"
    | (lost) rq where "request c = Some rq" "net (sent @ [rq]) = None" "attempt c sent = (Inl Transport, sent @ [rq])"
    | (answered) rq response where "request c = Some rq" "net (sent @ [rq]) = Some response"
        "attempt c sent = (Inr response, sent @ [rq])"
  by (cases "request c"; cases "net (sent @ [the (request c)])")
    (auto simp: attempt_none attempt_some transmit_def)

lemma retry_cases:
  assumes "retry_unauthorized attempt creds refresh sent = (r, sent')"
  obtains (unsent) e where "r = Inl e" "sent' = sent"
    | (lost) rq c where "creds = Inr c" "request c = Some rq" "net (sent @ [rq]) = None" "r = Inl Transport" "sent' = sent @ [rq]"
    | (answered) rq c response where "creds = Inr c" "request c = Some rq" "net (sent @ [rq]) = Some response"
        "rs_status response \<noteq> 401" "r = Inr response" "sent' = sent @ [rq]"
    | (unrefreshed) rq c response e where "creds = Inr c" "request c = Some rq" "net (sent @ [rq]) = Some response"
        "rs_status response = 401" "r = Inl e" "sent' = sent @ [rq]"
    | (retried) rq rq' c c' response where "creds = Inr c" "request c = Some rq" "net (sent @ [rq]) = Some response"
        "rs_status response = 401" "refresh (snap_generation c) = Inr c'" "request c' = Some rq'"
        "sent' = sent @ [rq, rq']" "r = retried_answer net sent'"
proof (cases creds)
  case (Inl e)
  then show ?thesis using assms unsent by (auto simp: retry_unauthorized_def)
next
  case (Inr c)
  note creds = this
  show ?thesis
  proof (cases rule: attempt_cases [of c sent])
    case none
    then show ?thesis using assms creds unsent by (auto simp: retry_unauthorized_def)
  next
    case (lost rq)
    then show ?thesis using assms creds that(2) by (auto simp: retry_unauthorized_def)
  next
    case (answered rq response)
    note first = this
    show ?thesis
    proof (cases "rs_status response = 401")
      case False
      then show ?thesis using assms creds first that(3) by (auto simp: retry_unauthorized_def)
    next
      case rejected: True
      show ?thesis
      proof (cases "refresh (snap_generation c)")
        case (Inl e)
        then show ?thesis using assms creds first rejected that(4) by (auto simp: retry_unauthorized_def)
      next
        case (Inr c')
        note renewed = this
        show ?thesis
        proof (cases rule: attempt_cases [of c' "sent @ [rq]"])
          case none
          then show ?thesis using assms creds first rejected renewed that(4) by (auto simp: retry_unauthorized_def)
        next
          case (lost rq')
          then show ?thesis using assms creds first rejected renewed that(5)
            by (auto simp: retry_unauthorized_def retried_answer_def)
        next
          case (answered rq' response')
          then show ?thesis using assms creds first rejected renewed that(5)
            by (auto simp: retry_unauthorized_def retried_answer_def)
        qed
      qed
    qed
  qed
qed

end

definition json_request ::
  "(string \<Rightarrow> string option) \<Rightarrow> url \<Rightarrow> string \<Rightarrow> json \<Rightarrow> header_map \<Rightarrow> credential_snapshot \<Rightarrow> http_request option" where
  "json_request from_str u accept b downstream_headers credential =
     map_option (\<lambda>authorization.
       \<lparr>rq_method = ''POST'', rq_url = u, rq_header = codex_headers authorization accept credential,
        rq_headers = codex_request_headers from_str downstream_headers b, rq_json = Some b\<rparr>)
       (from_str (''Bearer '' @ snap_access_token credential))"

definition models_request ::
  "(string \<Rightarrow> string option) \<Rightarrow> upstream_http_client \<Rightarrow> credential_snapshot \<Rightarrow> http_request option" where
  "models_request from_str client credential =
     map_option (\<lambda>authorization.
       \<lparr>rq_method = ''GET'', rq_url = models_url client,
        rq_header = codex_headers authorization ''application/json'' credential, rq_headers = [], rq_json = None\<rparr>)
       (from_str (''Bearer '' @ snap_access_token credential))"

interpretation js: authenticated_attempt "send_once from_str net u accept b h" "json_request from_str u accept b h" net
  for from_str net u accept b h
  by unfold_locales (auto simp: send_once_def json_request_def split: option.splits)

interpretation ms: authenticated_attempt "send_models_once from_str net client" "models_request from_str client" net
  for from_str net client
  by unfold_locales (auto simp: send_models_once_def models_request_def split: option.splits)

lemma send_json_retry:
  "send_json from_str net creds refresh u accept b h sent =
     retry_unauthorized (send_once from_str net u accept b h) creds refresh sent"
  by (simp add: send_json_def retry_unauthorized_def)

lemma fetch_models_retry:
  "fetch_models from_str net creds refresh client sent =
     retry_unauthorized (send_models_once from_str net client) creds refresh sent"
  unfolding fetch_models_def retry_unauthorized_def
  by (intro sum.case_cong prod.case_cong refl) simp


definition demo_snapshot :: credential_snapshot where
  "demo_snapshot = \<lparr>snap_access_token = ''at'', snap_account_id = ''acct'', snap_generation = 0\<rparr>"

definition demo_url :: url where
  "demo_url = \<lparr>url_scheme = ''https'', url_text = ''https://example.org/responses''\<rparr>"

definition demo_net :: network where
  "demo_net sent = Some \<lparr>rs_status = (if length sent = 1 then 401 else 200), rs_headers = [], rs_body = ''{}''\<rparr>"

definition demo_refresh_once :: refresh_credentials where
  "demo_refresh_once g = Inr (demo_snapshot\<lparr>snap_access_token := ''at2'', snap_generation := g + 1\<rparr>)"

lemma demo_retry_run:
  "send_json Some demo_net (Inr demo_snapshot) demo_refresh_once demo_url ''application/json'' JNull [] [] =
     (Inr \<lparr>rs_status = 200, rs_headers = [], rs_body = ''{}''\<rparr>,
      [the (json_request Some demo_url ''application/json'' JNull [] demo_snapshot),
       the (json_request Some demo_url ''application/json'' JNull []
         (demo_snapshot\<lparr>snap_access_token := ''at2'', snap_generation := 1\<rparr>))])"
  by (simp add: send_json_def send_once_def transmit_def demo_net_def demo_refresh_once_def demo_snapshot_def
      json_request_def)


section \<open>The models list\<close>

definition models_cache_ok :: "cached_models option \<Rightarrow> bool" where
  "models_cache_ok cache = opt_all (\<lambda>c. list_all valid_model (cached_list c)) cache"

lemma read_models_valid: "read_models parse response = Inr models \<Longrightarrow> list_all valid_model models"
  by (auto simp: read_models_def models_payload_def result_simps split: if_splits)

lemma fetch_models_sends:
  assumes "fetch_models from_str net creds refresh client sent = (r, sent')"
  shows "\<exists>new. sent' = sent @ new \<and> length new \<le> 2"
  using assms unfolding fetch_models_retry by (cases rule: ms.retry_cases) auto

text \<open>
  C38. The models list is valid and cached for an hour: every list returned holds objects with a
  non-empty slug only, an error leaves the cache as it was, a call within an hour of a fetch sends
  nothing and returns the fetched list, and any other call sends at most two requests.
\<close>

theorem models_valid_and_cached:
  assumes "upstream_models from_str parse net creds refresh client now cache sent = (r, cache', sent')"
    and "models_cache_ok cache"
  shows "models_cache_ok cache' \<and> (\<exists>new. sent' = sent @ new \<and> length new \<le> 2) \<and>
    (case r of
       Inl e \<Rightarrow> cache' = cache
     | Inr models \<Rightarrow> list_all valid_model models \<and>
         (if cache_hit now cache \<noteq> None then cache' = cache \<and> sent' = sent
          else \<forall>t net' creds' refresh' sent2. t - now < MODELS_CACHE_TTL \<longrightarrow>
            upstream_models from_str parse net' creds' refresh' client t cache' sent2 = (Inr models, cache', sent2)))"
proof (cases "cache_hit now cache")
  case (Some models)
  then have "list_all valid_model models"
    using assms(2) by (auto simp: cache_hit_def models_cache_ok_def)
  with Some assms show ?thesis by (auto simp: upstream_models_def)
next
  case None
  obtain response sent2 where fetch: "fetch_models from_str net creds refresh client sent = (response, sent2)"
    by fastforce
  note sends = fetch_models_sends [OF fetch]
  show ?thesis
  proof (cases "res_bind response (read_models parse)")
    case (Inl e)
    have "r = Inl e" "cache' = cache" "sent' = sent2"
      using None fetch Inl assms(1) by (auto simp: upstream_models_def)
    then show ?thesis using sends assms(2) by simp
  next
    case (Inr models)
    then have "list_all valid_model models" by (auto simp: res_bind_Inr_iff dest: read_models_valid)
    moreover have "r = Inr models" "cache' = Some \<lparr>fetched_at = now, cached_list = models\<rparr>" "sent' = sent2"
      using None fetch Inr assms(1) by (auto simp: upstream_models_def)
    ultimately show ?thesis
      using None sends by (auto simp: upstream_models_def cache_hit_def models_cache_ok_def)
  qed
qed

definition demo_models_net :: network where
  "demo_models_net sent = Some \<lparr>rs_status = 200, rs_headers = [], rs_body = ''[]''\<rparr>"

definition demo_models_parse :: "string \<Rightarrow> json option" where
  "demo_models_parse s = Some (jobj [(''models'', JArr [jobj [(''slug'', JStr ''m'')]])])"

definition demo_client :: upstream_http_client where
  "demo_client = \<lparr>responses_url = demo_url, images_url = demo_url, models_url = demo_url\<rparr>"

lemma demo_models_run:
  "upstream_models Some demo_models_parse demo_models_net (Inr demo_snapshot) demo_refresh_once demo_client 0 None [] =
     (Inr [jobj [(''slug'', JStr ''m'')]], Some \<lparr>fetched_at = 0, cached_list = [jobj [(''slug'', JStr ''m'')]]\<rparr>,
      [the (models_request Some demo_client demo_snapshot)])"
  by (simp add: upstream_models_def cache_hit_def fetch_models_def send_models_once_def transmit_def
      demo_models_net_def demo_models_parse_def read_models_def models_payload_def valid_model_def models_request_def)
    (simp add: jobj_def bmap_of_list_def)

theorem models_valid_and_cached_witness:
  "models_cache_ok (Some \<lparr>fetched_at = 0, cached_list = [jobj [(''slug'', JStr ''m'')]]\<rparr>) \<and>
   list_all valid_model [jobj [(''slug'', JStr ''m'')]]"
  using models_valid_and_cached [OF demo_models_run] by (simp add: models_cache_ok_def)

end
