(* ===== verification/Upstream_Ws.thy ===== *)
theory Upstream_Ws
  imports Upstream_Http
begin

text \<open>
  The upstream WebSocket (\<open>src/upstream_ws.rs\<close>): the authenticated handshake with one refresh and one
  retry, the warm-up that starts a Responses context, and the fields a Responses Lite request is given.
  A socket is what it will still deliver, which sends succeed, and what was sent. A wait on a stream
  that delivers nothing more has no result (\<open>None\<close>); the panics of \<open>expect\<close> are a value of their own.
\<close>

section \<open>Sockets\<close>

record close_frame =
  close_code :: nat
  close_reason :: string

datatype upstream_message =
    UM_Text string
  | UM_Ping string
  | UM_Pong string
  | UM_Close "close_frame option"
  | UM_Binary string
  | UM_Frame string

text \<open>What \<open>next\<close> yields: a message, an error, or the end.\<close>

datatype upstream_item = Received upstream_message | Receive_Error | Stream_End

record upstream_socket =
  sk_incoming :: "upstream_item list"
  sk_send_ok :: "nat \<Rightarrow> bool"
  sk_sent :: "upstream_message list"

definition socket_send :: "upstream_message \<Rightarrow> upstream_socket \<Rightarrow> bool \<times> upstream_socket" where
  "socket_send m k = (sk_send_ok k (length (sk_sent k)), k\<lparr>sk_sent := sk_sent k @ [m]\<rparr>)"

datatype UpstreamWebSocketError =
    Ws_Credentials CredentialError
  | Ws_CredentialRefresh CredentialError
  | Ws_AuthenticationRejected
  | Ws_Handshake nat
  | Ws_Request
  | Ws_Transport

section \<open>The handshake\<close>

definition responses_websocket_url :: "url_ops \<Rightarrow> url \<Rightarrow> url option" where
  "responses_websocket_url U base =
     (let websocket_scheme = (if url_scheme base = ''http'' then ''ws'' else ''wss'') in
      map_option (\<lambda>u.
          let base_path = trim_end_slashes (u_path U base) in
          u_clear_fragment U (u_clear_query U (u_set_path U (base_path @ ''/responses'') u)))
        (u_set_scheme U websocket_scheme base))"

record handshake =
  hs_url :: url
  hs_headers :: header_map

text \<open>\<open>connect_async\<close> answers the handshakes made so far: a socket, an HTTP status, or another error.\<close>

datatype dial_result = Connected upstream_socket | Dial_Http nat | Dial_Failed

type_synonym dialer = "handshake list \<Rightarrow> dial_result"

definition classify_connect_error :: "dial_result \<Rightarrow> UpstreamWebSocketError + upstream_socket" where
  "classify_connect_error d =
     (case d of
        Connected k \<Rightarrow> Inr k
      | Dial_Http status \<Rightarrow> if status = 401 then Inl Ws_AuthenticationRejected else Inl (Ws_Handshake status)
      | Dial_Failed \<Rightarrow> Inl Ws_Transport)"

definition OPENAI_BETA_VALUE :: string where
  "OPENAI_BETA_VALUE = ''responses_websockets=2026-02-06''"

definition handshake_headers ::
  "(string \<Rightarrow> string option) \<Rightarrow> header_map \<Rightarrow> header_map \<Rightarrow> credential_snapshot \<Rightarrow> header_map option" where
  "handshake_headers from_str initial downstream_headers cred =
     opt_bind (from_str (''Bearer '' @ snap_access_token cred)) (\<lambda>authorization.
     opt_bind (from_str (snap_account_id cred)) (\<lambda>account.
     Some
       (fold (\<lambda>(name, value). header_insert name value) (codex_passthrough_headers downstream_headers)
         (header_insert ''user-agent'' CODEX_USER_AGENT
         (header_insert ''version'' CODEX_VERSION
         (header_insert ''originator'' CODEX_ORIGINATOR
         (header_insert ''openai-beta'' OPENAI_BETA_VALUE
         (header_insert ''chatgpt-account-id'' account
         (header_insert ''authorization'' authorization initial)))))))))"

text \<open>\<open>into_client_request\<close> gives the headers of the upgrade request. The outer \<open>None\<close> is the panic of
  \<open>responses_websocket_url\<close>.\<close>

definition connect_once ::
  "url_ops \<Rightarrow> (string \<Rightarrow> string option) \<Rightarrow> (url \<Rightarrow> header_map option) \<Rightarrow> dialer \<Rightarrow> url \<Rightarrow> header_map \<Rightarrow>
     credential_snapshot \<Rightarrow> handshake list \<Rightarrow>
     ((UpstreamWebSocketError + upstream_socket) \<times> handshake list) option" where
  "connect_once U from_str into_client_request dial base downstream_headers cred made =
     map_option (\<lambda>u.
         case opt_bind (into_client_request u) (\<lambda>initial.
                handshake_headers from_str initial downstream_headers cred) of
           None \<Rightarrow> (Inl Ws_Request, made)
         | Some headers \<Rightarrow>
             (let made' = made @ [\<lparr>hs_url = u, hs_headers = headers\<rparr>]
              in (classify_connect_error (dial made'), made')))
       (responses_websocket_url U base)"

definition connect_upstream_websocket ::
  "url_ops \<Rightarrow> (string \<Rightarrow> string option) \<Rightarrow> (url \<Rightarrow> header_map option) \<Rightarrow> dialer \<Rightarrow> url \<Rightarrow>
     fetch_credentials \<Rightarrow> refresh_credentials \<Rightarrow> header_map \<Rightarrow> handshake list \<Rightarrow>
     ((UpstreamWebSocketError + upstream_socket) \<times> handshake list) option" where
  "connect_upstream_websocket U from_str icr dial base creds refresh downstream_headers made =
     (case creds of
        Inl e \<Rightarrow> Some (Inl (Ws_Credentials e), made)
      | Inr cred \<Rightarrow>
          (case connect_once U from_str icr dial base downstream_headers cred made of
             None \<Rightarrow> None
           | Some (Inl Ws_AuthenticationRejected, made') \<Rightarrow>
               (case refresh (snap_generation cred) of
                  Inl e \<Rightarrow> Some (Inl (Ws_CredentialRefresh e), made')
                | Inr refreshed \<Rightarrow>
                    connect_once U from_str icr dial base downstream_headers refreshed made')
           | Some result \<Rightarrow> Some result))"

section \<open>The warm-up\<close>

definition developer_message :: "string \<Rightarrow> json" where
  "developer_message t =
     jobj [(''type'', JStr ''message''), (''role'', JStr ''developer''),
           (''content'', JArr [jobj [(''type'', JStr ''input_text''), (''text'', JStr t)]])]"

definition route_marker_tool :: "string \<Rightarrow> json" where
  "route_marker_tool name =
     jobj [(''type'', JStr ''namespace''), (''name'', JStr name), (''description'', JStr ''''),
           (''tools'', JArr [jobj [(''type'', JStr ''function''), (''name'', JStr ''noop''),
              (''description'', JStr ''No operation.''), (''strict'', JBool False),
              (''parameters'', jobj [(''type'', JStr ''object''), (''properties'', JObj []),
                 (''additionalProperties'', JBool False)])]])]"

definition route_marker_tools :: "json list" where
  "route_marker_tools = map route_marker_tool [''functions'', ''utility'', ''helpers'']"

definition RESPONSES_LITE_METADATA_KEY :: string where
  "RESPONSES_LITE_METADATA_KEY = ''ws_request_header_x_openai_internal_codex_responses_lite''"

text \<open>The entry of a key, made if absent, with \<open>f\<close> applied when it is an object.\<close>

definition entry_object :: "string \<Rightarrow> json \<Rightarrow> (jobject \<Rightarrow> jobject) \<Rightarrow> jobject \<Rightarrow> jobject" where
  "entry_object k d f m =
     (let v = (case map_of m k of None \<Rightarrow> d | Some w \<Rightarrow> w) in
      bmap_insert k (case v of JObj n \<Rightarrow> JObj (f n) | _ \<Rightarrow> v) m)"

definition lite_metadata :: "string \<Rightarrow> jobject \<Rightarrow> jobject" where
  "lite_metadata request_key metadata =
     bmap_entry_or ''thread_id'' (JStr request_key)
       (bmap_entry_or ''session_id'' (JStr request_key)
         (bmap_insert RESPONSES_LITE_METADATA_KEY (JStr ''true'') metadata))"

definition normalize_responses_lite_fields :: "string \<Rightarrow> bool \<Rightarrow> jobject \<Rightarrow> jobject" where
  "normalize_responses_lite_fields request_key disable_tools m =
     (let m = bmap_insert ''parallel_tool_calls'' (JBool False) m;
          m = bmap_insert ''type'' (JStr ''response.create'') m;
          m = bmap_insert ''store'' (JBool False) m;
          m = bmap_insert ''stream'' (JBool True) m;
          m = (if disable_tools then bmap_insert ''tool_choice'' (JStr ''none'') m else m);
          m = bmap_entry_or ''include'' (JArr [JStr ''reasoning.encrypted_content'']) m;
          m = bmap_entry_or ''prompt_cache_key'' (JStr request_key) m;
          m = bmap_entry_or ''text'' (jobj [(''verbosity'', JStr ''low'')]) m;
          m = entry_object ''reasoning'' (jobj [(''effort'', JStr ''medium'')])
                (bmap_insert ''context'' (JStr ''all_turns'')) m
      in entry_object ''client_metadata'' (JObj []) (lite_metadata request_key) m)"

definition nonempty_array :: "json option \<Rightarrow> json list option" where
  "nonempty_array v = opt_filter (\<lambda>xs. xs \<noteq> []) (opt_bind v as_array)"

definition has_inline_tools :: "jobject \<Rightarrow> bool" where
  "has_inline_tools m =
     (case opt_bind (map_of m ''input'') as_array of
        None \<Rightarrow> False
      | Some items \<Rightarrow>
          list_ex (\<lambda>item. jindex item ''type'' = JStr ''additional_tools'' \<and>
            nonempty_array (Some (jindex item ''tools'')) \<noteq> None) items)"

text \<open>The request with its tools and instructions taken out, and the warm-up that carries them.\<close>

definition prewarm_input :: "json list \<Rightarrow> string \<Rightarrow> string option \<Rightarrow> json list" where
  "prewarm_input tools base_instructions client_instructions =
     [jobj [(''type'', JStr ''additional_tools''), (''role'', JStr ''developer''), (''tools'', JArr tools)],
      developer_message base_instructions] @
     (case opt_filter (\<lambda>t. t \<noteq> []) client_instructions of None \<Rightarrow> [] | Some t \<Rightarrow> [developer_message t])"

definition responses_lite_prewarm ::
  "json \<Rightarrow> json \<Rightarrow> string \<Rightarrow> UpstreamWebSocketError + json \<times> json" where
  "responses_lite_prewarm request model request_key =
     res_bind (ok_or Ws_Request (as_object request)) (\<lambda>m0.
     let tools = nonempty_array (map_of m0 ''tools'');
         m1 = bmap_remove ''tools'' m0;
         disable_tools = (tools = None \<and> \<not> has_inline_tools m1);
         client_instructions = opt_bind (map_of m1 ''instructions'') as_str;
         m2 = bmap_remove ''instructions'' m1
     in
       res_bind (ok_or Ws_Request (opt_bind (jget model ''base_instructions'') as_str)) (\<lambda>base_instructions.
       let m3 = normalize_responses_lite_fields request_key disable_tools m2;
           input = prewarm_input (case tools of None \<Rightarrow> route_marker_tools | Some ts \<Rightarrow> ts)
             base_instructions client_instructions
       in Inr (JObj (bmap_insert ''tool_choice'' (JStr ''auto'')
                 (bmap_insert ''generate'' (JBool False) (bmap_insert ''input'' (JArr input) m3))),
               JObj m3)))"

text \<open>One message of the warm-up's answer: its result, or \<open>None\<close> to go on reading.\<close>

definition prewarm_event :: "(string \<Rightarrow> json option) \<Rightarrow> string \<Rightarrow> (UpstreamWebSocketError + string) option" where
  "prewarm_event parse t =
     (case parse t of
        None \<Rightarrow> Some (Inl Ws_Request)
      | Some event \<Rightarrow>
          (let kind = opt_bind (jget event ''type'') as_str in
           if kind = Some ''response.completed''
           then Some (ok_or Ws_Request (opt_bind (jpointer event [''response'', ''id'']) as_str))
           else if kind \<in> {Some ''error'', Some ''response.failed'', Some ''response.incomplete''}
           then Some (Inl Ws_Request)
           else None))"

fun prewarm_loop ::
  "(string \<Rightarrow> json option) \<Rightarrow> upstream_item list \<Rightarrow> upstream_socket \<Rightarrow>
     ((UpstreamWebSocketError + string) \<times> upstream_socket) option" where
  "prewarm_loop parse [] k = None"
| "prewarm_loop parse (item # items) k =
     (let k = k\<lparr>sk_incoming := items\<rparr> in
      case item of
        Received (UM_Text t) \<Rightarrow>
          (case prewarm_event parse t of Some r \<Rightarrow> Some (r, k) | None \<Rightarrow> prewarm_loop parse items k)
      | Received (UM_Ping payload) \<Rightarrow>
          (case socket_send (UM_Pong payload) k of
             (ok, k') \<Rightarrow> if ok then prewarm_loop parse items k' else Some (Inl Ws_Transport, k'))
      | Received (UM_Pong _) \<Rightarrow> prewarm_loop parse items k
      | Received (UM_Close _) \<Rightarrow> Some (Inl Ws_Request, k)
      | Received (UM_Binary _) \<Rightarrow> Some (Inl Ws_Request, k)
      | Received (UM_Frame _) \<Rightarrow> Some (Inl Ws_Request, k)
      | Stream_End \<Rightarrow> Some (Inl Ws_Request, k)
      | Receive_Error \<Rightarrow> Some (Inl Ws_Transport, k))"

definition send_responses_prewarm ::
  "(string \<Rightarrow> json option) \<Rightarrow> (json \<Rightarrow> string) \<Rightarrow> json \<Rightarrow> upstream_socket \<Rightarrow>
     ((UpstreamWebSocketError + string) \<times> upstream_socket) option" where
  "send_responses_prewarm parse print prewarm k =
     (case socket_send (UM_Text (print prewarm)) k of
        (ok, k') \<Rightarrow> if ok then prewarm_loop parse (sk_incoming k') k' else Some (Inl Ws_Transport, k'))"

text \<open>The inner \<open>None\<close> of \<open>jset\<close>, a panic, is excluded: a warm-up exists only for an object.\<close>

definition prepare_responses_lite ::
  "(string \<Rightarrow> json option) \<Rightarrow> (json \<Rightarrow> string) \<Rightarrow> json \<Rightarrow> json \<Rightarrow> string \<Rightarrow> upstream_socket \<Rightarrow>
     ((UpstreamWebSocketError + json option) \<times> upstream_socket) option" where
  "prepare_responses_lite parse print request model request_key k =
     (if opt_bind (jget model ''use_responses_lite'') as_bool \<noteq> Some True then Some (Inr (Some request), k)
      else
        (case responses_lite_prewarm request model request_key of
           Inl e \<Rightarrow> Some (Inl e, k)
         | Inr (prewarm, request') \<Rightarrow>
             map_option (\<lambda>(r, k'). (res_bind r (\<lambda>id. Inr (jset request' ''previous_response_id'' (JStr id))), k'))
               (send_responses_prewarm parse print prewarm k)))"

section \<open>Connecting\<close>

lemma connect_once_cases:
  assumes "responses_websocket_url U base = Some u"
  obtains (unsent) "connect_once U from_str icr dial base h c made = Some (Inl Ws_Request, made)"
    | (sent) hs where "hs_url hs = u"
        "connect_once U from_str icr dial base h c made =
           Some (classify_connect_error (dial (made @ [hs])), made @ [hs])"
  using assms
  by (cases "opt_bind (icr u) (\<lambda>initial. handshake_headers from_str initial h c)")
    (auto simp: connect_once_def Let_def)

lemma classify_rejected: "classify_connect_error d = Inl Ws_AuthenticationRejected \<longleftrightarrow> d = Dial_Http 401"
  by (cases d) (auto simp: classify_connect_error_def)

lemma connect_after_401:
  assumes "responses_websocket_url U base = Some u" and creds: "creds = Inr c" and url: "hs_url hs = u"
    and first: "connect_once U from_str icr dial base h c made = Some (classify_connect_error (dial (made @ [hs])), made @ [hs])"
    and rejected: "dial (made @ [hs]) = Dial_Http 401"
  obtains (refused) e where "connect_upstream_websocket U from_str icr dial base creds refresh h made = Some (Inl e, made @ [hs])"
    | (again) c' hs' where "refresh (snap_generation c) = Inr c'" "hs_url hs' = u"
        "connect_upstream_websocket U from_str icr dial base creds refresh h made =
           Some (classify_connect_error (dial (made @ [hs, hs'])), made @ [hs, hs'])"
proof (cases "refresh (snap_generation c)")
  case (Inl e)
  with creds first rejected classify_rejected [THEN iffD2, OF rejected] refused show thesis
    by (simp add: connect_upstream_websocket_def)
next
  case (Inr c')
  note step = creds first rejected classify_rejected [THEN iffD2, OF rejected] this
  from assms(1) show thesis
  proof (cases rule: connect_once_cases
      [where from_str = from_str and icr = icr and dial = dial and h = h and c = c' and made = "made @ [hs]"])
    case unsent
    with step refused show thesis by (simp add: connect_upstream_websocket_def)
  next
    case (sent hs')
    with step again show thesis by (simp add: connect_upstream_websocket_def)
  qed
qed


definition demo_url_ops :: url_ops where
  "demo_url_ops = \<lparr>u_path = (\<lambda>u. ''/api/''), u_set_path = (\<lambda>p u. u\<lparr>url_text := p\<rparr>), u_clear_query = (\<lambda>u. u),
     u_clear_fragment = (\<lambda>u. u), u_append_pair = (\<lambda>k v u. u), u_set_scheme = (\<lambda>s u. Some (u\<lparr>url_scheme := s\<rparr>))\<rparr>"

lemma demo_websocket_url:
  "responses_websocket_url demo_url_ops demo_url = Some \<lparr>url_scheme = ''wss'', url_text = ''/api/responses''\<rparr>"
  by (simp add: responses_websocket_url_def demo_url_ops_def demo_url_def trim_end_slashes_def)


section \<open>The warm-up returns\<close>

text \<open>The items that end the wait for the warm-up.\<close>

definition decisive :: "(string \<Rightarrow> json option) \<Rightarrow> upstream_item \<Rightarrow> bool" where
  "decisive parse item =
     (case item of
        Received (UM_Text t) \<Rightarrow> prewarm_event parse t \<noteq> None
      | Received (UM_Ping _) \<Rightarrow> False
      | Received (UM_Pong _) \<Rightarrow> False
      | _ \<Rightarrow> True)"

lemma prewarm_loop_returns:
  "list_ex (decisive parse) items \<Longrightarrow>
     \<exists>r k'. prewarm_loop parse items k = Some (r, k') \<and>
       (\<forall>id. r = Inr id \<longrightarrow> (\<exists>t. find (decisive parse) items = Some (Received (UM_Text t)) \<and>
          prewarm_event parse t = Some (Inr id)))"
proof (induction parse items k rule: prewarm_loop.induct)
  case (2 parse item items k)
  show ?case
  proof (cases item)
    case (Received m)
    then show ?thesis
    proof (cases m)
      case (UM_Text t)
      then show ?thesis using 2 Received by (cases "prewarm_event parse t") (auto simp: decisive_def)
    next
      case (UM_Ping payload)
      obtain ok k' where send: "socket_send (UM_Pong payload) (k\<lparr>sk_incoming := items\<rparr>) = (ok, k')" by fastforce
      show ?thesis
      proof (cases ok)
        case True
        then show ?thesis
          using 2(2) [OF refl Received UM_Ping send [symmetric] _] 2(4) Received UM_Ping send
          by (auto simp: decisive_def)
      next
        case False
        then show ?thesis using Received UM_Ping send by (simp add: decisive_def)
      qed
    next
      case (UM_Pong payload)
      then show ?thesis using 2(3) [OF refl Received UM_Pong] 2(4) Received by (auto simp: decisive_def)
    qed (simp_all add: decisive_def)
  qed (simp_all add: decisive_def)
qed simp


definition demo_completed :: json where
  "demo_completed = jobj [(''type'', JStr ''response.completed''), (''response'', jobj [(''id'', JStr ''r1'')])]"

definition demo_socket :: upstream_socket where
  "demo_socket = \<lparr>sk_incoming = [Received (UM_Ping ''p''), Received (UM_Text ''x'')], sk_send_ok = (\<lambda>n. True), sk_sent = []\<rparr>"

lemma demo_prewarm_event: "prewarm_event (\<lambda>t. Some demo_completed) t = Some (Inr ''r1'')"
  by (simp add: prewarm_event_def demo_completed_def)


section \<open>What the warm-up carries\<close>

text \<open>The fields a Responses Lite request is given or loses; every other field is the client's.\<close>

definition lite_fields :: "string list" where
  "lite_fields =
     [''tools'', ''instructions'', ''parallel_tool_calls'', ''type'', ''store'', ''stream'', ''tool_choice'',
      ''include'', ''prompt_cache_key'', ''text'', ''reasoning'', ''client_metadata'']"

lemma map_of_entry_object_other: "k \<noteq> j \<Longrightarrow> map_of (entry_object j d f m) k = map_of m k"
  by (simp add: entry_object_def Let_def)

lemma map_of_insert_other: "k \<noteq> j \<Longrightarrow> map_of (bmap_insert j v m) k = map_of m k"
  by simp

lemma map_of_entry_or_other: "k \<noteq> j \<Longrightarrow> map_of (bmap_entry_or j v m) k = map_of m k"
  by simp

lemmas other_field_simps = map_of_entry_object_other map_of_insert_other map_of_entry_or_other map_of_remove_other

lemma normalize_other:
  "k \<notin> set lite_fields \<Longrightarrow> map_of (normalize_responses_lite_fields key disable m) k = map_of m k"
  by (simp add: lite_fields_def normalize_responses_lite_fields_def Let_def other_field_simps
      del: map_of_bmap_insert map_of_bmap_entry_or)

lemma normalize_fixed:
  "map_of (normalize_responses_lite_fields key disable m) ''store'' = Some (JBool False)"
  "map_of (normalize_responses_lite_fields key disable m) ''stream'' = Some (JBool True)"
  "map_of (normalize_responses_lite_fields key disable m) ''type'' = Some (JStr ''response.create'')"
  "map_of (normalize_responses_lite_fields key disable m) ''tools'' = map_of m ''tools''"
  "map_of (normalize_responses_lite_fields key disable m) ''instructions'' = map_of m ''instructions''"
  "map_of (normalize_responses_lite_fields key disable m) ''tool_choice'' =
     (if disable then Some (JStr ''none'') else map_of m ''tool_choice'')"
  by (simp_all add: normalize_responses_lite_fields_def Let_def map_of_entry_object_other)

lemma prewarm_cases:
  assumes "responses_lite_prewarm request model key = Inr (prewarm, request')"
  obtains m base disable tools where "request = JObj m" "opt_bind (jget model ''base_instructions'') as_str = Some base"
    "tools = nonempty_array (map_of m ''tools'')"
    "disable = (tools = None \<and> \<not> has_inline_tools m)"
    "request' = JObj (normalize_responses_lite_fields key disable (bmap_remove ''instructions'' (bmap_remove ''tools'' m)))"
    "prewarm = JObj (bmap_insert ''tool_choice'' (JStr ''auto'') (bmap_insert ''generate'' (JBool False)
       (bmap_insert ''input'' (JArr (prewarm_input (case tools of None \<Rightarrow> route_marker_tools | Some ts \<Rightarrow> ts) base
          (opt_bind (map_of m ''instructions'') as_str)))
         (normalize_responses_lite_fields key disable (bmap_remove ''instructions'' (bmap_remove ''tools'' m))))))"
proof -
  from assms obtain m base where m: "request = JObj m"
      "opt_bind (jget model ''base_instructions'') as_str = Some base"
    by (auto simp: responses_lite_prewarm_def Let_def result_simps)
  have "has_inline_tools (bmap_remove ''tools'' m) = has_inline_tools m"
    by (simp add: has_inline_tools_def)
  with m assms show ?thesis
    by (intro that [OF m refl refl]) (simp_all add: responses_lite_prewarm_def Let_def)
qed

text \<open>
  The warm-up and the request share one set of parameters: the request loses its tools and
  instructions, is streamed and not stored, is told to use no tool exactly when it brought none, and
  keeps every field outside the fixed list; the warm-up is that request with generation off, carrying
  the tools, the model's own instructions and the client's, in this order.
\<close>

theorem responses_lite_prewarm_exact:
  assumes "responses_lite_prewarm (JObj m) model key = Inr (prewarm, request')"
  shows "jget request' ''tools'' = None \<and> jget request' ''instructions'' = None \<and>
    jget request' ''store'' = Some (JBool False) \<and> jget request' ''stream'' = Some (JBool True) \<and>
    jget request' ''tool_choice'' =
      (if nonempty_array (map_of m ''tools'') = None \<and> \<not> has_inline_tools m then Some (JStr ''none'')
       else map_of m ''tool_choice'') \<and>
    (\<forall>k. k \<notin> set lite_fields \<longrightarrow> jget request' k = map_of m k) \<and>
    (\<forall>k. k \<notin> {''input'', ''generate'', ''tool_choice''} \<longrightarrow> jget prewarm k = jget request' k) \<and>
    jget prewarm ''generate'' = Some (JBool False) \<and>
    (\<exists>base. jget model ''base_instructions'' = Some (JStr base) \<and>
       jget prewarm ''input'' = Some (JArr (prewarm_input
         (case nonempty_array (map_of m ''tools'') of None \<Rightarrow> route_marker_tools | Some ts \<Rightarrow> ts) base
         (opt_bind (map_of m ''instructions'') as_str))))"
  using assms
proof (rule prewarm_cases)
  fix m0 base disable tools
  let ?m = "bmap_remove ''instructions'' (bmap_remove ''tools'' m)"
  assume m0: "JObj m = JObj m0" and base: "opt_bind (jget model ''base_instructions'') as_str = Some base"
    and tools: "tools = nonempty_array (map_of m0 ''tools'')"
    and disable: "disable = (tools = None \<and> \<not> has_inline_tools m0)"
    and req: "request' = JObj (normalize_responses_lite_fields key disable
      (bmap_remove ''instructions'' (bmap_remove ''tools'' m0)))"
    and pre: "prewarm = JObj (bmap_insert ''tool_choice'' (JStr ''auto'') (bmap_insert ''generate'' (JBool False)
       (bmap_insert ''input'' (JArr (prewarm_input (case tools of None \<Rightarrow> route_marker_tools | Some ts \<Rightarrow> ts) base
          (opt_bind (map_of m0 ''instructions'') as_str)))
         (normalize_responses_lite_fields key disable (bmap_remove ''instructions'' (bmap_remove ''tools'' m0))))))"
  have "jget request' k = map_of m k" if "k \<notin> set lite_fields" for k
  proof -
    from that have "k \<noteq> ''tools''" "k \<noteq> ''instructions''" by (auto simp: lite_fields_def)
    then show ?thesis using m0 normalize_other [OF that] by (simp add: req map_of_remove_other del: map_of_bmap_remove)
  qed
  moreover have "jget prewarm k = jget request' k" if "k \<notin> {''input'', ''generate'', ''tool_choice''}" for k
    using that by (simp add: req pre)
  moreover have "jget model ''base_instructions'' = Some (JStr base)"
    using base by (cases "jget model ''base_instructions''") auto
  ultimately show ?thesis
    using m0 by (simp add: req pre normalize_fixed disable tools del: map_of_bmap_insert)
      (simp add: map_of_insert_other)
qed

definition demo_lite_model :: json where
  "demo_lite_model = jobj [(''slug'', JStr ''m''), (''use_responses_lite'', JBool True), (''base_instructions'', JStr ''base'')]"

definition demo_lite :: "json \<times> json" where
  "demo_lite = projr (responses_lite_prewarm (JObj []) demo_lite_model ''key'')"

lemma demo_lite_run: "responses_lite_prewarm (JObj []) demo_lite_model ''key'' = Inr (fst demo_lite, snd demo_lite)"
  by (simp add: demo_lite_def responses_lite_prewarm_def demo_lite_model_def Let_def)

end
