(* ===== verification/Responses_Stream.thy ===== *)
theory Responses_Stream
  imports Pending Sse Chat_Response Upstream_Ws "HOL-Library.Sublist"
begin

text \<open>
  The loops that relay an upstream answer (\<open>src/http_api.rs\<close>): a WebSocket turn of the Responses API, a
  streamed chat completion, and one that is collected. What the \<open>select!\<close> of a loop sees is its input: a
  shutdown, the client going away, or an upstream item; the sends to the client succeed as \<open>down_ok\<close>
  says. A loop whose inputs run out is still waiting. \<open>fin\<close> and \<open>fin2\<close> are the store calls of the guard.
\<close>

section \<open>Common parts\<close>

datatype 'a progress = Waiting | Panics | Returned 'a

fun and_then :: "'a progress \<Rightarrow> ('a \<Rightarrow> 'b progress) \<Rightarrow> 'b progress" where
  "and_then Waiting f = Waiting"
| "and_then Panics f = Panics"
| "and_then (Returned x) f = f x"

lemma and_then_Returned_iff: "and_then m f = Returned y \<longleftrightarrow> (\<exists>x. m = Returned x \<and> f x = Returned y)"
  by (cases m) simp_all

definition or_panic :: "'a option \<Rightarrow> 'a progress" where
  "or_panic x = (case x of None \<Rightarrow> Panics | Some y \<Rightarrow> Returned y)"

lemma or_panic_simps [simp]:
  "or_panic None = Panics"
  "or_panic (Some x) = Returned x"
  by (simp_all add: or_panic_def)

definition to_billable_usage :: "usage \<Rightarrow> model_rates \<Rightarrow> billable_usage" where
  "to_billable_usage u rates =
     \<lparr>bu_input_tokens = input_tokens u, bu_cached_input_tokens = cached_input_tokens u,
      bu_output_tokens = output_tokens u, bu_rates = rates\<rparr>"

fun final_status_of_kind :: "TerminalKind \<Rightarrow> FinalStatus" where
  "final_status_of_kind TK_Completed = Completed"
| "final_status_of_kind TK_Incomplete = Incomplete"
| "final_status_of_kind TK_Failed = UpstreamError"
| "final_status_of_kind TK_Error = UpstreamError"

definition newline :: string where
  "newline = [char_of (10 :: nat)]"

text \<open>\<open>let _ = request.finish(..)\<close>: the guard and the store afterwards.\<close>

definition finish_quietly ::
  "'s finalizer \<Rightarrow> FinalStatus \<Rightarrow> int option \<Rightarrow> pending_state \<Rightarrow> 's \<Rightarrow> (pending_state \<times> 's) progress" where
  "finish_quietly fin status http p st = or_panic (map_option snd (finish fin status http None p st))"

section \<open>A WebSocket turn\<close>

datatype turn_input = In_Shutdown | In_Client_Gone | In_Item upstream_item

text \<open>
  A text of the upstream: unusable, or its name, its JSON, the terminal it is and the rewritten payload
  of a capacity failure. The outer \<open>None\<close> is a panic of the rewriting.
\<close>

definition read_text ::
  "(string \<Rightarrow> json option) \<Rightarrow> (string \<Rightarrow> bool) \<Rightarrow> string \<Rightarrow>
     (string \<times> json \<times> (terminal_event \<times> json option) option) option option" where
  "read_text parse http_date_ok t =
     (case parse t of
        None \<Rightarrow> Some None
      | Some event \<Rightarrow>
          (case opt_bind (jget event ''type'') as_str of
             None \<Rightarrow> Some None
           | Some name \<Rightarrow>
               (case parse_terminal_payload event of
                  Inl _ \<Rightarrow> Some None
                | Inr None \<Rightarrow> Some (Some (name, event, None))
                | Inr (Some terminal) \<Rightarrow>
                    map_option (\<lambda>rewritten. Some (name, event, Some (terminal, rewritten)))
                      (retryable_capacity_payload http_date_ok terminal))))"

definition sse_frame :: "string \<Rightarrow> string \<Rightarrow> string" where
  "sse_frame name data =
     ''id: '' @ newline @ ''event: '' @ name @ newline @ ''data: '' @ data @ newline @ newline"

definition terminal_frame :: "(json \<Rightarrow> string) \<Rightarrow> string \<Rightarrow> string \<Rightarrow> json option \<Rightarrow> string" where
  "terminal_frame print name t rewritten =
     (case rewritten of None \<Rightarrow> sse_frame name t | Some payload \<Rightarrow> sse_frame ''response.failed'' (print payload))"

definition note_output_item :: "string \<Rightarrow> json \<Rightarrow> json list \<Rightarrow> json list" where
  "note_output_item name event items =
     (if name = ''response.output_item.done''
      then (case opt_filter is_object (jget event ''item'') of None \<Rightarrow> items | Some item \<Rightarrow> items @ [item])
      else items)"

text \<open>The output the private API may omit, restored from the completed items.\<close>

definition restore_output :: "json list \<Rightarrow> terminal_event \<Rightarrow> terminal_event option" where
  "restore_output items terminal =
     (let out = jpointer (te_payload terminal) [''response'', ''output''] in
      if te_kind terminal = TK_Completed \<and> items \<noteq> [] \<and>
         (out = None \<or> out = Some JNull \<or> opt_bind out as_array = Some [])
      then map_option (\<lambda>payload. terminal\<lparr>te_payload := payload\<rparr>)
             (jset2 (te_payload terminal) ''response'' ''output'' (JArr items))
      else Some terminal)"

record 's turn_state =
  ts_items :: "json list"
  ts_socket :: upstream_socket
  ts_out :: "string list"
  ts_pending :: pending_state
  ts_store :: 's

text \<open>Every way out but the terminal: record the status and return nothing.\<close>

definition give_up ::
  "'s finalizer \<Rightarrow> FinalStatus \<Rightarrow> 's turn_state \<Rightarrow> ((terminal_event \<times> string) option \<times> 's turn_state) progress" where
  "give_up fin status s =
     and_then (finish_quietly fin status (Some 200) (ts_pending s) (ts_store s)) (\<lambda>(p, st).
     Returned (None, s\<lparr>ts_pending := p, ts_store := st\<rparr>))"

definition settle_terminal ::
  "(json \<Rightarrow> string) \<Rightarrow> model_rates \<Rightarrow> 's finalizer \<Rightarrow> 's finalizer \<Rightarrow> string \<Rightarrow> string \<Rightarrow> terminal_event \<Rightarrow>
     json option \<Rightarrow> 's turn_state \<Rightarrow> ((terminal_event \<times> string) option \<times> 's turn_state) progress" where
  "settle_terminal print rates fin fin2 name t terminal rewritten s =
     and_then (or_panic (restore_output (ts_items s) terminal)) (\<lambda>restored.
     and_then (or_panic (finish_terminal fin fin2 (final_status_of_kind (te_kind restored)) 200 200
         (map_option (\<lambda>u. to_billable_usage u rates) (te_usage restored)) (ts_pending s) (ts_store s)))
       (\<lambda>(result, p, st).
       Returned (case result of
           Inl _ \<Rightarrow> None
         | Inr _ \<Rightarrow> Some (restored, terminal_frame print name t rewritten),
         s\<lparr>ts_pending := p, ts_store := st\<rparr>)))"

fun forward_websocket_responses_stream ::
  "(string \<Rightarrow> json option) \<Rightarrow> (json \<Rightarrow> string) \<Rightarrow> (string \<Rightarrow> bool) \<Rightarrow> (nat \<Rightarrow> bool) \<Rightarrow> model_rates \<Rightarrow>
     's finalizer \<Rightarrow> 's finalizer \<Rightarrow> turn_input list \<Rightarrow> 's turn_state \<Rightarrow>
     ((terminal_event \<times> string) option \<times> 's turn_state) progress" where
  "forward_websocket_responses_stream parse print http_date_ok down_ok rates fin fin2 [] s = Waiting"
| "forward_websocket_responses_stream parse print http_date_ok down_ok rates fin fin2 (i # inputs) s =
     (case i of
        In_Item (Received (UM_Text t)) \<Rightarrow>
          (case read_text parse http_date_ok t of
             None \<Rightarrow> Panics
           | Some None \<Rightarrow> give_up fin UpstreamError s
           | Some (Some (name, event, None)) \<Rightarrow>
               (let s = s\<lparr>ts_items := note_output_item name event (ts_items s)\<rparr> in
                if down_ok (length (ts_out s))
                then forward_websocket_responses_stream parse print http_date_ok down_ok rates fin fin2 inputs
                       (s\<lparr>ts_out := ts_out s @ [sse_frame name t]\<rparr>)
                else give_up fin Canceled s)
           | Some (Some (name, event, Some (terminal, rewritten))) \<Rightarrow>
               settle_terminal print rates fin fin2 name t terminal rewritten
                 (s\<lparr>ts_items := note_output_item name event (ts_items s)\<rparr>))
      | In_Item (Received (UM_Ping payload)) \<Rightarrow>
          (case socket_send (UM_Pong payload) (ts_socket s) of
             (ok, k) \<Rightarrow>
               if ok
               then forward_websocket_responses_stream parse print http_date_ok down_ok rates fin fin2 inputs
                      (s\<lparr>ts_socket := k\<rparr>)
               else give_up fin UpstreamError (s\<lparr>ts_socket := k\<rparr>))
      | In_Item (Received (UM_Pong _)) \<Rightarrow>
          forward_websocket_responses_stream parse print http_date_ok down_ok rates fin fin2 inputs s
      | In_Item (Received (UM_Close _)) \<Rightarrow> give_up fin UpstreamError s
      | In_Item (Received (UM_Binary _)) \<Rightarrow> give_up fin UpstreamError s
      | In_Item (Received (UM_Frame _)) \<Rightarrow> give_up fin UpstreamError s
      | In_Item Receive_Error \<Rightarrow> give_up fin Canceled s
      | In_Item Stream_End \<Rightarrow> give_up fin Canceled s
      | In_Shutdown \<Rightarrow> give_up fin Canceled s
      | In_Client_Gone \<Rightarrow> give_up fin Canceled s)"

section \<open>A chat stream\<close>

datatype 'e chat_input = Chat_Shutdown | Chat_Client_Gone | Chat_Record "'e + raw_event" | Chat_Eof

definition chat_sse_bytes :: "(json \<Rightarrow> string) \<Rightarrow> json \<Rightarrow> string" where
  "chat_sse_bytes print v = ''data: '' @ print v @ newline @ newline"

definition done_bytes :: string where
  "done_bytes = ''data: [DONE]'' @ newline @ newline"

record 's chat_state =
  cs_converter :: chat_stream_converter
  cs_out :: "string list"
  cs_pending :: pending_state
  cs_store :: 's

definition chat_stop :: "'s finalizer \<Rightarrow> FinalStatus \<Rightarrow> 's chat_state \<Rightarrow> 's chat_state progress" where
  "chat_stop fin status s =
     and_then (finish_quietly fin status (Some 200) (cs_pending s) (cs_store s)) (\<lambda>(p, st).
     Returned (s\<lparr>cs_pending := p, cs_store := st\<rparr>))"

text \<open>\<open>sender.send\<close> for each item until one fails.\<close>

fun send_all :: "(nat \<Rightarrow> bool) \<Rightarrow> string list \<Rightarrow> string list \<Rightarrow> string list" where
  "send_all down_ok [] out = out"
| "send_all down_ok (b # bs) out = (if down_ok (length out) then send_all down_ok bs (out @ [b]) else out)"

fun final_status_of_chat :: "TerminalStatus \<Rightarrow> FinalStatus" where
  "final_status_of_chat TS_Completed = Completed"
| "final_status_of_chat TS_Incomplete = Incomplete"

definition settle_chat ::
  "(json \<Rightarrow> string) \<Rightarrow> (nat \<Rightarrow> bool) \<Rightarrow> model_rates \<Rightarrow> 's finalizer \<Rightarrow> 's finalizer \<Rightarrow> terminal_event \<Rightarrow>
     's chat_state \<Rightarrow> 's chat_state progress" where
  "settle_chat print down_ok rates fin fin2 terminal s =
     (let close = (\<lambda>status u k.
        and_then (or_panic (finish_terminal fin fin2 status 200 200 (map_option (\<lambda>u. to_billable_usage u rates) u)
            (cs_pending s) (cs_store s)))
          (\<lambda>(result, p, st). Returned (k result (s\<lparr>cs_pending := p, cs_store := st\<rparr>))))
      in
        case upstream_error terminal of
          Some error \<Rightarrow>
            close UpstreamError (te_usage terminal) (\<lambda>_ s'.
              s'\<lparr>cs_out := send_all down_ok [chat_sse_bytes print (body (upstream error))] (cs_out s')\<rparr>)
        | None \<Rightarrow>
            (case convert_terminal (cs_converter s) terminal of
               (Inl _, cv) \<Rightarrow> close UpstreamError (te_usage terminal) (\<lambda>_ s'. s'\<lparr>cs_converter := cv\<rparr>)
             | (Inr converted, cv) \<Rightarrow>
                 close (final_status_of_chat (cst_status converted)) (Some (cst_usage converted)) (\<lambda>result s'.
                   case result of
                     Inl _ \<Rightarrow> s'\<lparr>cs_converter := cv\<rparr>
                   | Inr _ \<Rightarrow> s'\<lparr>cs_converter := cv,
                       cs_out := send_all down_ok (map (chat_sse_bytes print) (cst_chunks converted) @ [done_bytes])
                         (cs_out s')\<rparr>)))"

fun forward_chat_stream ::
  "(string \<Rightarrow> json option) \<Rightarrow> (json \<Rightarrow> string) \<Rightarrow> (nat \<Rightarrow> bool) \<Rightarrow> model_rates \<Rightarrow> 's finalizer \<Rightarrow> 's finalizer \<Rightarrow>
     'e chat_input list \<Rightarrow> 's chat_state \<Rightarrow> 's chat_state progress" where
  "forward_chat_stream parse print down_ok rates fin fin2 [] s = Waiting"
| "forward_chat_stream parse print down_ok rates fin fin2 (i # inputs) s =
     (case i of
        Chat_Shutdown \<Rightarrow> chat_stop fin Canceled s
      | Chat_Client_Gone \<Rightarrow> chat_stop fin Canceled s
      | Chat_Eof \<Rightarrow> chat_stop fin UpstreamError s
      | Chat_Record r \<Rightarrow>
          (case fst (sse_next parse [r]) of
             Inl _ \<Rightarrow> chat_stop fin UpstreamError s
           | Inr SseEof \<Rightarrow> chat_stop fin UpstreamError s
           | Inr (SseEvent event) \<Rightarrow>
               (case sse_terminal event of
                  Some terminal \<Rightarrow> settle_chat print down_ok rates fin fin2 terminal s
                | None \<Rightarrow>
                    (case parse (sse_data event) of
                       None \<Rightarrow> forward_chat_stream parse print down_ok rates fin fin2 inputs s
                     | Some v \<Rightarrow>
                         (case convert_event (cs_converter s) v of
                            (Inl _, cv) \<Rightarrow> chat_stop fin UpstreamError (s\<lparr>cs_converter := cv\<rparr>)
                          | (Inr None, cv) \<Rightarrow>
                              forward_chat_stream parse print down_ok rates fin fin2 inputs (s\<lparr>cs_converter := cv\<rparr>)
                          | (Inr (Some c), cv) \<Rightarrow>
                              if down_ok (length (cs_out s))
                              then forward_chat_stream parse print down_ok rates fin fin2 inputs
                                     (s\<lparr>cs_converter := cv, cs_out := cs_out s @ [chat_sse_bytes print c]\<rparr>)
                              else chat_stop fin Canceled (s\<lparr>cs_converter := cv\<rparr>))))))"

section \<open>A collected chat completion\<close>

datatype ChatStreamError =
    Chat_Stream_Shutdown
  | Invalid_Terminal "usage option" api_error
  | Missing_Terminal

definition collect_output_item :: "(string \<Rightarrow> json option) \<Rightarrow> sse_event \<Rightarrow> json list \<Rightarrow> json list" where
  "collect_output_item parse event items =
     (case parse (sse_data event) of
        None \<Rightarrow> items
      | Some v \<Rightarrow>
          (if opt_bind (jget v ''type'') as_str = Some ''response.output_item.done''
           then (case jget v ''item'' of None \<Rightarrow> items | Some item \<Rightarrow> items @ [item])
           else items))"

text \<open>The terminal of a collected answer; the \<open>unreachable!\<close> is a panic.\<close>

definition finish_chat_terminal ::
  "json list \<Rightarrow> terminal_event \<Rightarrow> (ChatStreamError + converted_terminal) progress" where
  "finish_chat_terminal items terminal =
     (case upstream_error terminal of
        Some error \<Rightarrow> Returned (Inl (Invalid_Terminal (te_usage terminal) (upstream error)))
      | None \<Rightarrow>
          and_then
            (if opt_bind (jpointer (te_payload terminal) [''response'', ''output'']) as_array = Some [] \<and> items \<noteq> []
             then or_panic (map_option (\<lambda>payload. terminal\<lparr>te_payload := payload\<rparr>)
                    (jset2 (te_payload terminal) ''response'' ''output'' (JArr items)))
             else Returned terminal)
            (\<lambda>filled.
            case convert_terminal_event filled of
              Inr converted \<Rightarrow> Returned (Inr converted)
            | Inl e \<Rightarrow>
                if ce_kind e = UpstreamProtocol
                then Returned (Inl (Invalid_Terminal (te_usage terminal)
                  (gateway ''Upstream terminal response could not be converted'')))
                else Panics))"

fun read_chat_terminal ::
  "(string \<Rightarrow> json option) \<Rightarrow> 'e chat_input list \<Rightarrow> json list \<Rightarrow> (ChatStreamError + converted_terminal) progress" where
  "read_chat_terminal parse [] items = Waiting"
| "read_chat_terminal parse (i # inputs) items =
     (case i of
        Chat_Shutdown \<Rightarrow> Returned (Inl Chat_Stream_Shutdown)
      | Chat_Client_Gone \<Rightarrow> read_chat_terminal parse inputs items
      | Chat_Eof \<Rightarrow> Returned (Inl Missing_Terminal)
      | Chat_Record r \<Rightarrow>
          (case fst (sse_next parse [r]) of
             Inl _ \<Rightarrow> Returned (Inl Missing_Terminal)
           | Inr SseEof \<Rightarrow> Returned (Inl Missing_Terminal)
           | Inr (SseEvent event) \<Rightarrow>
               (case into_terminal event of
                  Some terminal \<Rightarrow> finish_chat_terminal items terminal
                | None \<Rightarrow> read_chat_terminal parse inputs (collect_output_item parse event items))))"

section \<open>A turn is relayed and closed\<close>

lemma retryable_no_panic:
  assumes "terminal_ok ev" shows "retryable_capacity_payload http_date_ok ev \<noteq> None"
proof (cases "\<exists>e. capacity_error ev e")
  case True
  then obtain e where c: "capacity_error ev (JObj e)"
    using upstream_error_object by (metis capacity_error_def)
  then have "te_kind ev = TK_Failed \<or> te_kind ev = TK_Error"
    by (auto simp: capacity_error_def upstream_error_def split: TerminalKind.splits)
  then show ?thesis
    using retryable_failed [OF assms _ c] retryable_error [OF assms _ c] by fastforce
next
  case False
  then show ?thesis
    by (auto simp: retryable_capacity_payload_def capacity_error_def split: option.splits)
qed

lemma read_text_no_panic: "read_text parse http_date_ok t \<noteq> None"
  using retryable_no_panic
  by (auto simp: read_text_def parse_terminal_iff split: option.split sum.split)

lemma read_text_terminal:
  assumes "read_text parse http_date_ok t = Some (Some (name, event, Some (terminal, rewritten)))"
  shows "terminal_ok terminal \<and> parse t = Some (te_payload terminal)"
  using assms by (auto simp: read_text_def parse_terminal_iff split: option.splits sum.splits)

lemma restore_output_no_panic:
  assumes "terminal_ok terminal"
  shows "\<exists>payload. restore_output items terminal = Some (terminal\<lparr>te_payload := payload\<rparr>)"
proof (cases "te_kind terminal = TK_Completed")
  case True
  with assms obtain b m where "te_payload terminal = JObj b" "map_of b ''response'' = Some (JObj m)"
    by (auto simp: terminal_ok_def jget_Some)
  then show ?thesis by (auto simp: restore_output_def Let_def jset2_def intro: exI [of _ "te_payload terminal"])
next
  case False
  then show ?thesis by (auto simp: restore_output_def Let_def intro: exI [of _ "te_payload terminal"])
qed

lemma finish_quietly_open: "\<exists>st'. finish_quietly fin status http (Open q) st = Returned (Finalized, st')"
  by (cases "fin (open_request_id q) status http None st") (simp add: finish_quietly_def finish_def)

lemma give_up_open:
  assumes "ts_pending s = Open q"
  obtains st' where "give_up fin status s = Returned (None, s\<lparr>ts_pending := Finalized, ts_store := st'\<rparr>)"
  using assms finish_quietly_open [of fin status "Some 200" q "ts_store s"]
  by (auto simp: give_up_def)

text \<open>The inputs a turn goes on after, what it sends the client for them, and the items it notes.\<close>

definition informational :: "(string \<Rightarrow> json option) \<Rightarrow> (string \<Rightarrow> bool) \<Rightarrow> turn_input \<Rightarrow> bool" where
  "informational parse http_date_ok i =
     (case i of
        In_Item (Received (UM_Text t)) \<Rightarrow>
          (case read_text parse http_date_ok t of Some (Some (_, _, None)) \<Rightarrow> True | _ \<Rightarrow> False)
      | In_Item (Received (UM_Ping _)) \<Rightarrow> True
      | In_Item (Received (UM_Pong _)) \<Rightarrow> True
      | _ \<Rightarrow> False)"

definition text_event :: "(string \<Rightarrow> json option) \<Rightarrow> turn_input \<Rightarrow> (string \<times> json \<times> string) list" where
  "text_event parse i =
     (case i of
        In_Item (Received (UM_Text t)) \<Rightarrow>
          (case parse t of
             None \<Rightarrow> []
           | Some event \<Rightarrow> [(str_or [] (opt_bind (jget event ''type'') as_str), event, t)])
      | _ \<Rightarrow> [])"

definition relayed :: "(string \<Rightarrow> json option) \<Rightarrow> turn_input list \<Rightarrow> string list" where
  "relayed parse inputs = map (\<lambda>(name, event, t). sse_frame name t) (concat (map (text_event parse) inputs))"

definition noted :: "(string \<Rightarrow> json option) \<Rightarrow> turn_input list \<Rightarrow> json list \<Rightarrow> json list" where
  "noted parse inputs items =
     fold (\<lambda>(name, event, t). note_output_item name event) (concat (map (text_event parse) inputs)) items"

lemma read_text_informational:
  assumes "read_text parse http_date_ok t = Some (Some (name, event, tr))"
  shows "text_event parse (In_Item (Received (UM_Text t))) = [(name, event, t)]"
  using assms
  by (auto simp: read_text_def text_event_def str_or_def split: option.splits sum.splits)

definition turn_relayed ::
  "(string \<Rightarrow> json option) \<Rightarrow> (json \<Rightarrow> string) \<Rightarrow> (string \<Rightarrow> bool) \<Rightarrow> model_rates \<Rightarrow> 's finalizer \<Rightarrow> 's finalizer \<Rightarrow>
     open_request \<Rightarrow> turn_input list \<Rightarrow> 's turn_state \<Rightarrow> (terminal_event \<times> string) option \<Rightarrow> 's turn_state \<Rightarrow> bool" where
  "turn_relayed parse print http_date_ok rates fin fin2 q inputs s r s' \<longleftrightarrow>
     ts_pending s' = Finalized \<and>
     (\<exists>before i after. inputs = before @ i # after \<and> list_all (informational parse http_date_ok) before \<and>
        ts_out s' = ts_out s @ relayed parse before \<and>
        (\<forall>terminal b. r = Some (terminal, b) \<longrightarrow>
           (\<exists>t name event ev rewritten. i = In_Item (Received (UM_Text t)) \<and>
              read_text parse http_date_ok t = Some (Some (name, event, Some (ev, rewritten))) \<and>
              restore_output (note_output_item name event (noted parse before (ts_items s))) ev = Some terminal \<and>
              b = terminal_frame print name t rewritten \<and>
              finish_terminal fin fin2 (final_status_of_kind (te_kind ev)) 200 200
                (map_option (\<lambda>u. to_billable_usage u rates) (te_usage ev)) (Open q) (ts_store s) =
                Some (Inr (), Finalized, ts_store s'))))"

lemma turn_relayed_now:
  assumes "ts_pending s' = Finalized" "ts_out s' = ts_out s" "r = None"
  shows "turn_relayed parse print http_date_ok rates fin fin2 q (i # inputs) s r s'"
  unfolding turn_relayed_def using assms
  by (intro conjI exI [of _ "[]"] exI [of _ i] exI [of _ inputs]) (simp_all add: relayed_def)

lemma turn_relayed_later:
  assumes "informational parse http_date_ok i"
    and "turn_relayed parse print http_date_ok rates fin fin2 q inputs s1 r s'"
    and "ts_out s1 = ts_out s @ relayed parse [i]" "ts_items s1 = noted parse [i] (ts_items s)"
    and "ts_store s1 = ts_store s"
  shows "turn_relayed parse print http_date_ok rates fin fin2 q (i # inputs) s r s'"
proof -
  from assms(2) obtain before j after where split: "inputs = before @ j # after"
      "list_all (informational parse http_date_ok) before" "ts_out s' = ts_out s1 @ relayed parse before"
    and fin: "ts_pending s' = Finalized"
    and terminal: "\<And>terminal b. r = Some (terminal, b) \<Longrightarrow>
           (\<exists>t name event ev rewritten. j = In_Item (Received (UM_Text t)) \<and>
              read_text parse http_date_ok t = Some (Some (name, event, Some (ev, rewritten))) \<and>
              restore_output (note_output_item name event (noted parse before (ts_items s1))) ev = Some terminal \<and>
              b = terminal_frame print name t rewritten \<and>
              finish_terminal fin fin2 (final_status_of_kind (te_kind ev)) 200 200
                (map_option (\<lambda>u. to_billable_usage u rates) (te_usage ev)) (Open q) (ts_store s1) =
                Some (Inr (), Finalized, ts_store s'))"
    unfolding turn_relayed_def by blast
  have "ts_out s' = ts_out s @ relayed parse (i # before)"
    using split(3) assms(3) by (simp add: relayed_def)
  moreover have "noted parse before (ts_items s1) = noted parse (i # before) (ts_items s)"
    using assms(4) by (simp add: noted_def)
  ultimately show ?thesis
    unfolding turn_relayed_def using split(1,2) fin terminal assms(1,5)
    by (intro conjI exI [of _ "i # before"] exI [of _ j] exI [of _ after]) simp_all
qed

lemma settle_terminal_open:
  assumes "ts_pending s = Open q" and "terminal_ok ev"
  shows "\<exists>r s'. settle_terminal print rates fin fin2 name t ev rewritten s = Returned (r, s') \<and>
    ts_pending s' = Finalized \<and> ts_out s' = ts_out s \<and>
    (\<forall>terminal b. r = Some (terminal, b) \<longrightarrow> restore_output (ts_items s) ev = Some terminal \<and>
       b = terminal_frame print name t rewritten \<and>
       finish_terminal fin fin2 (final_status_of_kind (te_kind ev)) 200 200
         (map_option (\<lambda>u. to_billable_usage u rates) (te_usage ev)) (Open q) (ts_store s) =
         Some (Inr (), Finalized, ts_store s'))"
proof -
  obtain payload where payload: "restore_output (ts_items s) ev = Some (ev\<lparr>te_payload := payload\<rparr>)"
    using restore_output_no_panic [OF assms(2)] by blast
  obtain result st' where fin: "finish_terminal fin fin2 (final_status_of_kind (te_kind ev)) 200 200
      (map_option (\<lambda>u. to_billable_usage u rates) (te_usage ev)) (Open q) (ts_store s) =
      Some (result, Finalized, st')"
    by (rule finish_terminal_open)
  let ?s = "s\<lparr>ts_pending := Finalized, ts_store := st'\<rparr>"
  show ?thesis
  proof (cases result)
    case (Inl u)
    then show ?thesis using payload fin assms(1)
      by (intro exI [of _ None] exI [of _ ?s]) (simp add: settle_terminal_def)
  next
    case (Inr u)
    then show ?thesis using payload fin assms(1)
      by (intro exI [of _ "Some (ev\<lparr>te_payload := payload\<rparr>, terminal_frame print name t rewritten)"] exI [of _ ?s])
        (simp add: settle_terminal_def)
  qed
qed

text \<open>
  One input of the loop: it ends the turn and gives up, it is relayed or answered and the loop goes on, or it is
  the terminal event and the turn is settled.
\<close>

lemma forward_step_cases:
  obtains (gave_up) status s1 where
      "\<And>fin fin2. forward_websocket_responses_stream parse print http_date_ok down_ok rates fin fin2 (i # inputs) s =
         give_up fin status s1"
      "ts_pending s1 = ts_pending s" "ts_out s1 = ts_out s" "ts_store s1 = ts_store s"
    | (went_on) s1 where
      "\<And>fin fin2. forward_websocket_responses_stream parse print http_date_ok down_ok rates fin fin2 (i # inputs) s =
         forward_websocket_responses_stream parse print http_date_ok down_ok rates fin fin2 inputs s1"
      "informational parse http_date_ok i" "ts_pending s1 = ts_pending s" "ts_store s1 = ts_store s"
      "ts_out s1 = ts_out s @ relayed parse [i]" "ts_items s1 = noted parse [i] (ts_items s)"
    | (settled) t name event ev rewritten where "i = In_Item (Received (UM_Text t))"
      "read_text parse http_date_ok t = Some (Some (name, event, Some (ev, rewritten)))"
      "\<And>fin fin2. forward_websocket_responses_stream parse print http_date_ok down_ok rates fin fin2 (i # inputs) s =
         settle_terminal print rates fin fin2 name t ev rewritten (s\<lparr>ts_items := note_output_item name event (ts_items s)\<rparr>)"
proof (cases "\<exists>t. i = In_Item (Received (UM_Text t))")
  case True
  then obtain t where i: "i = In_Item (Received (UM_Text t))" by blast
  have "read_text parse http_date_ok t \<noteq> None" by (rule read_text_no_panic)
  then consider "read_text parse http_date_ok t = Some None"
    | name event where "read_text parse http_date_ok t = Some (Some (name, event, None))"
    | name event ev rw where "read_text parse http_date_ok t = Some (Some (name, event, Some (ev, rw)))"
    by (metis (no_types) option.exhaust prod_cases3 surj_pair)
  then show thesis
  proof cases
    case 1
    with gave_up [of UpstreamError s] show thesis by (simp add: i)
  next
    case (2 name event)
    let ?s = "s\<lparr>ts_items := note_output_item name event (ts_items s)\<rparr>"
    from 2 gave_up [of Canceled ?s] went_on [of "?s\<lparr>ts_out := ts_out s @ [sse_frame name t]\<rparr>"]
      read_text_informational [OF 2] show thesis
      by (cases "down_ok (length (ts_out s))") (simp_all add: i informational_def relayed_def noted_def)
  next
    case (3 name event ev rw)
    with settled show thesis by (simp add: i)
  qed
next
  case False
  show thesis
  proof (cases "\<exists>payload. i = In_Item (Received (UM_Ping payload)) \<or> i = In_Item (Received (UM_Pong payload))")
    case True
    then obtain payload where i: "i = In_Item (Received (UM_Ping payload)) \<or> i = In_Item (Received (UM_Pong payload))" by blast
    obtain ok k where "socket_send (UM_Pong payload) (ts_socket s) = (ok, k)" by fastforce
    with i gave_up [of UpstreamError "s\<lparr>ts_socket := k\<rparr>"] went_on [of "s\<lparr>ts_socket := k\<rparr>"] went_on [of s] show thesis
      by (cases ok) (auto simp: informational_def relayed_def noted_def text_event_def)
  next
    case other: False
    have "\<exists>status. \<forall>fin fin2. forward_websocket_responses_stream parse print http_date_ok down_ok rates fin fin2 (i # inputs) s =
        give_up fin status s"
      using False other by (cases i; auto split: upstream_item.splits upstream_message.splits)
    then show thesis using gave_up [of _ s] by auto
  qed
qed

lemma settled_relayed:
  assumes p: "ts_pending s = Open q" and i: "i = In_Item (Received (UM_Text t))"
    and read: "read_text parse http_date_ok t = Some (Some (name, event, Some (ev, rewritten)))"
  shows "\<exists>r s'. settle_terminal print rates fin fin2 name t ev rewritten (s\<lparr>ts_items := note_output_item name event (ts_items s)\<rparr>) =
      Returned (r, s') \<and> turn_relayed parse print http_date_ok rates fin fin2 q (i # inputs) s r s'"
proof -
  let ?s = "s\<lparr>ts_items := note_output_item name event (ts_items s)\<rparr>"
  have "ts_pending ?s = Open q" "terminal_ok ev"
    using p read read_text_terminal by auto
  from settle_terminal_open [OF this] obtain r s' where
    settled: "settle_terminal print rates fin fin2 name t ev rewritten ?s = Returned (r, s')"
      "ts_pending s' = Finalized" "ts_out s' = ts_out ?s"
    and terminal: "\<And>terminal b. r = Some (terminal, b) \<Longrightarrow> restore_output (ts_items ?s) ev = Some terminal \<and>
         b = terminal_frame print name t rewritten \<and>
         finish_terminal fin fin2 (final_status_of_kind (te_kind ev)) 200 200
           (map_option (\<lambda>u. to_billable_usage u rates) (te_usage ev)) (Open q) (ts_store ?s) =
           Some (Inr (), Finalized, ts_store s')"
    by blast
  have "\<exists>t name event ev rewritten. i = In_Item (Received (UM_Text t)) \<and>
          read_text parse http_date_ok t = Some (Some (name, event, Some (ev, rewritten))) \<and>
          restore_output (note_output_item name event (noted parse [] (ts_items s))) ev = Some terminal \<and>
          b = terminal_frame print name t rewritten \<and>
          finish_terminal fin fin2 (final_status_of_kind (te_kind ev)) 200 200
            (map_option (\<lambda>u. to_billable_usage u rates) (te_usage ev)) (Open q) (ts_store s) =
            Some (Inr (), Finalized, ts_store s')" if "r = Some (terminal, b)" for terminal b
    using terminal [OF that] read i
    by (intro exI [of _ t] exI [of _ name] exI [of _ event] exI [of _ ev] exI [of _ rewritten]) (simp add: noted_def)
  then have "turn_relayed parse print http_date_ok rates fin fin2 q (i # inputs) s r s'"
    unfolding turn_relayed_def using settled(2,3)
    by (intro conjI, simp, rule_tac x = "[]" in exI, rule_tac x = i in exI, rule_tac x = inputs in exI)
      (simp add: relayed_def)
  with settled(1) show ?thesis by blast
qed

lemma forward_stream_sound:
  assumes "ts_pending s = Open q"
  shows "case forward_websocket_responses_stream parse print http_date_ok down_ok rates fin fin2 inputs s of
      Waiting \<Rightarrow> list_all (informational parse http_date_ok) inputs
    | Panics \<Rightarrow> False
    | Returned (r, s') \<Rightarrow> turn_relayed parse print http_date_ok rates fin fin2 q inputs s r s'"
  using assms
proof (induction inputs arbitrary: s)
  case (Cons i inputs)
  show ?case
  proof (cases rule: forward_step_cases
      [of parse print http_date_ok down_ok rates i inputs s, case_names gave_up went_on settled])
    case (gave_up status s1)
    with Cons.prems obtain st' where "give_up fin status s1 = Returned (None, s1\<lparr>ts_pending := Finalized, ts_store := st'\<rparr>)"
      using give_up_open [of s1 q fin status] by auto
    then show ?thesis by (simp only: gave_up(1) progress.case prod.case) (simp add: turn_relayed_now gave_up(3))
  next
    case (went_on s1)
    with Cons.prems Cons.IH [of s1] show ?thesis
      by (simp only: went_on(1)) (auto intro: turn_relayed_later split: progress.splits)
  next
    case (settled t name event ev rewritten)
    from settled_relayed [OF Cons.prems settled(1,2)] obtain r s' where
      "settle_terminal print rates fin fin2 name t ev rewritten (s\<lparr>ts_items := note_output_item name event (ts_items s)\<rparr>) =
         Returned (r, s')" "turn_relayed parse print http_date_ok rates fin fin2 q (i # inputs) s r s'" by blast
    then show ?thesis by (simp only: settled(3) progress.case prod.case)
  qed
qed simp


definition demo_turn :: "unit turn_state" where
  "demo_turn = \<lparr>ts_items = [], ts_socket = demo_socket, ts_out = [], ts_pending = pending_new (RequestId 1), ts_store = ()\<rparr>"


section \<open>A chat answer is accounted before it ends\<close>

text \<open>Conversions of upstream data blame the upstream.\<close>

definition blames_upstream :: "chat_error + 'a \<Rightarrow> bool" where
  "blames_upstream r \<longleftrightarrow> (\<forall>e. r = Inl e \<longrightarrow> ce_kind e = UpstreamProtocol)"

named_theorems upstream_intros \<open>computations whose errors are the upstream's\<close>

lemma upstream_basic [upstream_intros]:
  "blames_upstream (Inr x)"
  "blames_upstream (Inl (chat_upstream m))"
  "blames_upstream (ok_or (chat_upstream m) o')"
  "blames_upstream (upstream_string object f c)"
  "blames_upstream (upstream_integer object f c)"
  by (auto simp: blames_upstream_def chat_upstream_def ok_or_Inl_iff upstream_string_def upstream_integer_def)

lemma upstream_bind [upstream_intros]:
  "blames_upstream m \<Longrightarrow> (\<And>x. blames_upstream (f x)) \<Longrightarrow> blames_upstream (res_bind m f)"
  by (auto simp: blames_upstream_def res_bind_Inl_iff)

lemma upstream_if [upstream_intros]:
  "blames_upstream a \<Longrightarrow> blames_upstream b \<Longrightarrow> blames_upstream (if c then a else b)"
  by simp

lemma upstream_status [upstream_intros]:
  "blames_upstream (terminal_status k)" "blames_upstream (incomplete_finish_reason m)"
  by (auto simp: terminal_status_def incomplete_finish_reason_def split: TerminalKind.split intro!: upstream_intros)

lemma upstream_parts [upstream_intros]: "blames_upstream (convert_content_parts i j ps c)"
  by (induction ps arbitrary: j c) (auto intro!: upstream_intros)

lemma upstream_item [upstream_intros]: "blames_upstream (convert_output_item i v c)"
  by (auto simp: convert_output_item_def convert_output_message_def intro!: upstream_intros)

lemma upstream_output [upstream_intros]: "blames_upstream (convert_output vs)"
proof -
  have "blames_upstream (convert_output_from i vs c)" for i c
    by (induction vs arbitrary: i c) (auto intro!: upstream_intros)
  then show ?thesis by (simp add: convert_output_def)
qed

lemma upstream_terminal: "blames_upstream (convert_terminal_event terminal)"
  unfolding convert_terminal_event_def
  by (intro upstream_intros) (auto split: TerminalStatus.split intro: upstream_intros)

lemma finish_chat_terminal_no_panic: "finish_chat_terminal items terminal \<noteq> Panics"
proof (cases "upstream_error terminal")
  case None
  have convert: "ce_kind e = UpstreamProtocol" if "convert_terminal_event t = Inl e" for t e
    using upstream_terminal [of t] that by (simp add: blames_upstream_def)
  have fill: "\<exists>p. jset2 v ''response'' ''output'' w = Some p"
    if "opt_bind (jpointer v [''response'', ''output'']) as_array = Some []" for v w
    using that by (auto simp: jset2_def jget_Some split: option.splits)
  obtain filled where
    "(if opt_bind (jpointer (te_payload terminal) [''response'', ''output'']) as_array = Some [] \<and> items \<noteq> []
      then or_panic (map_option (\<lambda>payload. terminal\<lparr>te_payload := payload\<rparr>)
             (jset2 (te_payload terminal) ''response'' ''output'' (JArr items)))
      else Returned terminal) = Returned filled"
    using fill [of "te_payload terminal" "JArr items"]
    by (cases "opt_bind (jpointer (te_payload terminal) [''response'', ''output'']) as_array = Some [] \<and> items \<noteq> []")
      (auto simp del: jpointer.simps)
  with None convert [of filled] show ?thesis
    by (cases "convert_terminal_event filled") (simp_all only: finish_chat_terminal_def option.case and_then.simps sum.case if_True progress.distinct simp_thms)
qed (simp add: finish_chat_terminal_def)

lemma read_chat_terminal_no_panic: "read_chat_terminal parse inputs items \<noteq> Panics"
  by (induction inputs arbitrary: items)
    (auto simp: finish_chat_terminal_no_panic split: chat_input.split sum.split SseRead.split option.split)

text \<open>What a way out has done to the store: one finalisation without usage, or the two of a terminal.\<close>

definition closed_by :: "'s finalizer \<Rightarrow> 's finalizer \<Rightarrow> open_request \<Rightarrow> 's \<Rightarrow> 's \<Rightarrow> bool" where
  "closed_by fin fin2 q st st' \<longleftrightarrow>
     (\<exists>status. st' = snd (fin (open_request_id q) status (Some 200) None st)) \<or>
     (\<exists>result status u. finish_terminal fin fin2 status 200 200 u (Open q) st = Some (result, Finalized, st'))"

lemma closed_by_terminal:
  "finish_terminal fin fin2 status 200 200 u (Open q) st = Some (result, Finalized, st') \<Longrightarrow> closed_by fin fin2 q st st'"
  by (auto simp: closed_by_def)

lemma chat_stop_open:
  assumes "cs_pending s = Open q"
  obtains st' where "chat_stop fin status s = Returned (s\<lparr>cs_pending := Finalized, cs_store := st'\<rparr>)"
    "closed_by fin fin2 q (cs_store s) st'"
proof (rule that)
  let ?st = "snd (fin (open_request_id q) status (Some 200) None (cs_store s))"
  show "chat_stop fin status s = Returned (s\<lparr>cs_pending := Finalized, cs_store := ?st\<rparr>)"
    using assms by (simp add: chat_stop_def finish_quietly_def finish_def split: prod.split)
  show "closed_by fin fin2 q (cs_store s) ?st" by (auto simp: closed_by_def)
qed

text \<open>
  How a streamed chat answer may end: with nothing but converted deltas sent, with the upstream's error
  after them, or, once status and usage are recorded, with the final chunks and the end marker.
\<close>

definition chat_closed ::
  "(json \<Rightarrow> string) \<Rightarrow> (nat \<Rightarrow> bool) \<Rightarrow> model_rates \<Rightarrow> 's finalizer \<Rightarrow> 's finalizer \<Rightarrow> open_request \<Rightarrow>
     's chat_state \<Rightarrow> 's chat_state \<Rightarrow> bool" where
  "chat_closed print down_ok rates fin fin2 q s s' \<longleftrightarrow>
     cs_pending s' = Finalized \<and> closed_by fin fin2 q (cs_store s) (cs_store s') \<and>
     (\<exists>deltas. let sent = cs_out s @ map (chat_sse_bytes print) deltas in
        cs_out s' = sent \<or>
        (\<exists>error. cs_out s' = send_all down_ok [chat_sse_bytes print (body (upstream error))] sent) \<or>
        (\<exists>terminal cv converted cv'. terminal_ok terminal \<and> upstream_error terminal = None \<and>
           convert_terminal cv terminal = (Inr converted, cv') \<and>
           finish_terminal fin fin2 (final_status_of_chat (cst_status converted)) 200 200
             (Some (to_billable_usage (cst_usage converted) rates)) (Open q) (cs_store s) =
             Some (Inr (), Finalized, cs_store s') \<and>
           cs_out s' = send_all down_ok (map (chat_sse_bytes print) (cst_chunks converted) @ [done_bytes]) sent))"

lemma chat_closed_now:
  assumes "cs_pending s' = Finalized" "cs_out s' = cs_out s" "closed_by fin fin2 q (cs_store s) (cs_store s')"
  shows "chat_closed print down_ok rates fin fin2 q s s'"
  unfolding chat_closed_def Let_def using assms by (intro conjI exI [of _ "[]"]) simp_all

lemma chat_closed_later:
  assumes "chat_closed print down_ok rates fin fin2 q s1 s'"
    and "cs_out s1 = cs_out s @ map (chat_sse_bytes print) sent" "cs_store s1 = cs_store s"
  shows "chat_closed print down_ok rates fin fin2 q s s'"
proof -
  from assms(1) obtain deltas where deltas: "cs_pending s' = Finalized" "closed_by fin fin2 q (cs_store s1) (cs_store s')"
      "let sent = cs_out s1 @ map (chat_sse_bytes print) deltas in
        cs_out s' = sent \<or>
        (\<exists>error. cs_out s' = send_all down_ok [chat_sse_bytes print (body (upstream error))] sent) \<or>
        (\<exists>terminal cv converted cv'. terminal_ok terminal \<and> upstream_error terminal = None \<and>
           convert_terminal cv terminal = (Inr converted, cv') \<and>
           finish_terminal fin fin2 (final_status_of_chat (cst_status converted)) 200 200
             (Some (to_billable_usage (cst_usage converted) rates)) (Open q) (cs_store s1) =
             Some (Inr (), Finalized, cs_store s') \<and>
           cs_out s' = send_all down_ok (map (chat_sse_bytes print) (cst_chunks converted) @ [done_bytes]) sent)"
    unfolding chat_closed_def by blast
  then show ?thesis
    unfolding chat_closed_def using assms(2,3)
    by (intro conjI, simp, simp, rule_tac x = "sent @ deltas" in exI) (simp only: map_append append_assoc)
qed

lemma settle_chat_open:
  assumes p: "cs_pending s = Open q" and ok: "terminal_ok terminal"
  shows "\<exists>s'. settle_chat print down_ok rates fin fin2 terminal s = Returned s' \<and>
    chat_closed print down_ok rates fin fin2 q s s'"
proof (cases "upstream_error terminal")
  case (Some error)
  obtain result st' where "finish_terminal fin fin2 UpstreamError 200 200
      (map_option (\<lambda>u. to_billable_usage u rates) (te_usage terminal)) (Open q) (cs_store s) =
      Some (result, Finalized, st')"
    by (rule finish_terminal_open)
  then show ?thesis using Some p
    by (auto simp: settle_chat_def Let_def chat_closed_def closed_by_terminal intro!: exI [of _ "[] :: json list"])
next
  case None
  obtain r cv where convert: "convert_terminal (cs_converter s) terminal = (r, cv)" by fastforce
  show ?thesis
  proof (cases r)
    case (Inl e)
    obtain result st' where "finish_terminal fin fin2 UpstreamError 200 200
        (map_option (\<lambda>u. to_billable_usage u rates) (te_usage terminal)) (Open q) (cs_store s) =
        Some (result, Finalized, st')"
      by (rule finish_terminal_open)
    then show ?thesis using None convert Inl p by (simp add: settle_chat_def Let_def chat_closed_now closed_by_terminal)
  next
    case (Inr converted)
    obtain result st' where fin: "finish_terminal fin fin2 (final_status_of_chat (cst_status converted)) 200 200
        (Some (to_billable_usage (cst_usage converted) rates)) (Open q) (cs_store s) =
        Some (result, Finalized, st')"
      by (rule finish_terminal_open)
    show ?thesis
    proof (cases result)
      case (Inl u)
      then show ?thesis using None convert Inr p fin by (simp add: settle_chat_def Let_def chat_closed_now closed_by_terminal)
    next
      case recorded: (Inr u)
      let ?s = "s\<lparr>cs_pending := Finalized, cs_store := st', cs_converter := cv,
        cs_out := send_all down_ok (map (chat_sse_bytes print) (cst_chunks converted) @ [done_bytes]) (cs_out s)\<rparr>"
      have "settle_chat print down_ok rates fin fin2 terminal s = Returned ?s"
        using None convert Inr recorded p fin by (simp add: settle_chat_def Let_def)
      moreover have "chat_closed print down_ok rates fin fin2 q s ?s"
        unfolding chat_closed_def Let_def using None convert Inr recorded fin ok
        by (intro conjI, simp, simp add: closed_by_terminal, rule_tac x = "[]" in exI, intro disjI2, rule_tac x = terminal in exI,
            rule_tac x = "cs_converter s" in exI, rule_tac x = converted in exI, rule_tac x = cv in exI) simp
      ultimately show ?thesis by blast
    qed
  qed
qed

text \<open>One record of the upstream: the stream stops, settles its terminal, or goes on.\<close>

lemma forward_chat_record:
  fixes r :: "'e + raw_event"
  assumes "cs_pending s = Open q"
  obtains (stopped) status s1 where
      "forward_chat_stream parse print down_ok rates fin fin2 (Chat_Record r # inputs) s = chat_stop fin status s1"
      "cs_pending s1 = Open q" "cs_out s1 = cs_out s" "cs_store s1 = cs_store s"
    | (settled) terminal where "terminal_ok terminal"
      "forward_chat_stream parse print down_ok rates fin fin2 (Chat_Record r # inputs) s =
         settle_chat print down_ok rates fin fin2 terminal s"
    | (goes_on) s1 sent where
      "forward_chat_stream parse print down_ok rates fin fin2 (Chat_Record r # inputs) s =
         forward_chat_stream parse print down_ok rates fin fin2 inputs s1"
      "cs_pending s1 = Open q" "cs_out s1 = cs_out s @ map (chat_sse_bytes print) sent" "cs_store s1 = cs_store s"
proof (cases "fst (sse_next parse [r])")
  case (Inl e)
  then show ?thesis by (intro stopped [of UpstreamError s]) (simp_all add: assms)
next
  case (Inr x)
  note read = this
  show ?thesis
  proof (cases x)
    case SseEof
    then show ?thesis using read by (intro stopped [of UpstreamError s]) (simp_all add: assms)
  next
    case (SseEvent event)
    show ?thesis
    proof (cases "sse_terminal event")
      case (Some terminal)
      have "terminal_ok terminal"
        using read SseEvent Some sse_next_terminal_ok [of parse "[r]"] by (cases "sse_next parse [r]") auto
      then show ?thesis using read SseEvent Some by (intro settled) simp_all
    next
      case None
      note event = read SseEvent None
      show ?thesis
      proof (cases "parse (sse_data event)")
        case None
        then show ?thesis using event by (intro goes_on [of s "[]"]) (simp_all add: assms)
      next
        case (Some v)
        obtain c cv where convert: "convert_event (cs_converter s) v = (c, cv)" by fastforce
        consider e where "c = Inl e" | "c = Inr None" | j where "c = Inr (Some j)" "down_ok (length (cs_out s))"
          | j where "c = Inr (Some j)" "\<not> down_ok (length (cs_out s))"
          by (metis option.exhaust sum.exhaust)
        then show ?thesis
        proof cases
          case 1
          then show ?thesis using event Some convert
            by (intro stopped [of UpstreamError "s\<lparr>cs_converter := cv\<rparr>"]) (simp_all add: assms)
        next
          case 2
          then show ?thesis using event Some convert
            by (intro goes_on [of "s\<lparr>cs_converter := cv\<rparr>" "[]"]) (simp_all add: assms)
        next
          case (3 j)
          then show ?thesis using event Some convert
            by (intro goes_on [of "s\<lparr>cs_converter := cv, cs_out := cs_out s @ [chat_sse_bytes print j]\<rparr>" "[j]"])
              (simp_all add: assms)
        next
          case (4 j)
          then show ?thesis using event Some convert
            by (intro stopped [of Canceled "s\<lparr>cs_converter := cv\<rparr>"]) (simp_all add: assms)
        qed
      qed
    qed
  qed
qed

lemma forward_chat_sound:
  assumes "cs_pending s = Open q"
  shows "case forward_chat_stream parse print down_ok rates fin fin2 inputs s of
      Waiting \<Rightarrow> True
    | Panics \<Rightarrow> False
    | Returned s' \<Rightarrow> chat_closed print down_ok rates fin fin2 q s s'"
  using assms
proof (induction inputs arbitrary: s)
  case (Cons i inputs)
  let ?forward = "forward_chat_stream parse print down_ok rates fin fin2"
  have stop: "case ?forward (i # inputs) s of
      Waiting \<Rightarrow> True | Panics \<Rightarrow> False | Returned s' \<Rightarrow> chat_closed print down_ok rates fin fin2 q s s'"
    if up: "?forward (i # inputs) s = chat_stop fin status s1" "cs_pending s1 = Open q" "cs_out s1 = cs_out s"
      "cs_store s1 = cs_store s" for status s1
  proof -
    obtain st' where "chat_stop fin status s1 = Returned (s1\<lparr>cs_pending := Finalized, cs_store := st'\<rparr>)"
      "closed_by fin fin2 q (cs_store s1) st'"
      using chat_stop_open [OF up(2)] by blast
    then show ?thesis using up(1,3,4) by (simp add: chat_closed_now)
  qed
  show ?case
  proof (cases i)
    case (Chat_Record r)
    from Cons.prems show ?thesis
    proof (cases rule: forward_chat_record [where parse = parse and print = print and down_ok = down_ok and
        rates = rates and fin = fin and ?fin2.0 = fin2 and r = r and inputs = inputs])
      case (stopped status s1)
      then show ?thesis by (intro stop [of status s1]) (simp_all only: Chat_Record)
    next
      case (settled terminal)
      from settle_chat_open [OF Cons.prems settled(1), of print down_ok rates fin fin2] settled(2) show ?thesis
        by (auto simp: Chat_Record simp del: forward_chat_stream.simps)
    next
      case (goes_on s1 sent)
      with Cons.IH [OF goes_on(2)] show ?thesis
        by (auto simp: Chat_Record simp del: forward_chat_stream.simps intro: chat_closed_later split: progress.splits)
    qed
  next
    case Chat_Eof
    then show ?thesis by (intro stop [of UpstreamError s]) (simp_all add: Cons.prems)
  qed (rule stop [of Canceled s]; simp add: Cons.prems)+
qed simp


definition demo_chat :: "unit chat_state" where
  "demo_chat = \<lparr>cs_converter = converter_new False, cs_out = [], cs_pending = pending_new (RequestId 1), cs_store = ()\<rparr>"


section \<open>The loops close their rows\<close>

context finalizer
begin

lemma finish_quietly_closes:
  assumes "ok st" "reliable k" "opt_all (\<lambda>n. 100 \<le> n \<and> n \<le> 599) h"
    and "finish_quietly (fins k) status h (Open q) st = Returned (p, st')"
  shows "ok st' \<and> \<not> started st' (open_request_id q) \<and> p = Finalized"
proof -
  from assms(4) have "st' = snd (fins k (open_request_id q) status h None st)" "p = Finalized"
    by (auto simp: finish_quietly_def finish_def split: prod.splits)
  then show ?thesis using fin_effect(1) [OF assms(1)] reliable_fin_closes [OF assms(1-3)] by simp
qed

lemma closed_by_closes:
  assumes "ok st" "reliable k" "reliable j" "closed_by (fins k) (fins j) q st st'"
  shows "ok st' \<and> \<not> started st' (open_request_id q)"
  using assms(4) fin_effect(1) [OF assms(1)] reliable_fin_closes [OF assms(1,2), of "Some 200"]
    terminal_closes [OF assms(1,3), of 200]
  by (auto simp: closed_by_def)

lemma give_up_closes:
  assumes "ok (ts_store s)" "reliable k" "ts_pending s = Open q" "give_up (fins k) status s = Returned (r, s')"
  shows "ok (ts_store s') \<and> \<not> started (ts_store s') (open_request_id q)"
  using assms(4) finish_quietly_closes [OF assms(1,2), of "Some 200"]
  by (auto simp: give_up_def assms(3) and_then_Returned_iff)

lemma settle_terminal_closes:
  assumes "ok (ts_store s)" "reliable j" "ts_pending s = Open q"
    and "settle_terminal print rates (fins k) (fins j) name t ev rewritten s = Returned (r, s')"
  shows "ok (ts_store s') \<and> \<not> started (ts_store s') (open_request_id q)"
  using assms(4) terminal_closes [OF assms(1,2), of 200]
  by (auto simp: settle_terminal_def assms(3) and_then_Returned_iff or_panic_def split: option.splits)

lemma forward_closes:
  assumes "ok (ts_store s)" "reliable k" "reliable j" "ts_pending s = Open q"
    and "forward_websocket_responses_stream parse print http_date_ok down_ok rates (fins k) (fins j) inputs s =
      Returned (r, s')"
  shows "ok (ts_store s') \<and> \<not> started (ts_store s') (open_request_id q)"
  using assms(1,4,5)
proof (induction inputs arbitrary: s)
  case (Cons i inputs)
  show ?case
  proof (cases rule: forward_step_cases
      [of parse print http_date_ok down_ok rates i inputs s, case_names gave_up went_on settled])
    case (gave_up status s1)
    with Cons.prems give_up_closes [OF _ assms(2), of s1 q status r s'] show ?thesis by simp
  next
    case (went_on s1)
    with Cons.prems Cons.IH [of s1] show ?thesis by simp
  next
    case (settled t name event ev rw)
    with Cons.prems settle_terminal_closes
      [OF _ assms(3), of "s\<lparr>ts_items := note_output_item name event (ts_items s)\<rparr>" q print rates k name t ev rw r s']
    show ?thesis by simp
  qed
qed simp

end

end
