(* ===== verification/Session_Actor.thy ===== *)
theory Session_Actor
  imports Session_Cache Responses_Stream
begin

text \<open>
  The actor of one HTTP Responses session (\<open>src/http_api/responses_session.rs\<close>): how a turn is prepared
  on its upstream connection, answered and remembered, and what the actor does between turns. The
  connection is opened by the argument \<open>connect\<close> (\<open>connect_upstream_websocket\<close> with its environment),
  \<open>utf8\<close> is \<open>std::str::from_utf8\<close>. The arm a \<open>select!\<close> takes is an argument.
\<close>

section \<open>State\<close>

record turn =
  tn_body :: json
  tn_model :: json
  tn_headers :: header_map
  tn_rates :: model_rates

record snapshot =
  sn_response_id :: string
  sn_input :: "json list"
  sn_parameters :: json

record actor =
  ac_key :: "session_key option"
  ac_id :: u64
  ac_request_key :: string
  ac_upstream :: "upstream_socket option"
  ac_handshake_headers :: header_map
  ac_upstream_response_id :: "string option"
  ac_snapshot :: "snapshot option"
  ac_bytes :: nat

definition actor_new :: "session_key option \<Rightarrow> u64 \<Rightarrow> string \<Rightarrow> actor" where
  "actor_new key i request_key =
     \<lparr>ac_key = key, ac_id = i, ac_request_key = request_key, ac_upstream = None, ac_handshake_headers = [],
      ac_upstream_response_id = None, ac_snapshot = None, ac_bytes = 0\<rparr>"

definition IDLE_TTL :: nat where
  "IDLE_TTL = 10 * 60"

section \<open>Preparing a turn\<close>

definition previous_id_of :: "json \<Rightarrow> api_error + string option" where
  "previous_id_of b =
     (case jget b ''previous_response_id'' of
        None \<Rightarrow> Inr None
      | Some JNull \<Rightarrow> Inr None
      | Some (JStr i) \<Rightarrow>
          if i \<noteq> [] then Inr (Some i)
          else Inl (invalid ''previous_response_id'' ''previous_response_id must be a nonempty string or null'')
      | Some _ \<Rightarrow> Inl (invalid ''previous_response_id'' ''previous_response_id must be a nonempty string or null''))"

definition input_of :: "json \<Rightarrow> api_error + json list" where
  "input_of b =
     (case jget b ''input'' of
        None \<Rightarrow> Inr []
      | Some (JArr items) \<Rightarrow> Inr items
      | Some _ \<Rightarrow> Inl (invalid ''input'' ''input must be a string or an array''))"

text \<open>The whole history of the conversation: the cached one before the new items, when the client
  continues the latest cached response.\<close>

definition full_input :: "actor \<Rightarrow> json \<Rightarrow> api_error + json list" where
  "full_input s b =
     res_bind (previous_id_of b) (\<lambda>previous_id.
     res_bind (input_of b) (\<lambda>input.
     case previous_id of
       None \<Rightarrow> Inr input
     | Some i \<Rightarrow>
         if ac_key s = None
         then Inl (invalid ''previous_response_id''
           ''Provide thread_id or session_id and resend the full history to start a session'')
         else
           res_bind (ok_or (invalid ''previous_response_id'' ''The response is not the latest cached response in this session; resend the full history without previous_response_id'')
             (opt_filter (\<lambda>sn. sn_response_id sn = i) (ac_snapshot s))) (\<lambda>sn.
           Inr (sn_input sn @ input))))"

definition metadata_headers :: "string list" where
  "metadata_headers =
     [''session_id'', ''thread_id'', ''x-codex-turn-state'', ''x-codex-turn-metadata'', ''x-codex-window-id'',
      ''x-codex-parent-thread-id'', ''x-openai-subagent'', ''x-openai-memgen-request'', ''x-client-request-id'']"

text \<open>The loop over the headers: each becomes metadata, and all but the session ones leave the handshake.\<close>

fun move_metadata ::
  "(string \<Rightarrow> string option) \<Rightarrow> string list \<Rightarrow> header_map \<Rightarrow> jobject \<Rightarrow> api_error + header_map \<times> jobject" where
  "move_metadata utf8 [] headers m = Inr (headers, m)"
| "move_metadata utf8 (name # names) headers m =
     (case header_get headers name of
        None \<Rightarrow> move_metadata utf8 names headers m
      | Some raw \<Rightarrow>
          res_bind (ok_or (invalid name ''request metadata must be text'') (utf8 raw)) (\<lambda>value.
          move_metadata utf8 names
            (if name \<in> {''session_id'', ''thread_id''} then headers else header_remove name headers)
            (bmap_insert name (JStr value) m)))"

text \<open>The body without \<open>previous_response_id\<close> and with its metadata, and the handshake's headers.\<close>

definition prepare_body ::
  "(string \<Rightarrow> string option) \<Rightarrow> (string \<Rightarrow> string option) \<Rightarrow> header_map \<Rightarrow> jobject \<Rightarrow>
     api_error + jobject \<times> header_map" where
  "prepare_body from_str utf8 downstream_headers m =
     (let m = bmap_remove ''previous_response_id'' m;
          headers = codex_request_headers from_str downstream_headers (JObj m);
          m = bmap_entry_or ''client_metadata'' (JObj []) m
      in
        res_bind (ok_or (invalid ''client_metadata'' ''client_metadata must be an object'')
          (opt_bind (map_of m ''client_metadata'') as_object)) (\<lambda>metadata.
        res_bind (move_metadata utf8 metadata_headers headers metadata) (\<lambda>(headers, metadata).
        Inr (bmap_insert ''client_metadata'' (JObj metadata) m, headers))))"

definition same_headers :: "header_map \<Rightarrow> header_map \<Rightarrow> bool" where
  "same_headers h j = list_all (\<lambda>name. get_all h name = get_all j name) (map fst (h @ j))"

text \<open>The connection: kept when the handshake would be the same, opened otherwise.\<close>

definition connect_session ::
  "(header_map \<Rightarrow> (UpstreamWebSocketError + upstream_socket) option) \<Rightarrow> header_map \<Rightarrow> actor \<Rightarrow>
     ((api_error + unit) \<times> actor) progress" where
  "connect_session connect headers s =
     (if ac_upstream s \<noteq> None \<and> same_headers (ac_handshake_headers s) headers then Returned (Inr (), s)
      else
        (case connect headers of
           None \<Rightarrow> Panics
         | Some (Inl _) \<Rightarrow> Returned (Inl (gateway ''Failed to connect to the upstream WebSocket''), s)
         | Some (Inr k) \<Rightarrow>
             Returned (Inr (),
               s\<lparr>ac_upstream := Some k, ac_handshake_headers := headers, ac_upstream_response_id := None\<rparr>)))"

definition reusable_context :: "json \<Rightarrow> json list \<Rightarrow> actor \<Rightarrow> snapshot option" where
  "reusable_context parameters input s =
     opt_filter (\<lambda>sn. ac_upstream_response_id s = Some (sn_response_id sn) \<and> sn_parameters sn = parameters \<and>
         take (length (sn_input sn)) input = sn_input sn)
       (ac_snapshot s)"

text \<open>The turn on an open connection: on top of the remembered context, or after a new warm-up.\<close>

definition continue_context ::
  "(string \<Rightarrow> json option) \<Rightarrow> (json \<Rightarrow> string) \<Rightarrow> jobject \<Rightarrow> jobject \<Rightarrow> json \<Rightarrow> json list \<Rightarrow> upstream_socket \<Rightarrow>
     actor \<Rightarrow> ((api_error + jobject) \<times> actor) progress" where
  "continue_context parse print prewarm m parameters input k s =
     (case reusable_context parameters input s of
        Some sn \<Rightarrow>
          Returned
            (Inr (bmap_insert ''input'' (JArr (drop (length (sn_input sn)) input))
                   (bmap_insert ''previous_response_id'' (JStr (sn_response_id sn)) m)), s)
      | None \<Rightarrow>
          (let s = s\<lparr>ac_upstream_response_id := None\<rparr> in
           case send_responses_prewarm parse print (JObj (bmap_remove ''previous_response_id'' prewarm)) k of
             None \<Rightarrow> Waiting
           | Some (Inl _, k') \<Rightarrow>
               Returned (Inl (gateway ''Failed to prepare the upstream Responses session''), s\<lparr>ac_upstream := Some k'\<rparr>)
           | Some (Inr i, k') \<Rightarrow>
               Returned
                 (Inr (bmap_insert ''input'' (JArr input) (bmap_insert ''previous_response_id'' (JStr i) m)),
                  s\<lparr>ac_upstream := Some k'\<rparr>)))"

definition send_turn ::
  "(json \<Rightarrow> string) \<Rightarrow> jobject \<Rightarrow> actor \<Rightarrow> ((api_error + unit) \<times> actor) progress" where
  "send_turn print m s =
     (case ac_upstream s of
        None \<Rightarrow> Panics
      | Some k \<Rightarrow>
          (case socket_send (UM_Text (print (JObj m))) k of
             (ok, k') \<Rightarrow>
               Returned (if ok then Inr () else Inl (gateway ''Failed to send the upstream WebSocket request''),
                 s\<lparr>ac_upstream := Some k'\<rparr>)))"

definition session_parameters :: "jobject \<Rightarrow> json \<Rightarrow> json" where
  "session_parameters m prewarm =
     JArr [JObj (bmap_remove ''client_metadata'' (bmap_remove ''input'' m)), jindex prewarm ''input'']"

text \<open>The part of \<open>prepare\<close> that needs the connection; it answers with the body that was sent.\<close>

definition exchange ::
  "(string \<Rightarrow> json option) \<Rightarrow> (json \<Rightarrow> string) \<Rightarrow>
     (header_map \<Rightarrow> (UpstreamWebSocketError + upstream_socket) option) \<Rightarrow> header_map \<Rightarrow> jobject \<Rightarrow> jobject \<Rightarrow>
     json \<Rightarrow> json list \<Rightarrow> actor \<Rightarrow> ((api_error + jobject) \<times> actor) progress" where
  "exchange parse print connect headers w m parameters input s =
     and_then (connect_session connect headers s) (\<lambda>(opened, s1).
     case (opened, ac_upstream s1) of
       (Inl e, _) \<Rightarrow> Returned (Inl e, s1)
     | (Inr _, None) \<Rightarrow> Panics
     | (Inr _, Some k) \<Rightarrow>
         and_then (continue_context parse print w m parameters input k s1) (\<lambda>(r, s2).
         case r of
           Inl e \<Rightarrow> Returned (Inl e, s2)
         | Inr m' \<Rightarrow>
             and_then (send_turn print m' s2) (\<lambda>(sent, s3). Returned (res_bind sent (\<lambda>_. Inr m'), s3))))"

text \<open>
  \<open>prepare\<close>: the history and the parameters, with the body that was sent; the panics are the
  \<open>expect\<close>s on the normalised body, on the warm-up and on the connection.
\<close>

definition prepare ::
  "(string \<Rightarrow> json option) \<Rightarrow> (json \<Rightarrow> string) \<Rightarrow> (string \<Rightarrow> string option) \<Rightarrow> (string \<Rightarrow> string option) \<Rightarrow>
     (header_map \<Rightarrow> (UpstreamWebSocketError + upstream_socket) option) \<Rightarrow> turn \<Rightarrow> actor \<Rightarrow>
     ((api_error + json list \<times> json \<times> jobject) \<times> actor) progress" where
  "prepare parse print from_str utf8 connect t s =
     (case full_input s (tn_body t) of
        Inl e \<Rightarrow> Returned (Inl e, s)
      | Inr input \<Rightarrow>
          (case as_object (tn_body t) of
             None \<Rightarrow> Panics
           | Some m0 \<Rightarrow>
               (case prepare_body from_str utf8 (tn_headers t) m0 of
                  Inl e \<Rightarrow> Returned (Inl e, s)
                | Inr (m1, headers) \<Rightarrow>
                    (case responses_lite_prewarm (JObj m1) (tn_model t) (ac_request_key s) of
                       Inl _ \<Rightarrow> Returned (Inl (gateway ''Failed to prepare the upstream Responses session''), s)
                     | Inr (prewarm, request) \<Rightarrow>
                         (case (as_object prewarm, as_object request) of
                            (Some w, Some m) \<Rightarrow>
                              (let parameters = session_parameters m prewarm in
                               and_then (exchange parse print connect headers w m parameters input s) (\<lambda>(r, s').
                               Returned (res_bind r (\<lambda>m'. Inr (input, parameters, m')), s')))
                          | _ \<Rightarrow> Panics)))))"

section \<open>Answering a turn\<close>

datatype prepare_arm = Prepare_Shutdown "header_map \<times> bool" | Prepare_Abandoned "header_map \<times> bool" | Prepare_Done

datatype turn_end = End_Error api_error | End_Terminal string | End_Canceled

definition drop_connection :: "actor \<Rightarrow> actor" where
  "drop_connection s = s\<lparr>ac_upstream := None\<rparr>"

text \<open>
  A \<open>prepare\<close> that is dropped half way has opened no connection, or one under new headers with the
  response id forgotten; the connection is dropped in every case.
\<close>

definition abandon :: "header_map \<times> bool \<Rightarrow> actor \<Rightarrow> actor" where
  "abandon x s =
     (case x of (headers, opened) \<Rightarrow>
        drop_connection
          (if opened then s\<lparr>ac_handshake_headers := headers, ac_upstream_response_id := None\<rparr> else s))"

definition error_status :: "bool \<Rightarrow> api_error \<Rightarrow> FinalStatus" where
  "error_status shutdown_cancelled e =
     (if err_status e = 400 then Rejected else if shutdown_cancelled then Canceled else UpstreamError)"

definition fail_turn ::
  "'s finalizer \<Rightarrow> bool \<Rightarrow> api_error \<Rightarrow> actor \<Rightarrow> pending_state \<Rightarrow> 's \<Rightarrow>
     (turn_end \<times> actor \<times> pending_state \<times> 's) progress" where
  "fail_turn fin shutdown_cancelled e s p st =
     and_then (finish_quietly fin (error_status shutdown_cancelled e) (Some (int (err_status e))) p st) (\<lambda>(p', st').
     Returned (End_Error e, if err_status e = 400 then s else drop_connection s, p', st'))"

definition remember ::
  "(json \<Rightarrow> string) \<Rightarrow> terminal_event \<Rightarrow> json list \<Rightarrow> json \<Rightarrow> actor \<Rightarrow> actor" where
  "remember print terminal input parameters s =
     (case (opt_filter (\<lambda>i. i \<noteq> []) (opt_bind (jpointer (te_payload terminal) [''response'', ''id'']) as_str),
            opt_bind (jpointer (te_payload terminal) [''response'', ''output'']) as_array) of
        (Some i, Some output) \<Rightarrow>
          if ac_key s \<noteq> None \<and> te_kind terminal = TK_Completed
          then
            (let input = input @ output in
             s\<lparr>ac_bytes := length (print (jobj [(''response_id'', JStr i), (''input'', JArr input),
                 (''parameters'', parameters)])),
               ac_upstream_response_id := Some i,
               ac_snapshot := Some \<lparr>sn_response_id = i, sn_input = input, sn_parameters = parameters\<rparr>\<rparr>)
          else drop_connection s
      | _ \<Rightarrow> drop_connection s)"

text \<open>
  The answer, once the turn is sent: \<open>reply_ok\<close> says whether the caller still waits, \<open>permitted\<close>
  whether the terminal's slot was had. A stream still waiting when its inputs run out is the one the
  outer \<open>select!\<close> interrupts.
\<close>

definition answer_turn ::
  "(string \<Rightarrow> json option) \<Rightarrow> (json \<Rightarrow> string) \<Rightarrow> (string \<Rightarrow> bool) \<Rightarrow> (nat \<Rightarrow> bool) \<Rightarrow> bool \<Rightarrow> bool \<Rightarrow>
     's finalizer \<Rightarrow> 's finalizer \<Rightarrow> turn_input list \<Rightarrow> model_rates \<Rightarrow> json list \<Rightarrow> json \<Rightarrow> actor \<Rightarrow>
     pending_state \<Rightarrow> 's \<Rightarrow> (turn_end \<times> actor \<times> pending_state \<times> 's) progress" where
  "answer_turn parse print http_date_ok down_ok reply_ok permitted fin fin2 inputs rates input parameters s p st =
     and_then (or_panic (response_started 200 p)) (\<lambda>p.
     if \<not> reply_ok then Returned (End_Canceled, drop_connection s, p, st)
     else
       (case ac_upstream s of
          None \<Rightarrow> Panics
        | Some k \<Rightarrow>
            (case forward_websocket_responses_stream parse print http_date_ok down_ok rates fin fin2 inputs
                    \<lparr>ts_items = [], ts_socket = k, ts_out = [], ts_pending = p, ts_store = st\<rparr> of
               Waiting \<Rightarrow> Returned (End_Canceled, drop_connection s, p, st)
             | Panics \<Rightarrow> Panics
             | Returned (None, ts) \<Rightarrow> Returned (End_Canceled, drop_connection s, ts_pending ts, ts_store ts)
             | Returned (Some (terminal, bytes), ts) \<Rightarrow>
                 (if permitted
                  then Returned (End_Terminal bytes,
                    remember print terminal input parameters (s\<lparr>ac_upstream := Some (ts_socket ts)\<rparr>),
                    ts_pending ts, ts_store ts)
                  else Returned (End_Canceled, drop_connection s, ts_pending ts, ts_store ts)))))"

text \<open>\<open>respond\<close>; the guard is dropped with the turn at its end.\<close>

definition respond ::
  "(string \<Rightarrow> json option) \<Rightarrow> (json \<Rightarrow> string) \<Rightarrow> (string \<Rightarrow> bool) \<Rightarrow> (string \<Rightarrow> string option) \<Rightarrow>
     (string \<Rightarrow> string option) \<Rightarrow> (header_map \<Rightarrow> (UpstreamWebSocketError + upstream_socket) option) \<Rightarrow>
     (nat \<Rightarrow> bool) \<Rightarrow> bool \<Rightarrow> bool \<Rightarrow> bool \<Rightarrow> 's finalizer \<Rightarrow> 's finalizer \<Rightarrow> 's finalizer \<Rightarrow> prepare_arm \<Rightarrow>
     turn_input list \<Rightarrow> turn \<Rightarrow> actor \<Rightarrow> pending_state \<Rightarrow> 's \<Rightarrow> (turn_end \<times> actor \<times> 's) progress" where
  "respond parse print http_date_ok from_str utf8 connect down_ok shutdown_cancelled reply_ok permitted
     fin fin2 drop_fin arm inputs t s p st =
     and_then
       (case arm of
          Prepare_Shutdown x \<Rightarrow> fail_turn fin True shutdown (abandon x s) p st
        | Prepare_Abandoned x \<Rightarrow> Returned (End_Canceled, abandon x s, p, st)
        | Prepare_Done \<Rightarrow>
            and_then (prepare parse print from_str utf8 connect t s) (\<lambda>(prepared, s').
            case prepared of
              Inl e \<Rightarrow> fail_turn fin shutdown_cancelled e s' p st
            | Inr (input, parameters, sent) \<Rightarrow>
                answer_turn parse print http_date_ok down_ok reply_ok permitted fin fin2 inputs (tn_rates t)
                  input parameters s' p st))
       (\<lambda>(ended, s', p', st'). Returned (ended, s', pending_drop drop_fin p' st'))"

section \<open>Between turns\<close>

definition idle_message :: "(string \<Rightarrow> json option) \<Rightarrow> upstream_item \<Rightarrow> actor \<Rightarrow> actor" where
  "idle_message parse item s =
     (case ac_upstream s of
        None \<Rightarrow> s
      | Some k \<Rightarrow>
          (case item of
             Received (UM_Ping payload) \<Rightarrow>
               (case socket_send (UM_Pong payload) k of
                  (ok, k') \<Rightarrow> s\<lparr>ac_upstream := (if ok then Some k' else None)\<rparr>)
           | Received (UM_Pong _) \<Rightarrow> s
           | Received (UM_Text t) \<Rightarrow>
               (if opt_bind (parse t) (\<lambda>event. Some (jindex event ''type'')) = Some (JStr ''rate_limits.updated'')
                then s else drop_connection s)
           | _ \<Rightarrow> drop_connection s))"

text \<open>
  \<open>run\<close>: the events its \<open>select!\<close> takes. A job is answered and its session released before the client
  sees the end; the actor stops on shutdown, when no sender is left, and when it was idle for too long
  and its entry could be removed.
\<close>

datatype actor_event =
    Ev_Shutdown
  | Ev_Upstream upstream_item
  | Ev_Pong_Interrupted
  | Ev_No_Sender
  | Ev_Idle

definition release_session :: "nat \<Rightarrow> actor \<Rightarrow> cache \<Rightarrow> cache" where
  "release_session now s c = (case ac_key s of None \<Rightarrow> c | Some key \<Rightarrow> ready key (ac_id s) (ac_bytes s) now c)"

definition leave_cache :: "actor \<Rightarrow> cache \<Rightarrow> cache" where
  "leave_cache s c = (case ac_key s of None \<Rightarrow> c | Some key \<Rightarrow> actor_exit key (ac_id s) c)"

definition run_event ::
  "(string \<Rightarrow> json option) \<Rightarrow> actor_event \<Rightarrow> actor \<Rightarrow> cache \<Rightarrow> actor option \<times> cache" where
  "run_event parse ev s c =
     (case ev of
        Ev_Shutdown \<Rightarrow> (None, leave_cache s c)
      | Ev_Pong_Interrupted \<Rightarrow> (None, leave_cache s c)
      | Ev_No_Sender \<Rightarrow> (None, leave_cache s c)
      | Ev_Upstream item \<Rightarrow> (Some (idle_message parse item s), c)
      | Ev_Idle \<Rightarrow>
          (case ac_key s of
             None \<Rightarrow> (None, c)
           | Some key \<Rightarrow>
               (case remove_idle key (ac_id s) c of
                  (True, c') \<Rightarrow> (None, leave_cache s c')
                | (False, c') \<Rightarrow> (Some s, c'))))"

definition run_job ::
  "nat \<Rightarrow> (turn_end \<times> actor \<times> 's) progress \<Rightarrow> cache \<Rightarrow> (turn_end \<times> actor \<times> 's \<times> cache) progress" where
  "run_job now responded c =
     and_then responded (\<lambda>(ended, s, st). Returned (ended, s, st, release_session now s c))"

text \<open>
  \<open>stream\<close>: the turn is given to its actor, or refused because the session is busy or the actor gone;
  \<open>delivered\<close> says whether \<open>try_send\<close> succeeded. The caller then waits for the actor's answer.
\<close>

definition stream_turn ::
  "'s finalizer \<Rightarrow> nat \<Rightarrow> bool \<Rightarrow> session_key option \<Rightarrow> cache \<Rightarrow> pending_state \<Rightarrow> 's \<Rightarrow>
     ((api_error + target) \<times> cache \<times> pending_state \<times> 's) progress" where
  "stream_turn fin now delivered key c p st =
     (case acquire key now c of
        (Inl error, c') \<Rightarrow>
          and_then (or_panic (finish fin Rejected (Some (int (err_status error))) None p st)) (\<lambda>(r, p', st').
          Returned (res_bind r (\<lambda>_. Inl error), c', p', st'))
      | (Inr t, c') \<Rightarrow>
          if delivered then Returned (Inr t, c', p, st)
          else
            and_then (or_panic (finish fin Canceled (Some 503) None p st)) (\<lambda>(r, p', st').
            Returned (res_bind r (\<lambda>_. Inl shutdown), c', p', st')))"

section \<open>The upstream sees the whole conversation\<close>

text \<open>
  What the upstream holds for a response id on the current connection: the items its context consists
  of. A warm-up starts a context with its own input; a turn that continues \<open>prev\<close> with \<open>items\<close> and is
  answered with \<open>output\<close> has the context of \<open>prev\<close>, then \<open>items\<close>, then \<open>output\<close>.
\<close>

type_synonym contexts = "string \<rightharpoonup> json list"

definition warm_items :: "json \<Rightarrow> json list" where
  "warm_items parameters = (case parameters of JArr [_, JArr w] \<Rightarrow> w | _ \<Rightarrow> [])"

definition context_ok :: "contexts \<Rightarrow> actor \<Rightarrow> bool" where
  "context_ok ctx s \<longleftrightarrow>
     (\<forall>sn. ac_upstream s \<noteq> None \<longrightarrow> ac_snapshot s = Some sn \<longrightarrow>
        ac_upstream_response_id s = Some (sn_response_id sn) \<longrightarrow>
        ctx (sn_response_id sn) = Some (warm_items (sn_parameters sn) @ sn_input sn))"

lemma exchange_Inr:
  assumes "exchange parse print connect headers w m parameters input s = Returned (Inr m', s')"
  obtains s1 k s2 where "connect_session connect headers s = Returned (Inr (), s1)" "ac_upstream s1 = Some k"
    "continue_context parse print w m parameters input k s1 = Returned (Inr m', s2)"
    "send_turn print m' s2 = Returned (Inr (), s')"
proof -
  from assms obtain opened s1 where s1: "connect_session connect headers s = Returned (opened, s1)"
    and rest: "(case (opened, ac_upstream s1) of
       (Inl e, _) \<Rightarrow> Returned (Inl e, s1)
     | (Inr _, None) \<Rightarrow> Panics
     | (Inr _, Some k) \<Rightarrow>
         and_then (continue_context parse print w m parameters input k s1) (\<lambda>(r, s2).
         case r of
           Inl e \<Rightarrow> Returned (Inl e, s2)
         | Inr m' \<Rightarrow>
             and_then (send_turn print m' s2) (\<lambda>(sent, s3). Returned (res_bind sent (\<lambda>_. Inr m'), s3)))) =
        Returned (Inr m', s')"
    by (auto simp: exchange_def and_then_Returned_iff)
  from rest obtain k where k: "opened = Inr ()" "ac_upstream s1 = Some k"
    by (cases opened; cases "ac_upstream s1") auto
  with rest obtain r s2 where s2: "continue_context parse print w m parameters input k s1 = Returned (r, s2)"
    and last: "(case r of
           Inl e \<Rightarrow> Returned (Inl e, s2)
         | Inr m' \<Rightarrow>
             and_then (send_turn print m' s2) (\<lambda>(sent, s3). Returned (res_bind sent (\<lambda>_. Inr m'), s3))) =
        Returned (Inr m', s')"
    by (auto simp: and_then_Returned_iff)
  show ?thesis
  proof (cases r)
    case (Inl e)
    with last show ?thesis by simp
  next
    case (Inr m2)
    with last have "m2 = m'" "send_turn print m2 s2 = Returned (Inr (), s')"
      by (auto simp: and_then_Returned_iff result_simps)
    with s1 k s2 Inr that show ?thesis by blast
  qed
qed

lemma prepare_cases:
  assumes "prepare parse print from_str utf8 connect t s = Returned (r, s')"
  obtains (refused) e where "r = Inl e" "s' = s"
    | (exchanged) input m0 m1 headers prewarm request w m x where "full_input s (tn_body t) = Inr input"
      "tn_body t = JObj m0" "prepare_body from_str utf8 (tn_headers t) m0 = Inr (m1, headers)"
      "responses_lite_prewarm (JObj m1) (tn_model t) (ac_request_key s) = Inr (prewarm, request)"
      "prewarm = JObj w" "request = JObj m"
      "exchange parse print connect headers w m (session_parameters m prewarm) input s = Returned (x, s')"
      "r = res_bind x (\<lambda>m'. Inr (input, session_parameters m prewarm, m'))"
  using assms
  by (auto simp: prepare_def Let_def and_then_Returned_iff split: sum.splits option.splits)

lemma prepare_Inr:
  assumes "prepare parse print from_str utf8 connect t s = Returned (Inr (input, parameters, m'), s')"
  obtains m0 m1 headers prewarm request w m s1 k s2 where "full_input s (tn_body t) = Inr input" "tn_body t = JObj m0"
    "prepare_body from_str utf8 (tn_headers t) m0 = Inr (m1, headers)"
    "responses_lite_prewarm (JObj m1) (tn_model t) (ac_request_key s) = Inr (prewarm, request)"
    "prewarm = JObj w" "request = JObj m" "parameters = session_parameters m prewarm"
    "connect_session connect headers s = Returned (Inr (), s1)" "ac_upstream s1 = Some k"
    "continue_context parse print w m parameters input k s1 = Returned (Inr m', s2)"
    "send_turn print m' s2 = Returned (Inr (), s')"
  using assms
proof (cases rule: prepare_cases)
  case (exchanged input' m0 m1 headers prewarm request w m x)
  then have x: "x = Inr m'" "input' = input" "parameters = session_parameters m prewarm"
    by (auto simp: res_bind_Inr_iff dest!: sym [of "Inr _" "res_bind _ _"])
  with exchanged(7) have "exchange parse print connect headers w m parameters input s = Returned (Inr m', s')"
    by simp
  then show ?thesis
    by (rule exchange_Inr) (use that exchanged x in blast)
qed simp

lemma prepare_body_previous:
  assumes "prepare_body from_str utf8 h m0 = Inr (m1, headers)"
  shows "map_of m1 ''previous_response_id'' = None"
  using assms by (auto simp: prepare_body_def Let_def result_simps)

lemma connect_session_Inr:
  assumes "connect_session connect headers s = Returned (Inr (), s1)"
  shows "ac_snapshot s1 = ac_snapshot s" and "ac_key s1 = ac_key s"
    and "s1 = s \<or> ac_upstream_response_id s1 = None"
  using assms by (auto simp: connect_session_def split: if_splits option.splits sum.splits)

lemma warm_items_parameters:
  "jget prewarm ''input'' = Some (JArr w) \<Longrightarrow> warm_items (session_parameters m prewarm) = w"
  by (simp add: warm_items_def session_parameters_def jindex_def)

lemma prewarm_has_input:
  assumes "responses_lite_prewarm request model key = Inr (prewarm, request')"
  shows "\<exists>items. jget prewarm ''input'' = Some (JArr items)"
  using assms by (rule prewarm_cases) simp

lemma send_turn_Inr:
  assumes "send_turn print m s = Returned (Inr (), s')"
  obtains k where "ac_upstream s = Some k" "s' = s\<lparr>ac_upstream := Some (k\<lparr>sk_sent := sk_sent k @ [UM_Text (print (JObj m))]\<rparr>)\<rparr>"
  using assms by (auto simp: send_turn_def socket_send_def split: option.splits if_splits)

text \<open>The turn that was sent, on the context it names.\<close>

definition carries_history ::
  "(string \<Rightarrow> json option) \<Rightarrow> (json \<Rightarrow> string) \<Rightarrow> contexts \<Rightarrow> json list \<Rightarrow> json \<Rightarrow> jobject \<Rightarrow> string \<Rightarrow>
     json list \<Rightarrow> contexts \<Rightarrow> bool" where
  "carries_history parse print ctx input parameters m prev items ctx' \<longleftrightarrow>
     map_of m ''previous_response_id'' = Some (JStr prev) \<and> map_of m ''input'' = Some (JArr items) \<and>
     (ctx' = ctx \<or>
      (\<exists>w k k'. send_responses_prewarm parse print (JObj w) k = Some (Inr prev, k') \<and>
         map_of w ''input'' = Some (JArr (warm_items parameters)) \<and> ctx' = ctx(prev \<mapsto> warm_items parameters))) \<and>
     (\<exists>held. ctx' prev = Some held \<and> held @ items = warm_items parameters @ input)"

lemma continue_context_history:
  assumes cont: "continue_context parse print w m parameters input k s = Returned (Inr m', s')"
    and warm: "map_of w ''input'' = Some (JArr (warm_items parameters))"
    and ctx: "context_ok ctx s" and up: "ac_upstream s \<noteq> None"
  shows "\<exists>prev items ctx'. carries_history parse print ctx input parameters m' prev items ctx'"
proof (cases "reusable_context parameters input s")
  case (Some sn)
  then have sn: "ac_snapshot s = Some sn" "ac_upstream_response_id s = Some (sn_response_id sn)"
      "sn_parameters sn = parameters" "take (length (sn_input sn)) input = sn_input sn"
    by (auto simp: reusable_context_def)
  then have held: "ctx (sn_response_id sn) = Some (warm_items parameters @ sn_input sn)"
    using ctx up by (simp add: context_ok_def)
  have "sn_input sn @ drop (length (sn_input sn)) input = input"
    using sn(4) append_take_drop_id by metis
  then have "carries_history parse print ctx input parameters m' (sn_response_id sn)
      (drop (length (sn_input sn)) input) ctx"
    using cont Some held by (auto simp: carries_history_def continue_context_def)
  then show ?thesis by blast
next
  case None
  with cont obtain i k' where i: "send_responses_prewarm parse print (JObj (bmap_remove ''previous_response_id'' w)) k =
        Some (Inr i, k')"
      "m' = bmap_insert ''input'' (JArr input) (bmap_insert ''previous_response_id'' (JStr i) m)"
    by (auto simp: continue_context_def Let_def split: option.splits prod.splits sum.splits)
  have "map_of (bmap_remove ''previous_response_id'' w) ''input'' = Some (JArr (warm_items parameters))"
    using warm by simp
  with i have "carries_history parse print ctx input parameters m' i input (ctx(i \<mapsto> warm_items parameters))"
    unfolding carries_history_def
    by (intro conjI disjI2, simp, simp, rule_tac x = "bmap_remove ''previous_response_id'' w" in exI) auto
  then show ?thesis by blast
qed

lemma prepare_history:
  assumes "prepare parse print from_str utf8 connect t s = Returned (Inr (input, parameters, m'), s')"
    and "context_ok ctx s"
  shows "full_input s (tn_body t) = Inr input \<and>
    (\<exists>k. ac_upstream s' = Some k \<and> sk_sent k \<noteq> [] \<and> last (sk_sent k) = UM_Text (print (JObj m'))) \<and>
    (\<exists>prev items ctx'. carries_history parse print ctx input parameters m' prev items ctx')"
  using assms(1)
proof (rule prepare_Inr)
  fix m0 m1 headers prewarm request w m s1 k s2
  assume input: "full_input s (tn_body t) = Inr input"
    and pre: "responses_lite_prewarm (JObj m1) (tn_model t) (ac_request_key s) = Inr (prewarm, request)" "prewarm = JObj w"
    and par: "parameters = session_parameters m prewarm"
    and conn: "connect_session connect headers s = Returned (Inr (), s1)" "ac_upstream s1 = Some k"
    and cont: "continue_context parse print w m parameters input k s1 = Returned (Inr m', s2)"
    and send: "send_turn print m' s2 = Returned (Inr (), s')"
  from prewarm_has_input [OF pre(1)] pre(2) par have "map_of w ''input'' = Some (JArr (warm_items parameters))"
    by (auto simp: warm_items_parameters)
  moreover have "context_ok ctx s1"
    using connect_session_Inr [OF conn(1)] assms(2) by (auto simp: context_ok_def)
  ultimately have "\<exists>prev items ctx'. carries_history parse print ctx input parameters m' prev items ctx'"
    using continue_context_history [OF cont] conn(2) by simp
  moreover from send obtain k' where "s' = s2\<lparr>ac_upstream := Some (k'\<lparr>sk_sent := sk_sent k' @ [UM_Text (print (JObj m'))]\<rparr>)\<rparr>"
    by (rule send_turn_Inr)
  ultimately show ?thesis using input by simp
qed

section \<open>A session from turn to turn\<close>

text \<open>
  The life of an actor with the contexts of its connection. The last premise of \<open>answered\<close> is what the
  upstream API documents for \<open>previous_response_id\<close>; the contexts of a connection that is gone are
  arbitrary.
\<close>

inductive session_walk ::
  "(string \<Rightarrow> json option) \<Rightarrow> (json \<Rightarrow> string) \<Rightarrow> (string \<Rightarrow> string option) \<Rightarrow> (string \<Rightarrow> string option) \<Rightarrow>
     actor \<Rightarrow> contexts \<Rightarrow> bool"
  for parse print from_str utf8 where
  spawned: "session_walk parse print from_str utf8 (actor_new key i request_key) ctx"
| answered: "session_walk parse print from_str utf8 s ctx \<Longrightarrow>
    prepare parse print from_str utf8 connect t s = Returned (Inr (input, parameters, m), s1) \<Longrightarrow>
    carries_history parse print ctx input parameters m prev items ctx1 \<Longrightarrow>
    answer_turn parse print http_date_ok down_ok reply_ok permitted fin fin2 inputs rates input parameters s1 p
      (st :: store) = Returned (ended, s2, p', st') \<Longrightarrow>
    (\<And>sn. ac_snapshot s2 = Some sn \<Longrightarrow> ac_upstream s2 \<noteq> None \<Longrightarrow>
       \<exists>output held. sn_input sn = input @ output \<and> ctx1 prev = Some held \<and>
         ctx2 (sn_response_id sn) = Some (held @ items @ output)) \<Longrightarrow>
    session_walk parse print from_str utf8 s2 ctx2"
| failed: "session_walk parse print from_str utf8 s ctx \<Longrightarrow>
    prepare parse print from_str utf8 connect t s = Returned (Inl e, s1) \<Longrightarrow>
    session_walk parse print from_str utf8 (if err_status e = 400 then s1 else drop_connection s1) ctx"
| abandoned: "session_walk parse print from_str utf8 s ctx \<Longrightarrow> session_walk parse print from_str utf8 (abandon x s) ctx"
| between: "session_walk parse print from_str utf8 s ctx \<Longrightarrow>
    session_walk parse print from_str utf8 (idle_message parse item s) ctx"
| lost: "session_walk parse print from_str utf8 s ctx \<Longrightarrow> ac_upstream s = None \<Longrightarrow>
    session_walk parse print from_str utf8 s ctx'"

lemma context_ok_disconnected: "ac_upstream s = None \<Longrightarrow> context_ok ctx s"
  by (simp add: context_ok_def)

lemma drop_connection_simps [simp]:
  "ac_upstream (drop_connection s) = None"
  by (simp add: drop_connection_def)

lemma remember_cases:
  obtains (dropped) "remember print terminal input parameters s = drop_connection s"
    | (kept) i out b where "remember print terminal input parameters s =
        s\<lparr>ac_bytes := b, ac_upstream_response_id := Some i,
          ac_snapshot := Some \<lparr>sn_response_id = i, sn_input = input @ out, sn_parameters = parameters\<rparr>\<rparr>"
proof (cases "ac_key s \<noteq> None \<and> te_kind terminal = TK_Completed")
  case True
  show ?thesis
  proof (cases "opt_filter (\<lambda>i. i \<noteq> []) (opt_bind (jpointer (te_payload terminal) [''response'', ''id'']) as_str)")
    case None
    then show ?thesis by (intro dropped) (simp only: remember_def option.case prod.case)
  next
    case (Some i)
    note id = this
    show ?thesis
    proof (cases "opt_bind (jpointer (te_payload terminal) [''response'', ''output'']) as_array")
      case None
      then show ?thesis by (intro dropped) (simp only: remember_def id option.case prod.case)
    next
      case (Some out)
      show ?thesis
        by (rule kept) (simp only: remember_def id Some option.case prod.case if_P [OF True] Let_def)
    qed
  qed
next
  case False
  then show ?thesis
    by (intro dropped) (simp only: remember_def if_not_P [OF False] split: prod.split option.split, simp)
qed

lemma answer_turn_actor:
  assumes "answer_turn parse print http_date_ok down_ok reply_ok permitted fin fin2 inputs rates input parameters s p st =
      Returned (ended, s', p', st')" and "ac_upstream s' \<noteq> None"
  obtains i out where "ac_snapshot s' = Some \<lparr>sn_response_id = i, sn_input = input @ out, sn_parameters = parameters\<rparr>"
proof -
  from assms obtain terminal b s1 where "s' = remember print terminal input parameters s1"
    by (auto simp: answer_turn_def and_then_Returned_iff split: if_splits option.splits progress.splits)
  then show ?thesis using assms(2) that
    by (cases rule: remember_cases [of print terminal input parameters s1]) auto
qed

lemma connect_session_Inl: "connect_session connect headers s = Returned (Inl e, s') \<Longrightarrow> err_status e = 502"
  by (auto simp: connect_session_def gateway_def split: if_splits option.splits sum.splits)

lemma continue_context_Inl:
  "continue_context parse print w m parameters input k s = Returned (Inl e, s') \<Longrightarrow> err_status e = 502"
  by (auto simp: continue_context_def gateway_def Let_def split: option.splits prod.splits sum.splits)

lemma send_turn_Inl: "send_turn print m s = Returned (Inl e, s') \<Longrightarrow> err_status e = 502"
  by (auto simp: send_turn_def socket_send_def gateway_def split: option.splits if_splits)

lemma exchange_Inl:
  assumes "exchange parse print connect headers w m parameters input s = Returned (Inl e, s')"
  shows "err_status e = 502"
proof -
  obtain opened s1 where s1: "connect_session connect headers s = Returned (opened, s1)"
    using assms by (auto simp: exchange_def and_then_Returned_iff)
  show ?thesis
  proof (cases opened)
    case (Inl e1)
    with s1 assms show ?thesis by (auto simp: exchange_def dest: connect_session_Inl)
  next
    case (Inr u)
    with s1 assms obtain k where k: "ac_upstream s1 = Some k" by (cases "ac_upstream s1") (auto simp: exchange_def)
    with s1 Inr assms obtain r s2 where s2: "continue_context parse print w m parameters input k s1 = Returned (r, s2)"
      by (auto simp: exchange_def and_then_Returned_iff)
    show ?thesis
    proof (cases r)
      case (Inl e2)
      with s1 s2 k Inr assms show ?thesis by (auto simp: exchange_def dest: continue_context_Inl)
    next
      case sent: (Inr m')
      from s1 s2 k Inr sent assms show ?thesis
        by (auto simp: exchange_def and_then_Returned_iff res_bind_Inl_iff dest: send_turn_Inl)
    qed
  qed
qed

lemma context_ok_walk: "session_walk parse print from_str utf8 s ctx \<Longrightarrow> context_ok ctx s"
proof (induction rule: session_walk.induct)
  case (spawned key i request_key ctx)
  then show ?case by (simp add: context_ok_def actor_new_def)
next
  case (answered s ctx connect t input parameters m s1 prev items ctx1 http_date_ok down_ok reply_ok permitted
      fin fin2 inputs rates p st ended s2 p' st' ctx2)
  show ?case
    unfolding context_ok_def
  proof (intro allI impI)
    fix sn
    assume up: "ac_upstream s2 \<noteq> None" and sn: "ac_snapshot s2 = Some sn"
    from answered(4) up obtain i out where
      "ac_snapshot s2 = Some \<lparr>sn_response_id = i, sn_input = input @ out, sn_parameters = parameters\<rparr>"
      by (rule answer_turn_actor)
    with sn have shape: "sn_input sn = input @ out" "sn_parameters sn = parameters" by auto
    from answered(5) [OF sn up] shape obtain held where held: "ctx1 prev = Some held"
      "ctx2 (sn_response_id sn) = Some (held @ items @ out)" by auto
    with answered(3) have "held @ items = warm_items parameters @ input"
      by (auto simp: carries_history_def)
    with held shape show "ctx2 (sn_response_id sn) = Some (warm_items (sn_parameters sn) @ sn_input sn)"
      by (metis append.assoc)
  qed
next
  case (failed s ctx connect t e s1)
  show ?case
  proof (cases "err_status e = 400")
    case True
    from failed(2) have "s1 = s"
      by (cases rule: prepare_cases) (use True exchange_Inl in \<open>fastforce simp: res_bind_Inl_iff dest!: sym [of "Inl _" "res_bind _ _"]\<close>)+
    with True failed(3) show ?thesis by simp
  qed (simp add: context_ok_disconnected)
next
  case (abandoned s ctx x)
  then show ?case by (cases x) (simp add: abandon_def context_ok_disconnected)
next
  case (between s ctx item)
  then show ?case
    by (auto simp: idle_message_def context_ok_def socket_send_def drop_connection_def
        split: option.splits upstream_item.splits upstream_message.splits)
qed (auto intro: context_ok_disconnected)


definition demo_actor :: actor where
  "demo_actor = actor_new None 0 ''key''"

definition demo_request :: turn where
  "demo_request = \<lparr>tn_body = JObj [(''input'', JArr [JStr ''hi''])], tn_model = demo_lite_model, tn_headers = [], tn_rates = demo_rates\<rparr>"

abbreviation demo_parse :: "string \<Rightarrow> json option" where
  "demo_parse t \<equiv> Some demo_completed"

abbreviation demo_print :: "json \<Rightarrow> string" where
  "demo_print j \<equiv> ''m''"

abbreviation demo_connect :: "header_map \<Rightarrow> (UpstreamWebSocketError + upstream_socket) option" where
  "demo_connect h \<equiv> Some (Inr demo_socket)"

lemma demo_prepared:
  "\<exists>parameters m s'. prepare demo_parse demo_print Some Some demo_connect demo_request demo_actor =
     Returned (Inr ([JStr ''hi''], parameters, m), s')"
proof -
  have "codex_request_headers Some [] (JObj m) = []" if "map_of m ''prompt_cache_key'' = None" for m
    using that by (simp add: codex_request_headers_def codex_passthrough_headers_def CODEX_PASSTHROUGH_HEADERS_def
        header_get_def get_all_def)
  then have b: "\<exists>m1. prepare_body Some Some [] [(''input'', JArr [JStr ''hi''])] = Inr (m1, [])"
    by (simp add: prepare_body_def Let_def bmap_remove_def metadata_headers_def header_get_def get_all_def)
  then obtain m1 where m1: "prepare_body Some Some [] [(''input'', JArr [JStr ''hi''])] = Inr (m1, [])" by blast
  obtain w m where pre: "responses_lite_prewarm (JObj m1) demo_lite_model ''key'' = Inr (JObj w, JObj m)"
    by (simp add: responses_lite_prewarm_def demo_lite_model_def Let_def)
  have "\<exists>m' s'. exchange demo_parse demo_print demo_connect [] w m parameters [JStr ''hi''] demo_actor =
      Returned (Inr m', s')" for parameters
    by (simp add: exchange_def connect_session_def continue_context_def reusable_context_def demo_actor_def
        actor_new_def send_responses_prewarm_def socket_send_def demo_socket_def demo_prewarm_event send_turn_def Let_def)
  then obtain m' s' where "exchange demo_parse demo_print demo_connect [] w m (session_parameters m (JObj w))
      [JStr ''hi''] demo_actor = Returned (Inr m', s')" by blast
  with m1 pre show ?thesis
    by (simp add: prepare_def full_input_def previous_id_of_def input_of_def demo_request_def demo_actor_def actor_new_def)
qed


section \<open>A turn never panics and closes its row\<close>

lemma prepare_Inl:
  assumes "prepare parse print from_str utf8 connect t s = Returned (Inl e, s')"
  shows "100 \<le> err_status e \<and> err_status e \<le> 599"
proof -
  have moved: "err_status e = 400" if "move_metadata utf8 names h m = Inl e" for names h m
    using that
    by (induction names arbitrary: h m) (auto simp: res_bind_Inl_iff ok_or_Inl_iff invalid_def split: option.splits)
  have "err_status e = 400" if "full_input s (tn_body t) = Inl e"
    using that by (auto simp: full_input_def previous_id_of_def input_of_def res_bind_Inl_iff ok_or_Inl_iff invalid_def
        split: option.splits json.splits if_splits)
  moreover have "err_status e = 400" if "prepare_body from_str utf8 (tn_headers t) m0 = Inl e" for m0
    using that by (auto simp: prepare_body_def Let_def res_bind_Inl_iff ok_or_Inl_iff invalid_def dest: moved)
  moreover have "err_status (gateway x) = 502" for x by (simp add: gateway_def)
  ultimately have "err_status e = 400 \<or> err_status e = 502"
    using assms exchange_Inl
    by (auto simp: prepare_def Let_def and_then_Returned_iff res_bind_Inl_iff split: sum.splits option.splits)
  then show ?thesis by auto
qed

lemma continue_context_no_panic:
  "continue_context parse print w m parameters input k s \<noteq> Panics"
  by (auto simp: continue_context_def Let_def split: option.split sum.split prod.split)

lemma continue_context_keeps_connection:
  "continue_context parse print w m parameters input k s = Returned (r, s') \<Longrightarrow> ac_upstream s = Some k \<Longrightarrow>
     ac_upstream s' \<noteq> None"
  by (auto simp: continue_context_def Let_def split: option.splits sum.splits prod.splits)

lemma send_turn_connected:
  "ac_upstream s \<noteq> None \<Longrightarrow> \<exists>r s'. send_turn print m s = Returned (r, s') \<and> ac_upstream s' \<noteq> None"
  by (auto simp: send_turn_def socket_send_def)

lemma connect_session_no_panic:
  assumes "\<And>h. connect h \<noteq> None"
  shows "\<exists>r s'. connect_session connect headers s = Returned (r, s') \<and> (r = Inr () \<longrightarrow> ac_upstream s' \<noteq> None)"
  using assms [of headers] by (auto simp: connect_session_def split: option.split sum.split)

lemma exchange_no_panic:
  assumes "\<And>h. connect h \<noteq> None"
  shows "exchange parse print connect headers w m parameters input s \<noteq> Panics"
proof -
  obtain opened s1 where s1: "connect_session connect headers s = Returned (opened, s1)"
      "opened = Inr () \<longrightarrow> ac_upstream s1 \<noteq> None"
    using connect_session_no_panic [of connect headers s] assms by blast
  show ?thesis
  proof (cases opened)
    case (Inl e)
    with s1 show ?thesis by (simp add: exchange_def)
  next
    case opened: (Inr u)
    with s1 obtain k where k: "ac_upstream s1 = Some k" by auto
    show ?thesis
    proof (cases "continue_context parse print w m parameters input k s1")
      case (Returned x)
      obtain r s2 where x: "x = (r, s2)" by (cases x)
      with Returned k have "ac_upstream s2 \<noteq> None" using continue_context_keeps_connection by blast
      show ?thesis
      proof (cases r)
        case (Inr m')
        obtain q s3 where "send_turn print m' s2 = Returned (q, s3)"
          using send_turn_connected [OF \<open>ac_upstream s2 \<noteq> None\<close>] by blast
        with s1 opened k Returned x Inr show ?thesis by (simp add: exchange_def)
      qed (use s1 opened k Returned x in \<open>simp add: exchange_def\<close>)
    qed (use s1 opened k continue_context_no_panic in \<open>auto simp: exchange_def\<close>)
  qed
qed

lemma prepare_no_panic:
  assumes "\<And>h. connect h \<noteq> None" "is_object (tn_body t)"
  shows "prepare parse print from_str utf8 connect t s \<noteq> Panics"
proof -
  have objects: "\<exists>w m. prewarm = JObj w \<and> request = JObj m"
    if "responses_lite_prewarm b model key = Inr (prewarm, request)" for b model key prewarm request
    using that by (rule prewarm_cases) simp
  have "and_then (exchange parse print connect headers w m parameters input s) (\<lambda>(r, s'). Returned (F r s')) \<noteq> Panics"
    for headers w m parameters input and F :: "api_error + jobject \<Rightarrow> actor \<Rightarrow> (api_error + json list \<times> json \<times> jobject) \<times> actor"
    using exchange_no_panic [of connect parse print headers w m parameters input s] assms(1)
    by (cases "exchange parse print connect headers w m parameters input s") auto
  then show ?thesis
    using assms(2) objects
    by (auto simp: prepare_def Let_def split: sum.split option.split) (metis as_object.simps(1) option.distinct(1))+
qed

lemma prepare_connected:
  assumes "prepare parse print from_str utf8 connect t s = Returned (Inr (input, parameters, m), s')"
  shows "ac_upstream s' \<noteq> None"
  using assms by (rule prepare_Inr) (auto elim: send_turn_Inr)

lemma answer_turn_no_panic:
  assumes "ac_upstream s \<noteq> None"
  shows "answer_turn parse print http_date_ok down_ok reply_ok permitted fin fin2 inputs rates input parameters s (Open q) st
    \<noteq> Panics"
proof -
  obtain k where k: "ac_upstream s = Some k" using assms by auto
  let ?q = "Open (q\<lparr>open_drop_http_status := Some 200\<rparr>)"
  have "case forward_websocket_responses_stream parse print http_date_ok down_ok rates fin fin2 inputs
      \<lparr>ts_items = [], ts_socket = k, ts_out = [], ts_pending = ?q, ts_store = st\<rparr> of
      Waiting \<Rightarrow> True | Panics \<Rightarrow> False | Returned x \<Rightarrow> True"
    using forward_stream_sound [where s = "\<lparr>ts_items = [], ts_socket = k, ts_out = [], ts_pending = ?q, ts_store = st\<rparr>"
        and q = "q\<lparr>open_drop_http_status := Some 200\<rparr>" and parse = parse and print = print
        and http_date_ok = http_date_ok and down_ok = down_ok and rates = rates and fin = fin and ?fin2.0 = fin2
        and inputs = inputs]
    by (auto split: progress.splits)
  then show ?thesis
    using k by (auto simp: answer_turn_def split: progress.splits option.split)
qed

lemma fail_turn_open: "\<exists>x. fail_turn fin c e s (Open q) st = Returned x"
  using finish_quietly_open [of fin "error_status c e" "Some (int (err_status e))" q st]
  by (auto simp: fail_turn_def)

lemma respond_no_panic:
  assumes "\<And>h. connect h \<noteq> None" "is_object (tn_body t)"
  shows "respond parse print http_date_ok from_str utf8 connect down_ok shutdown_cancelled reply_ok permitted
    fin fin2 drop_fin arm inputs t s (Open q) st \<noteq> Panics"
proof (cases arm)
  case (Prepare_Shutdown x)
  then show ?thesis using fail_turn_open [of fin True shutdown "abandon x s" q st] by (auto simp: respond_def)
next
  case (Prepare_Abandoned x)
  then show ?thesis by (simp add: respond_def)
next
  case Prepare_Done
  show ?thesis
  proof (cases "prepare parse print from_str utf8 connect t s")
    case Panics
    then show ?thesis using prepare_no_panic [of connect t] assms by blast
  next
    case (Returned x)
    obtain r s' where x: "x = (r, s')" by (cases x)
    show ?thesis
    proof (cases r)
      case (Inl e)
      then show ?thesis using Prepare_Done Returned x fail_turn_open [of fin shutdown_cancelled e s' q st]
        by (auto simp: respond_def)
    next
      case (Inr y)
      obtain input parameters m where y: "y = (input, parameters, m)" by (cases y)
      with Returned x Inr have "ac_upstream s' \<noteq> None" using prepare_connected by blast
      from answer_turn_no_panic [OF this, of parse print http_date_ok down_ok reply_ok permitted fin fin2 inputs
          "tn_rates t" input parameters q st]
      show ?thesis using Prepare_Done Returned x Inr y
        by (cases "answer_turn parse print http_date_ok down_ok reply_ok permitted fin fin2 inputs (tn_rates t)
            input parameters s' (Open q) st") (auto simp: respond_def)
    qed
  qed (simp add: respond_def Prepare_Done)
qed

context finalizer
begin

lemma fail_turn_guards:
  assumes "ok st" "reliable k" "100 \<le> err_status e" "err_status e \<le> 599"
    and "fail_turn (fins k) c e s (Open q) st = Returned (ended, s', p', st')"
  shows "closed_or_guarded (open_request_id q) p' st'"
  using assms(5) finish_quietly_closes [OF assms(1,2), of "Some (int (err_status e))"] assms(3,4)
  by (auto simp: fail_turn_def and_then_Returned_iff closed_or_guarded_def)

lemma answer_turn_guards:
  assumes "ok st" "reliable k" "reliable j"
    and "answer_turn parse print http_date_ok down_ok reply_ok permitted (fins k) (fins j) inputs rates input parameters
      s (Open q) st = Returned (ended, s', p', st')"
  shows "closed_or_guarded (open_request_id q) p' st'"
proof -
  let ?q = "q\<lparr>open_drop_http_status := Some 200\<rparr>"
  have open_ok: "closed_or_guarded (open_request_id q) (Open ?q) st"
    using assms(1) by (simp add: closed_or_guarded_def guards_def)
  have finished: "closed_or_guarded (open_request_id q) (ts_pending ts) (ts_store ts)"
    if "forward_websocket_responses_stream parse print http_date_ok down_ok rates (fins k) (fins j) inputs
      \<lparr>ts_items = [], ts_socket = sk, ts_out = [], ts_pending = Open ?q, ts_store = st\<rparr> = Returned (r, ts)" for sk r ts
    using forward_closes [OF _ assms(2,3) _ that, of ?q] assms(1)
      forward_stream_sound [where s = "\<lparr>ts_items = [], ts_socket = sk, ts_out = [], ts_pending = Open ?q, ts_store = st\<rparr>"
        and q = ?q and parse = parse and print = print and http_date_ok = http_date_ok and down_ok = down_ok
        and rates = rates and fin = "fins k" and ?fin2.0 = "fins j" and inputs = inputs] that
    by (auto simp: closed_or_guarded_def turn_relayed_def)
  show ?thesis
  proof (cases "reply_ok \<and> ac_upstream s \<noteq> None")
    case True
    then obtain sk where sk: "ac_upstream s = Some sk" by auto
    show ?thesis
    proof (cases "forward_websocket_responses_stream parse print http_date_ok down_ok rates (fins k) (fins j) inputs
      \<lparr>ts_items = [], ts_socket = sk, ts_out = [], ts_pending = Open ?q, ts_store = st\<rparr>")
      case (Returned x)
      obtain r ts where x: "x = (r, ts)" by (cases x)
      from finished [OF Returned [unfolded x]] assms(4) True sk Returned x show ?thesis
        by (cases r) (auto simp: answer_turn_def split: if_splits)
    qed (use assms(4) True sk open_ok in \<open>auto simp: answer_turn_def\<close>)
  qed (use assms(4) open_ok in \<open>auto simp: answer_turn_def split: if_splits\<close>)
qed

end

context finalizer
begin

lemma respond_closes:
  assumes "ok st" "reliable k" "reliable j" "reliable i"
    and "opt_all (\<lambda>n. 100 \<le> n \<and> n \<le> 599) (open_drop_http_status q)"
    and "respond parse print http_date_ok from_str utf8 connect down_ok shutdown_cancelled reply_ok permitted
      (fins k) (fins j) (fins i) arm inputs t s (Open q) st = Returned (ended, s', st')"
  shows "ok st' \<and> \<not> started st' (open_request_id q)"
proof -
  have shut: "100 \<le> err_status shutdown" "err_status shutdown \<le> 599" by (simp_all add: shutdown_def)
  from assms(6) obtain ended' s1 p1 st1 where st': "st' = pending_drop (fins i) p1 st1"
    and turn: "(case arm of
          Prepare_Shutdown x \<Rightarrow> fail_turn (fins k) True shutdown (abandon x s) (Open q) st
        | Prepare_Abandoned x \<Rightarrow> Returned (End_Canceled, abandon x s, Open q, st)
        | Prepare_Done \<Rightarrow>
            and_then (prepare parse print from_str utf8 connect t s) (\<lambda>(prepared, s').
            case prepared of
              Inl e \<Rightarrow> fail_turn (fins k) shutdown_cancelled e s' (Open q) st
            | Inr (input, parameters, sent) \<Rightarrow>
                answer_turn parse print http_date_ok down_ok reply_ok permitted (fins k) (fins j) inputs (tn_rates t)
                  input parameters s' (Open q) st)) = Returned (ended', s1, p1, st1)"
    by (auto simp: respond_def and_then_Returned_iff)
  have "closed_or_guarded (open_request_id q) p1 st1"
  proof (cases arm)
    case (Prepare_Shutdown x)
    with turn show ?thesis using fail_turn_guards [OF assms(1,2) shut] by auto
  next
    case (Prepare_Abandoned x)
    with turn assms(1,5) show ?thesis by (auto simp: closed_or_guarded_def guards_def)
  next
    case Prepare_Done
    with turn obtain r s2 where r: "prepare parse print from_str utf8 connect t s = Returned (r, s2)"
      and rest: "(case r of
              Inl e \<Rightarrow> fail_turn (fins k) shutdown_cancelled e s2 (Open q) st
            | Inr (input, parameters, sent) \<Rightarrow>
                answer_turn parse print http_date_ok down_ok reply_ok permitted (fins k) (fins j) inputs (tn_rates t)
                  input parameters s2 (Open q) st) = Returned (ended', s1, p1, st1)"
      by (auto simp: and_then_Returned_iff)
    show ?thesis
    proof (cases r)
      case (Inl e)
      with r rest show ?thesis
        using prepare_Inl [of parse print from_str utf8 connect t s e s2] fail_turn_guards [OF assms(1,2)] by auto
    next
      case (Inr y)
      then show ?thesis using rest answer_turn_guards [OF assms(1-3)] by (cases y) auto
    qed
  qed
  then have ended: "closed_or_guarded (open_request_id q) p1 st1" .
  have "ok (pending_drop (fins i) p1 st1)"
    using ended fin_effect(1) by (cases p1) (auto simp: closed_or_guarded_def)
  with drop_closes [OF ended assms(4)] show ?thesis by (simp add: st')
qed

end

end
