(* ===== verification/App_State.thy ===== *)
theory App_State
  imports Session_Actor
begin

text \<open>
  What the handlers share (\<open>src/state.rs\<close>): the configuration, the store, the upstream client with its
  models cache, and the table of Responses sessions. The surroundings of a run are a \<open>world\<close>: which
  statements of the database fail, the clock, the network, the credential manager's answers, and the
  library functions the code calls. A handler makes its \<open>k\<close>-th call at time \<open>k\<close> of its world.
\<close>

record app_state =
  as_config :: config
  as_store :: store
  as_client :: upstream_http_client
  as_models :: "cached_models option"
  as_sends :: sends
  as_sessions :: cache

record world =
  wd_decimal :: decimal_ops
  wd_faults :: "nat \<Rightarrow> db_env"
  wd_clock :: "nat \<Rightarrow> int"
  wd_net :: network
  wd_creds :: "nat \<Rightarrow> fetch_credentials"
  wd_refresh :: "nat \<Rightarrow> refresh_credentials"
  wd_from_str :: "string \<Rightarrow> string option"
  wd_parse :: "string \<Rightarrow> json option"
  wd_print :: "json \<Rightarrow> string"
  wd_http_date_ok :: "string \<Rightarrow> bool"

section \<open>The store and the models list, from a handler\<close>

definition store_begin ::
  "world \<Rightarrow> nat \<Rightarrow> request_context \<Rightarrow> quota_limits \<Rightarrow> model_candidates \<Rightarrow> app_state \<Rightarrow>
     (StoreError + Admission) \<times> app_state" where
  "store_begin W k ctx quota cands a =
     (case begin_request (wd_decimal W) (wd_faults W k) (wd_clock W k) ctx quota cands (as_store a) of
        (r, st) \<Rightarrow> (r, a\<lparr>as_store := st\<rparr>))"

definition store_finalize ::
  "world \<Rightarrow> nat \<Rightarrow> request_id \<Rightarrow> FinalStatus \<Rightarrow> int option \<Rightarrow> billable_usage option \<Rightarrow> app_state \<Rightarrow>
     (StoreError + unit) \<times> app_state" where
  "store_finalize W k rid status http usage a =
     (case finalize_request (wd_decimal W) (wd_faults W k) (wd_clock W k) rid status http usage (as_store a) of
        (r, st) \<Rightarrow> (r, a\<lparr>as_store := st\<rparr>))"

definition store_reject ::
  "world \<Rightarrow> nat \<Rightarrow> request_context \<Rightarrow> string \<Rightarrow> string option \<Rightarrow> int option \<Rightarrow> app_state \<Rightarrow>
     (StoreError + unit) \<times> app_state" where
  "store_reject W k ctx model effort http a =
     (case record_rejection (wd_faults W k) (wd_clock W k) ctx model effort http (as_store a) of
        (r, st) \<Rightarrow> (r, a\<lparr>as_store := st\<rparr>))"

definition list_models :: "world \<Rightarrow> nat \<Rightarrow> app_state \<Rightarrow> (UpstreamHttpError + json list) \<times> app_state" where
  "list_models W k a =
     (case upstream_models (wd_from_str W) (wd_parse W) (wd_net W) (wd_creds W k) (wd_refresh W k) (as_client a)
             (wd_clock W k) (as_models a) (as_sends a) of
        (r, c, sent) \<Rightarrow> (r, a\<lparr>as_models := c, as_sends := sent\<rparr>))"

definition lookup_model ::
  "world \<Rightarrow> nat \<Rightarrow> string \<Rightarrow> app_state \<Rightarrow> (UpstreamHttpError + json option) \<times> app_state" where
  "lookup_model W k slug a =
     (case upstream_model (wd_from_str W) (wd_parse W) (wd_net W) (wd_creds W k) (wd_refresh W k) (as_client a)
             (wd_clock W k) slug (as_models a) (as_sends a) of
        (r, c, sent) \<Rightarrow> (r, a\<lparr>as_models := c, as_sends := sent\<rparr>))"

definition post_upstream ::
  "world \<Rightarrow> nat \<Rightarrow> json \<Rightarrow> header_map \<Rightarrow> app_state \<Rightarrow> (UpstreamHttpError + http_response) \<times> app_state" where
  "post_upstream W k b headers a =
     (case upstream_send (wd_from_str W) (wd_net W) (wd_creds W k) (wd_refresh W k) (as_client a) b headers
             (as_sends a) of
        (r, sent) \<Rightarrow> (r, a\<lparr>as_sends := sent\<rparr>))"

text \<open>\<open>format!("codex-api-{}", request_id.0)\<close>.\<close>

fun request_key_of :: "request_id \<Rightarrow> string" where
  "request_key_of (RequestId i) = ''codex-api-'' @ show_int i"

section \<open>Interference\<close>

text \<open>
  Between two events of one handler the other tasks may call the store in any way and refresh the
  shared caches; the configuration and the client are set once. Whatever they do, a row that is closed
  stays closed.
\<close>

definition others_may :: "decimal_ops \<Rightarrow> app_state \<Rightarrow> app_state \<Rightarrow> bool" where
  "others_may D a a' \<longleftrightarrow> store_steps D (as_store a) (as_store a') \<and> as_config a' = as_config a \<and>
     as_client a' = as_client a"

definition reliable_world :: "world \<Rightarrow> bool" where
  "reliable_world W \<longleftrightarrow> (\<forall>k. reliable_at (wd_faults W) (wd_clock W) k)"

fun row_closed :: "request_id \<Rightarrow> store \<Rightarrow> bool" where
  "row_closed (RequestId i) st = no_started i st"

lemma row_closed_not_started: "row_closed r st \<Longrightarrow> \<not> row_started st r"
  by (cases r) (simp add: row_started_def no_started_def)

lemma row_closed_step: "row_closed r st \<Longrightarrow> store_step D st st' \<Longrightarrow> row_closed r st'"
  by (cases r) (auto intro: no_started_step)

lemma row_closed_steps: "row_closed r st \<Longrightarrow> store_steps D st st' \<Longrightarrow> row_closed r st'"
  by (cases r) (auto intro: no_started_steps)

fun row_known :: "request_id \<Rightarrow> store \<Rightarrow> bool" where
  "row_known (RequestId i) st = (i \<le> last_rowid st)"

lemma row_known_step:
  assumes "row_known r st" "store_step D st st'" shows "row_known r st'"
  using assms(2)
proof (cases rule: store_step_ledger_cases)
  case same
  with assms(1) show ?thesis by (cases r) simp
next
  case (insert env row x)
  then show ?thesis
    using assms(1) by (cases rule: insert_row_cases [of env row st]; cases r) auto
next
  case (update env j f d s h acc x)
  then show ?thesis
    using assms(1) by (cases rule: update_started_cases [of env j "finalized_row f d s h acc" st]; cases r) auto
qed

lemma row_known_steps: "row_known r st \<Longrightarrow> store_steps D st st' \<Longrightarrow> row_known r st'"
  by (rotate_tac, induction rule: rtranclp_induct) (auto intro: row_known_step)

lemma row_known_closed: "row_known r st \<Longrightarrow> \<not> row_started st r \<Longrightarrow> row_closed r st"
  by (cases r) (simp add: row_started_def no_started_def)

section \<open>Effects of the calls\<close>

lemma store_begin_effect:
  assumes "store_begin W k ctx quota cands a = (r, a')"
  shows "others_may (wd_decimal W) a a'"
    and "r = Inr (Admitted rid m) \<Longrightarrow> store_ok (as_store a) \<Longrightarrow> row_known rid (as_store a')"
proof -
  obtain st where b: "begin_request (wd_decimal W) (wd_faults W k) (wd_clock W k) ctx quota cands (as_store a) =
      (r, st)" and a': "a' = a\<lparr>as_store := st\<rparr>"
    using assms by (auto simp: store_begin_def split: prod.splits)
  from store_step.begin_step [OF b] a' show "others_may (wd_decimal W) a a'"
    by (auto simp: others_may_def)
  show "row_known rid (as_store a')" if "r = Inr (Admitted rid m)" "store_ok (as_store a)"
    using b that a'
    by (auto simp: begin_request_def insert_row_def split: sum.splits prod.splits if_splits)
qed

lemma store_finalize_effect:
  assumes "store_finalize W k rid status http usage a = (r, a')"
  shows "others_may (wd_decimal W) a a'"
proof -
  obtain st where f: "finalize_request (wd_decimal W) (wd_faults W k) (wd_clock W k) rid status http usage
      (as_store a) = (r, st)" and a': "a' = a\<lparr>as_store := st\<rparr>"
    using assms by (auto simp: store_finalize_def split: prod.splits)
  from store_step.finalize_step [OF f] a' show ?thesis by (auto simp: others_may_def)
qed

lemma store_reject_effect:
  assumes "store_reject W k ctx model effort http a = (r, a')"
  shows "others_may (wd_decimal W) a a'"
proof -
  obtain st where f: "record_rejection (wd_faults W k) (wd_clock W k) ctx model effort http (as_store a) = (r, st)"
    and a': "a' = a\<lparr>as_store := st\<rparr>"
    using assms by (auto simp: store_reject_def split: prod.splits)
  from store_step.reject_step [OF f] a' show ?thesis by (auto simp: others_may_def)
qed

lemma lookup_model_effect:
  assumes "lookup_model W k slug a = (r, a')"
  shows "as_store a' = as_store a" "as_config a' = as_config a" "as_client a' = as_client a"
  using assms by (auto simp: lookup_model_def split: prod.splits)

lemma others_may_refl [simp]: "others_may D a a"
  by (simp add: others_may_def)

lemma others_may_trans [trans]: "others_may D a b \<Longrightarrow> others_may D b c \<Longrightarrow> others_may D a c"
  by (auto simp: others_may_def)

lemma lookup_model_others: "lookup_model W k slug a = (r, a') \<Longrightarrow> others_may D a a'"
  by (frule lookup_model_effect(1), frule lookup_model_effect(2), frule lookup_model_effect(3))
    (simp add: others_may_def)

text \<open>In a reliable world a finalisation without usage closes its row.\<close>

lemma store_finalize_closes:
  assumes "reliable_world W" "store_ok (as_store a)" "row_known rid (as_store a)"
    and "opt_all (\<lambda>n. 100 \<le> n \<and> n \<le> 599) http"
    and "store_finalize W k rid status http None a = (r, a')"
  shows "row_closed rid (as_store a')"
proof -
  have s: "snd (store_fins (wd_decimal W) (wd_faults W) (wd_clock W) k rid status http None (as_store a)) = as_store a'"
    using assms(5) by (auto simp: store_finalize_def store_fins_def split: prod.splits)
  have "\<not> row_started (as_store a') rid"
    using sf.reliable_fin_closes [of "as_store a" "wd_faults W" "wd_clock W" k http "wd_decimal W" rid status]
      assms(1,2,4) s by (simp add: reliable_world_def)
  moreover have "row_known rid (as_store a')"
    using store_finalize_effect [OF assms(5)] assms(3) by (auto simp: others_may_def intro: row_known_steps)
  ultimately show ?thesis by (rule row_known_closed [rotated])
qed

lemma store_finalize_success:
  assumes "store_ok (as_store a)" "row_known rid (as_store a)"
    and "store_finalize W k rid status http usage a = (Inr x, a')"
  shows "row_closed rid (as_store a')"
proof -
  have s: "store_fins (wd_decimal W) (wd_faults W) (wd_clock W) k rid status http usage (as_store a) =
      (Inr x, as_store a')"
    using assms(3) by (auto simp: store_finalize_def store_fins_def split: prod.splits)
  have "\<not> row_started (as_store a') rid"
    using sf.success_closes [OF assms(1) s] by simp
  moreover have "row_known rid (as_store a')"
    using store_finalize_effect [OF assms(3)] assms(2) by (auto simp: others_may_def intro: row_known_steps)
  ultimately show ?thesis by (rule row_known_closed [rotated])
qed


lemma store_begin_candidate:
  assumes "store_begin W k ctx quota cands a = (Inr (Admitted rid em), a')"
  shows "em = primary cands \<or> fallback cands = Some em"
  using assms begin_request_admits_candidate by (auto simp: store_begin_def split: prod.splits)


section \<open>The guards of the handlers\<close>

section \<open>No row left open\<close>

text \<open>
  From \<open>a\<close> to \<open>a'\<close> the shared state moved as the calls on it move it, no row was opened that is still
  open, except those of \<open>X\<close>, and the stored credentials, which only the credential manager writes, were
  left alone.
\<close>

definition leaves_open :: "decimal_ops \<Rightarrow> request_id set \<Rightarrow> app_state \<Rightarrow> app_state \<Rightarrow> bool" where
  "leaves_open D X a a' \<longleftrightarrow> others_may D a a' \<and> store_ok (as_store a') \<and>
     credentials (as_store a') = credentials (as_store a) \<and>
     (\<forall>r. row_started (as_store a') r \<longrightarrow> row_started (as_store a) r \<or> r \<in> X)"

lemma leaves_open_refl: "store_ok (as_store a) \<Longrightarrow> leaves_open D X a a"
  by (simp add: leaves_open_def)

lemma leaves_open_frame:
  assumes "as_store b = as_store a" "as_config b = as_config a" "as_client b = as_client a"
  shows "leaves_open D X a0 b = leaves_open D X a0 a"
  using assms by (simp add: leaves_open_def others_may_def)

lemma row_started_insert:
  assumes "insert_row env row st = (x, st')" "row_status row \<noteq> ''started''"
  shows "row_started st' r = row_started st r"
  using assms by (cases r) (auto simp: insert_row_def row_started_def is_started_def split: if_splits)

lemma others_may_ok: "others_may D a a' \<Longrightarrow> store_ok (as_store a) \<Longrightarrow> store_ok (as_store a')"
  by (auto simp: others_may_def intro: store_ok_steps)

lemma insert_row_credentials: "insert_row env row st = (x, st') \<Longrightarrow> credentials st' = credentials st"
  by (auto simp: insert_row_def split: if_splits)

lemma calls_keep_credentials:
  "begin_request D env now ctx quota cands st = (b, st') \<Longrightarrow> credentials st' = credentials st"
  "record_rejection env now ctx m e http st = (j, st') \<Longrightarrow> credentials st' = credentials st"
  "finalize_request D env now rid status http usage st = (f, st') \<Longrightarrow> credentials st' = credentials st"
  by (auto simp: begin_request_def record_rejection_def finalize_request_def update_started_def
      split: sum.splits prod.splits option.splits if_splits Admission.splits request_id.splits dest!: insert_row_credentials)

lemma store_reject_leaves:
  assumes "store_ok (as_store a)" "store_reject W k ctx model effort http a = (r, a')"
  shows "leaves_open (wd_decimal W) {} a a'"
proof -
  obtain st where rej: "record_rejection (wd_faults W k) (wd_clock W k) ctx model effort http (as_store a) = (r, st)"
    and a': "a' = a\<lparr>as_store := st\<rparr>"
    using assms(2) by (auto simp: store_reject_def split: prod.splits)
  from rej have "row_started st q = row_started (as_store a) q" for q
    by (auto simp: record_rejection_def rejection_row_def split: sum.splits prod.splits dest!: row_started_insert)
  then show ?thesis
    using store_reject_effect [OF assms(2)] others_may_ok [OF store_reject_effect [OF assms(2)] assms(1)] a'
      calls_keep_credentials(2) [OF rej] by (simp add: leaves_open_def)
qed

lemma store_begin_leaves:
  assumes "store_ok (as_store a)" "store_begin W k ctx quota cands a = (r, a')"
  shows "leaves_open (wd_decimal W) (case r of Inr (Admitted rid _) \<Rightarrow> {rid} | _ \<Rightarrow> {}) a a'"
proof -
  obtain st where b: "begin_request (wd_decimal W) (wd_faults W k) (wd_clock W k) ctx quota cands (as_store a) = (r, st)"
    and a': "a' = a\<lparr>as_store := st\<rparr>"
    using assms(2) by (auto simp: store_begin_def split: prod.splits)
  have "row_started (as_store a) q \<or> q \<in> (case r of Inr (Admitted rid _) \<Rightarrow> {rid} | _ \<Rightarrow> {})"
    if "row_started st q" for q
    using b that
    by (cases q) (auto simp: begin_request_def insert_row_def row_started_def is_started_def admission_row_def
        split: sum.splits prod.splits if_splits)
  then show ?thesis
    using store_begin_effect(1) [OF assms(2)] others_may_ok [OF store_begin_effect(1) [OF assms(2)] assms(1)] a'
      calls_keep_credentials(1) [OF b] by (simp add: leaves_open_def)
qed

text \<open>The shared state, seen as the store of a guard: what the guard relies on holds for it too.\<close>

lemma store_finalize_fins:
  "store_finalize W k r s h u a = (res, a') \<longleftrightarrow>
     (\<exists>st. store_fins (wd_decimal W) (wd_faults W) (wd_clock W) k r s h u (as_store a) = (res, st) \<and>
        a' = a\<lparr>as_store := st\<rparr>)"
  by (auto simp: store_finalize_def store_fins_def split: prod.split)

lemma store_finalize_leaves:
  assumes "leaves_open (wd_decimal W) X a0 a" "store_finalize W k r s h u a = (res, a')"
  shows "leaves_open (wd_decimal W) X a0 a'"
proof -
  from assms(2) have g: "store_fins (wd_decimal W) (wd_faults W) (wd_clock W) k r s h u (as_store a) = (res, as_store a')"
    by (auto simp: store_finalize_fins)
  from assms(1) have ok: "store_ok (as_store a)" by (simp add: leaves_open_def)
  have "row_started (as_store a') q \<Longrightarrow> row_started (as_store a) q" for q
    using sf.others_kept [OF ok g, of q] sf.success_closes [OF ok, of "wd_decimal W" "wd_faults W" "wd_clock W" k r s h u]
      sf.failure_keeps [OF ok, of "wd_decimal W" "wd_faults W" "wd_clock W" k r s h u] g
    by (cases "q = r"; cases res) auto
  moreover from g have "credentials (as_store a') = credentials (as_store a)"
    by (auto simp: store_fins_def dest: calls_keep_credentials(3))
  ultimately show ?thesis using assms(1) store_finalize_effect(1) [OF assms(2)] sf.keeps_ok [OF ok g]
    by (auto simp: leaves_open_def intro: others_may_trans)
qed

interpretation af: finalizer "store_finalize W" "\<lambda>a. row_started (as_store a)" "leaves_open (wd_decimal W) X a0"
  "reliable_at (wd_faults W) (wd_clock W)" for W X a0
proof unfold_locales
  fix a k r s u res a' and h :: "int option"
  assume left: "leaves_open (wd_decimal W) X a0 a" and f: "store_finalize W k r s h u a = (res, a')"
  then show "leaves_open (wd_decimal W) X a0 a'" by (rule store_finalize_leaves)
  from left have ok: "store_ok (as_store a)" by (simp add: leaves_open_def)
  from f have g: "store_fins (wd_decimal W) (wd_faults W) (wd_clock W) k r s h u (as_store a) = (res, as_store a')"
    by (auto simp: store_finalize_fins)
  show "row_started (as_store a') q = row_started (as_store a) q" if "q \<noteq> r" for q
    using sf.others_kept [OF ok g that] .
next
  fix a k r s u x a' and h :: "int option"
  assume left: "leaves_open (wd_decimal W) X a0 a" and f: "store_finalize W k r s h u a = (Inr x, a')"
  then have ok: "store_ok (as_store a)"
    and g: "store_fins (wd_decimal W) (wd_faults W) (wd_clock W) k r s h u (as_store a) = (Inr x, as_store a')"
    by (auto simp: store_finalize_fins leaves_open_def)
  from sf.success_closes [OF ok g] show "row_started (as_store a) r \<and> \<not> row_started (as_store a') r" .
next
  fix a k r s u e a' and h :: "int option"
  assume "leaves_open (wd_decimal W) X a0 a" and f: "store_finalize W k r s h u a = (Inl e, a')"
  then have ok: "store_ok (as_store a)"
    and "store_fins (wd_decimal W) (wd_faults W) (wd_clock W) k r s h u (as_store a) = (Inl e, as_store a')"
    and "a' = a\<lparr>as_store := as_store a'\<rparr>" by (auto simp: store_finalize_fins leaves_open_def)
  with sf.failure_keeps [OF ok] show "a' = a" by fastforce
next
  fix a :: app_state and k r s and h :: "int option"
  assume "leaves_open (wd_decimal W) X a0 a" "reliable_at (wd_faults W) (wd_clock W) k" "row_started (as_store a) r"
    "opt_all (\<lambda>n. 100 \<le> n \<and> n \<le> 599) h"
  then show "\<exists>a'. store_finalize W k r s h None a = (Inr (), a')"
    using sf.reliable_closes [of "as_store a" "wd_faults W" "wd_clock W" k r h "wd_decimal W" s]
    by (fastforce simp: store_finalize_fins leaves_open_def)
qed

text \<open>A handler that holds the guard \<open>p\<close> of the row it opened.\<close>

definition guarded :: "world \<Rightarrow> app_state \<Rightarrow> request_id \<Rightarrow> pending_state \<Rightarrow> app_state \<Rightarrow> bool" where
  "guarded W a0 rid p a \<longleftrightarrow> af.closed_or_guarded W {rid} a0 rid p a"

lemma guarded_leaves: "guarded W a0 rid p a \<Longrightarrow> leaves_open (wd_decimal W) {rid} a0 a"
  by (simp add: guarded_def af.closed_or_guarded_def)

lemma guarded_new: "leaves_open (wd_decimal W) {rid} a0 a \<Longrightarrow> guarded W a0 rid (pending_new rid) a"
  by (simp add: guarded_def af.closed_or_guarded_def af.guards_def pending_new_def)

lemma guarded_frame:
  assumes "as_store b = as_store a" "as_config b = as_config a" "as_client b = as_client a"
  shows "guarded W a0 rid p b = guarded W a0 rid p a"
  by (simp add: guarded_def af.closed_or_guarded_def leaves_open_frame [OF assms] assms(1))

lemma guarded_call:
  assumes "reliable_world W" "guarded W a0 rid p a" "op_http_ok op"
    and "pending_call (store_finalize W k) (store_finalize W j) op p a = Some (p', a')"
  shows "guarded W a0 rid p' a'"
  unfolding guarded_def
  by (rule af.call_keeps_closed [OF assms(2) [unfolded guarded_def] _ _ assms(3,4)])
    (use assms(1) in \<open>simp_all add: reliable_world_def\<close>)

lemma guarded_drop:
  assumes "reliable_world W" "guarded W a0 rid p a"
  shows "leaves_open (wd_decimal W) {} a0 (pending_drop (store_finalize W k) p a)"
proof -
  from assms(2) have c: "af.closed_or_guarded W {rid} a0 rid p a" by (simp add: guarded_def)
  let ?a = "pending_drop (store_finalize W k) p a"
  have "\<not> row_started (as_store ?a) rid"
    by (rule af.drop_closes [OF c]) (use assms(1) in \<open>simp add: reliable_world_def\<close>)
  moreover have "leaves_open (wd_decimal W) {rid} a0 ?a"
    using c af.fin_effect(1) by (cases p) (auto simp: af.closed_or_guarded_def)
  ultimately show ?thesis by (auto simp: leaves_open_def)
qed

lemma guarded_finish:
  assumes "reliable_world W" "guarded W a0 rid (Open q) a" "opt_all (\<lambda>n. 100 \<le> n \<and> n \<le> 599) http"
  obtains r a' where "finish (store_finalize W k) status http None (Open q) a = Some (r, Finalized, a')"
    "guarded W a0 rid Finalized a'"
proof -
  obtain r a' where f: "finish (store_finalize W k) status http None (Open q) a = Some (r, Finalized, a')"
    by (rule finish_open)
  have "guarded W a0 rid Finalized a'"
    by (rule guarded_call [OF assms(1,2), of "Finish status http" k k])
      (use assms(3) f in \<open>simp_all add: op_http_ok_def\<close>)
  with f that show ?thesis by blast
qed

lemma guarded_finish_terminal:
  assumes "reliable_world W" "guarded W a0 rid (Open q) a" "100 \<le> h" "h \<le> 599" "100 \<le> h2" "h2 \<le> 599"
  shows "\<exists>r a'. finish_terminal (store_finalize W k) (store_finalize W j) status h h2 u (Open q) a =
      Some (r, Finalized, a') \<and> guarded W a0 rid Finalized a'"
proof -
  obtain r a' where f: "finish_terminal (store_finalize W k) (store_finalize W j) status h h2 u (Open q) a =
      Some (r, Finalized, a')"
    by (rule finish_terminal_open)
  have "guarded W a0 rid Finalized a'"
    by (rule guarded_call [OF assms(1,2), of "Finish_Terminal status h h2 u" k j])
      (use assms(3-6) f in \<open>simp_all add: op_http_ok_def\<close>)
  with f show ?thesis by blast
qed

end
