(* ===== verification/Ws_Session.thy ===== *)
theory Ws_Session
  imports App_State
begin

text \<open>
  The WebSocket endpoint (\<open>src/ws.rs\<close>): one connection to the client, one to the upstream, and at most
  one response in flight between them. \<open>run\<close> takes what its \<open>select!\<close> yields: a shutdown, a message of
  the client or its end, or the next item of the upstream. A close code is the number it stands for on
  both sides. \<open>ws_admitted\<close> is not part of the code: it lists the rows this connection opened, so that
  the properties can speak of them.
\<close>

section \<open>State\<close>

datatype downstream_message =
    DM_Text string
  | DM_Binary string
  | DM_Ping string
  | DM_Pong string
  | DM_Close "close_frame option"

record in_flight =
  if_request_id :: request_id
  if_rates :: model_rates

record prepared_request =
  pr_payload :: json
  pr_context :: request_context
  pr_candidates :: model_candidates

record validation_error =
  ve_param :: string
  ve_message :: string

record ws_session =
  ws_downstream :: "downstream_message list"
  ws_down_ok :: "nat \<Rightarrow> bool"
  ws_upstream :: upstream_socket
  ws_app :: app_state
  ws_identity :: client_identity
  ws_active :: "in_flight option"
  ws_admitted :: "request_id list"

datatype ConnectionEvent =
    Event_Shutdown
  | Event_ClientGone
  | Event_Downstream downstream_message
  | Event_UpstreamGone
  | Event_Upstream upstream_message

datatype ConnectionEnd =
    End_Shutdown
  | End_ClientDisconnect "close_frame option"
  | End_ClientProtocolError
  | End_UpstreamFailure
  | End_UpstreamClosed "close_frame option"
  | End_InternalFailure
  | End_AccountingFailure

definition down_send :: "downstream_message \<Rightarrow> ws_session \<Rightarrow> bool \<times> ws_session" where
  "down_send m s = (ws_down_ok s (length (ws_downstream s)), s\<lparr>ws_downstream := ws_downstream s @ [m]\<rparr>)"

definition up_send :: "upstream_message \<Rightarrow> ws_session \<Rightarrow> bool \<times> ws_session" where
  "up_send m s = (case socket_send m (ws_upstream s) of (ok, k) \<Rightarrow> (ok, s\<lparr>ws_upstream := k\<rparr>))"

definition forward_down :: "downstream_message \<Rightarrow> ws_session \<Rightarrow> ConnectionEnd option \<times> ws_session" where
  "forward_down m s = (case down_send m s of (ok, s') \<Rightarrow> (if ok then None else Some (End_ClientDisconnect None), s'))"

definition forward_up :: "upstream_message \<Rightarrow> ws_session \<Rightarrow> ConnectionEnd option \<times> ws_session" where
  "forward_up m s = (case up_send m s of (ok, s') \<Rightarrow> (if ok then None else Some End_UpstreamFailure, s'))"

definition send_error :: "world \<Rightarrow> json \<Rightarrow> ws_session \<Rightarrow> ConnectionEnd option \<times> ws_session" where
  "send_error W err s = forward_down (DM_Text (wd_print W err)) s"

section \<open>Requests\<close>

text \<open>The string form of \<open>input\<close> becomes a user message.\<close>

definition user_message :: "string \<Rightarrow> json" where
  "user_message t =
     JArr [jobj [(''type'', JStr ''message''), (''role'', JStr ''user''),
       (''content'', JArr [jobj [(''type'', JStr ''input_text''), (''text'', JStr t)]])]]"

definition expand_input :: "jobject \<Rightarrow> jobject" where
  "expand_input m = (case map_of m ''input'' of Some (JStr t) \<Rightarrow> bmap_insert ''input'' (user_message t) m | _ \<Rightarrow> m)"

definition ws_context :: "client_identity \<Rightarrow> request_context" where
  "ws_context ident =
     \<lparr>ctx_api_key_id = client_id ident, ctx_api_protocol = Responses, ctx_transport = WebSocket\<rparr>"

definition requested_model :: "json \<Rightarrow> string option" where
  "requested_model v = opt_bind (jget v ''model'') as_str"

definition nested_effort :: "json \<Rightarrow> string option" where
  "nested_effort v = opt_bind (opt_bind (jget v ''reasoning'') (\<lambda>r. jget r ''effort'')) as_str"

text \<open>The checks of \<open>prepare_request\<close> in their order; the outer \<open>None\<close> is a panic of the model lookup.\<close>

definition validate_create ::
  "config \<Rightarrow> json \<Rightarrow> (validation_error + model_candidates \<times> jobject) option" where
  "validate_create c v =
     (case as_object v of
        None \<Rightarrow> Some (Inl \<lparr>ve_param = ''type'', ve_message = ''WebSocket messages must be response.create objects''\<rparr>)
      | Some m \<Rightarrow>
          if opt_bind (map_of m ''type'') as_str \<noteq> Some ''response.create''
          then Some (Inl \<lparr>ve_param = ''type'', ve_message = ''Only response.create messages are supported''\<rparr>)
          else
            (case opt_bind (map_of m ''model'') as_str of
               None \<Rightarrow> Some (Inl \<lparr>ve_param = ''model'', ve_message = ''response.create requires a model''\<rparr>)
             | Some model \<Rightarrow>
                 (case model_candidates_for c model (nested_effort v) of
                    None \<Rightarrow> None
                  | Some None \<Rightarrow>
                      Some (Inl \<lparr>ve_param = ''model'', ve_message = ''The requested model is not configured''\<rparr>)
                  | Some (Some candidates) \<Rightarrow>
                      Some
                        (if \<not> opt_all (\<lambda>stream. as_bool stream = Some True) (map_of m ''stream'')
                         then Inl \<lparr>ve_param = ''stream'', ve_message = ''stream must be true in WebSocket mode''\<rparr>
                         else if map_of m ''background'' \<noteq> None
                         then Inl \<lparr>ve_param = ''background'', ve_message = ''background is not used in WebSocket mode''\<rparr>
                         else if map_of m ''max_output_tokens'' \<noteq> None
                         then Inl \<lparr>ve_param = ''max_output_tokens'',
                           ve_message = ''max_output_tokens is not supported by the ChatGPT Codex upstream''\<rparr>
                         else if \<not> opt_all (\<lambda>st. is_null st \<or> as_bool st = Some False) (map_of m ''store'')
                         then Inl \<lparr>ve_param = ''store'', ve_message = ''store must be false in WebSocket mode''\<rparr>
                         else Inr (candidates,
                           bmap_insert ''stream'' (JBool True) (bmap_insert ''store'' (JBool False) (expand_input m)))))))"

definition prepare_request ::
  "config \<Rightarrow> client_identity \<Rightarrow> json \<Rightarrow> (json \<times> validation_error + prepared_request) option" where
  "prepare_request c ident v =
     map_option (\<lambda>r. case r of
         Inl e \<Rightarrow> Inl (v, e)
       | Inr (candidates, m) \<Rightarrow>
           Inr \<lparr>pr_payload = JObj m, pr_context = ws_context ident, pr_candidates = candidates\<rparr>)
       (validate_create c v)"

definition ws_record_rejection :: "world \<Rightarrow> nat \<Rightarrow> json \<Rightarrow> ws_session \<Rightarrow> (StoreError + unit) \<times> ws_session" where
  "ws_record_rejection W k v s =
     (case store_reject W k (ws_context (ws_identity s)) (str_or '''' (requested_model v)) (nested_effort v) None
             (ws_app s) of
        (r, a) \<Rightarrow> (r, s\<lparr>ws_app := a\<rparr>))"

definition ws_reject :: "world \<Rightarrow> nat \<Rightarrow> json \<Rightarrow> json \<Rightarrow> ws_session \<Rightarrow> ConnectionEnd option \<times> ws_session" where
  "ws_reject W k v err s =
     (case ws_record_rejection W k v s of
        (Inl _, s') \<Rightarrow> (Some End_InternalFailure, s')
      | (Inr _, s') \<Rightarrow> send_error W err s')"

text \<open>\<open>let _ = self.state.store.finalize_request(..)\<close> on the row of this connection.\<close>

definition ws_finalize ::
  "world \<Rightarrow> nat \<Rightarrow> request_id \<Rightarrow> FinalStatus \<Rightarrow> billable_usage option \<Rightarrow> ws_session \<Rightarrow>
     (StoreError + unit) \<times> ws_session" where
  "ws_finalize W k rid status usage s =
     (case store_finalize W k rid status None usage (ws_app s) of (r, a) \<Rightarrow> (r, s\<lparr>ws_app := a\<rparr>))"

definition fail_create :: "world \<Rightarrow> nat \<Rightarrow> request_id \<Rightarrow> ws_session \<Rightarrow> ConnectionEnd option \<times> ws_session" where
  "fail_create W k rid s = (Some End_UpstreamFailure, snd (ws_finalize W k rid UpstreamError None s))"

text \<open>An admitted request: refused while another is in flight, else sent upstream.\<close>

definition refuse_create :: "world \<Rightarrow> nat \<Rightarrow> request_id \<Rightarrow> ws_session \<Rightarrow> ConnectionEnd option \<times> ws_session" where
  "refuse_create W k rid s =
     (case ws_finalize W k rid Rejected None s of
        (Inl _, s') \<Rightarrow> (Some End_InternalFailure, s')
      | (Inr _, s') \<Rightarrow>
          send_error W (websocket_error ''response_in_progress'' None
            ''A response is already in progress on this connection'') s')"

definition send_create ::
  "world \<Rightarrow> nat \<Rightarrow> request_id \<Rightarrow> effective_model \<Rightarrow> json \<Rightarrow> ws_session \<Rightarrow>
     (ConnectionEnd option \<times> ws_session) progress" where
  "send_create W k rid em payload s =
     and_then (or_panic (apply_effective_request payload em)) (\<lambda>request.
     case lookup_model W k (em_model em) (ws_app s) of
       (found, a) \<Rightarrow>
         (let s = s\<lparr>ws_app := a\<rparr> in
          case res_bind (map_err (\<lambda>_. ()) found) (\<lambda>m.
                 ok_or () (opt_filter (\<lambda>model. opt_bind (jget model ''use_responses_lite'') as_bool = Some True) m)) of
            Inl _ \<Rightarrow> Returned (fail_create W k rid s)
          | Inr model \<Rightarrow>
              (case prepare_responses_lite (wd_parse W) (wd_print W) request model (request_key_of rid)
                      (ws_upstream s) of
                 None \<Rightarrow> Waiting
               | Some (Inl _, k') \<Rightarrow> Returned (fail_create W k rid (s\<lparr>ws_upstream := k'\<rparr>))
               | Some (Inr prepared, k') \<Rightarrow>
                   and_then (or_panic prepared) (\<lambda>request.
                   case up_send (UM_Text (wd_print W request)) (s\<lparr>ws_upstream := k'\<rparr>) of
                     (ok, s) \<Rightarrow>
                       Returned
                         (if ok
                          then (None, s\<lparr>ws_active := Some \<lparr>if_request_id = rid, if_rates = em_rates em\<rparr>\<rparr>)
                          else fail_create W k rid s)))))"

definition handle_create :: "world \<Rightarrow> nat \<Rightarrow> string \<Rightarrow> ws_session \<Rightarrow> (ConnectionEnd option \<times> ws_session) progress" where
  "handle_create W k t s =
     (case wd_parse W t of
        None \<Rightarrow>
          Returned (ws_reject W k JNull
            (websocket_error ''invalid_request_error'' None ''response.create must be valid JSON'') s)
      | Some v \<Rightarrow>
          (case prepare_request (as_config (ws_app s)) (ws_identity s) v of
             None \<Rightarrow> Panics
           | Some (Inl (v, e)) \<Rightarrow>
               Returned (ws_reject W k v
                 (websocket_error ''invalid_request_error'' (Some (ve_param e)) (ve_message e)) s)
           | Some (Inr prepared) \<Rightarrow>
               (case store_begin W k (pr_context prepared) (client_quota (ws_identity s)) (pr_candidates prepared)
                       (ws_app s) of
                  (Inl _, a) \<Rightarrow> Returned (Some End_InternalFailure, s\<lparr>ws_app := a\<rparr>)
                | (Inr WeeklyQuotaExceeded, a) \<Rightarrow>
                    Returned (send_error W (websocket_error ''weekly_quota_exceeded'' None
                      ''The configured weekly quota has been exceeded'') (s\<lparr>ws_app := a\<rparr>))
                | (Inr (Admitted rid em), a) \<Rightarrow>
                    (let s = s\<lparr>ws_app := a, ws_admitted := rid # ws_admitted s\<rparr> in
                     if ws_active s \<noteq> None then Returned (refuse_create W (Suc k) rid s)
                     else send_create W (Suc k) rid em (pr_payload prepared) s))))"

definition handle_downstream ::
  "world \<Rightarrow> nat \<Rightarrow> downstream_message \<Rightarrow> ws_session \<Rightarrow> (ConnectionEnd option \<times> ws_session) progress" where
  "handle_downstream W k m s =
     (case m of
        DM_Text t \<Rightarrow> handle_create W k t s
      | DM_Binary _ \<Rightarrow> Returned (Some End_ClientProtocolError, s)
      | DM_Ping payload \<Rightarrow> Returned (forward_up (UM_Ping payload) s)
      | DM_Pong payload \<Rightarrow> Returned (forward_up (UM_Pong payload) s)
      | DM_Close frame \<Rightarrow> Returned (Some (End_ClientDisconnect frame), s))"

section \<open>Answers\<close>

definition handle_upstream_text ::
  "world \<Rightarrow> nat \<Rightarrow> string \<Rightarrow> ws_session \<Rightarrow> (ConnectionEnd option \<times> ws_session) progress" where
  "handle_upstream_text W k t s =
     (case read_text (wd_parse W) (wd_http_date_ok W) t of
        None \<Rightarrow> Panics
      | Some None \<Rightarrow> Returned (Some End_UpstreamFailure, s)
      | Some (Some (name, event, None)) \<Rightarrow> Returned (forward_down (DM_Text t) s)
      | Some (Some (name, event, Some (terminal, rewritten))) \<Rightarrow>
          (case ws_active s of
             None \<Rightarrow> Returned (Some End_UpstreamFailure, s)
           | Some active \<Rightarrow>
               (case ws_finalize W k (if_request_id active) (final_status_of_kind (te_kind terminal))
                       (map_option (\<lambda>u. to_billable_usage u (if_rates active)) (te_usage terminal))
                       (s\<lparr>ws_active := None\<rparr>) of
                  (Inl _, s') \<Rightarrow>
                    Returned (Some End_AccountingFailure,
                      snd (ws_finalize W (Suc k) (if_request_id active) UpstreamError None s'))
                | (Inr _, s') \<Rightarrow>
                    Returned (forward_down
                      (DM_Text (case rewritten of None \<Rightarrow> t | Some payload \<Rightarrow> wd_print W payload)) s'))))"

definition handle_upstream ::
  "world \<Rightarrow> nat \<Rightarrow> upstream_message \<Rightarrow> ws_session \<Rightarrow> (ConnectionEnd option \<times> ws_session) progress" where
  "handle_upstream W k m s =
     (case m of
        UM_Text t \<Rightarrow> handle_upstream_text W k t s
      | UM_Binary _ \<Rightarrow> Returned (Some End_UpstreamFailure, s)
      | UM_Frame _ \<Rightarrow> Returned (Some End_UpstreamFailure, s)
      | UM_Ping payload \<Rightarrow> Returned (forward_down (DM_Ping payload) s)
      | UM_Pong payload \<Rightarrow> Returned (forward_down (DM_Pong payload) s)
      | UM_Close frame \<Rightarrow> Returned (Some (End_UpstreamClosed frame), s))"

section \<open>The end\<close>

definition finalize_active :: "world \<Rightarrow> nat \<Rightarrow> FinalStatus \<Rightarrow> ws_session \<Rightarrow> ws_session" where
  "finalize_active W k status s =
     (case ws_active s of
        None \<Rightarrow> s
      | Some active \<Rightarrow> snd (ws_finalize W k (if_request_id active) status None (s\<lparr>ws_active := None\<rparr>)))"

definition close_downstream :: "nat \<Rightarrow> string \<Rightarrow> ws_session \<Rightarrow> ws_session" where
  "close_downstream code reason s =
     snd (down_send (DM_Close (Some \<lparr>close_code = code, close_reason = reason\<rparr>)) s)"

definition close_upstream :: "close_frame option \<Rightarrow> ws_session \<Rightarrow> ws_session" where
  "close_upstream frame s = snd (up_send (UM_Close frame) s)"

definition normal_close :: "close_frame option \<Rightarrow> bool" where
  "normal_close frame = (case frame of None \<Rightarrow> True | Some f \<Rightarrow> close_code f = 1000 \<or> close_code f = 1001)"

definition finish_session :: "world \<Rightarrow> nat \<Rightarrow> ConnectionEnd \<Rightarrow> ws_session \<Rightarrow> ws_session" where
  "finish_session W k ending s =
     (case ending of
        End_Shutdown \<Rightarrow>
          close_downstream 1001 ''Server is shutting down''
            (close_upstream (Some \<lparr>close_code = 1001, close_reason = ''Server is shutting down''\<rparr>)
              (finalize_active W k Canceled s))
      | End_ClientDisconnect frame \<Rightarrow> close_upstream frame (finalize_active W k Canceled s)
      | End_ClientProtocolError \<Rightarrow>
          close_downstream 1003 ''Binary application messages are unsupported''
            (close_upstream
              (Some \<lparr>close_code = 1003, close_reason = ''Binary application messages are unsupported''\<rparr>)
              (finalize_active W k Canceled s))
      | End_UpstreamFailure \<Rightarrow>
          close_downstream 1011 ''Upstream WebSocket failure'' (finalize_active W k UpstreamError s)
      | End_UpstreamClosed frame \<Rightarrow>
          (if ws_active s \<noteq> None \<or> \<not> normal_close frame
           then close_downstream 1011 ''Upstream WebSocket failure'' (finalize_active W k UpstreamError s)
           else snd (down_send (DM_Close frame) s))
      | End_InternalFailure \<Rightarrow>
          close_downstream 1011 ''Internal WebSocket failure''
            (close_upstream None (finalize_active W k InternalError s))
      | End_AccountingFailure \<Rightarrow>
          close_upstream None (close_downstream 1011 ''Internal WebSocket accounting failure'' s))"

section \<open>The loop\<close>

datatype ws_pick = Pick_Shutdown | Pick_Downstream "downstream_message option" | Pick_Upstream

text \<open>The event the loop wakes up with; \<open>None\<close> while the upstream has nothing to deliver.\<close>

fun next_event :: "ws_pick \<Rightarrow> ws_session \<Rightarrow> (ConnectionEvent \<times> ws_session) option" where
  "next_event Pick_Shutdown s = Some (Event_Shutdown, s)"
| "next_event (Pick_Downstream m) s =
     Some (case m of None \<Rightarrow> Event_ClientGone | Some m \<Rightarrow> Event_Downstream m, s)"
| "next_event Pick_Upstream s =
     (case sk_incoming (ws_upstream s) of
        [] \<Rightarrow> None
      | item # items \<Rightarrow>
          Some (case item of Received m \<Rightarrow> Event_Upstream m | _ \<Rightarrow> Event_UpstreamGone,
            s\<lparr>ws_upstream := (ws_upstream s)\<lparr>sk_incoming := items\<rparr>\<rparr>))"

definition handle_event ::
  "world \<Rightarrow> nat \<Rightarrow> ConnectionEvent \<Rightarrow> ws_session \<Rightarrow> (ConnectionEnd option \<times> ws_session) progress" where
  "handle_event W k ev s =
     (case ev of
        Event_Shutdown \<Rightarrow> Returned (Some End_Shutdown, s)
      | Event_ClientGone \<Rightarrow> Returned (Some (End_ClientDisconnect None), s)
      | Event_Downstream m \<Rightarrow> handle_downstream W k m s
      | Event_UpstreamGone \<Rightarrow> Returned (Some End_UpstreamFailure, s)
      | Event_Upstream m \<Rightarrow> handle_upstream W k m s)"

definition ws_turn :: "world \<Rightarrow> nat \<Rightarrow> ws_pick \<Rightarrow> ws_session \<Rightarrow> (ConnectionEnd option \<times> ws_session) progress" where
  "ws_turn W k p s =
     (case next_event p s of None \<Rightarrow> Waiting | Some (ev, s') \<Rightarrow> handle_event W k ev s')"

text \<open>The other tasks act on the shared state before every event, as \<open>others\<close> says. Each turn has
  three moments of its own: two for its calls, one for those of the end.\<close>

fun ws_run :: "world \<Rightarrow> (nat \<Rightarrow> app_state \<Rightarrow> app_state) \<Rightarrow> nat \<Rightarrow> ws_pick list \<Rightarrow> ws_session \<Rightarrow> ws_session progress" where
  "ws_run W others n [] s = Waiting"
| "ws_run W others n (p # ps) s =
     and_then (ws_turn W (3 * n) p (s\<lparr>ws_app := others n (ws_app s)\<rparr>)) (\<lambda>(ended, s').
     case ended of
       None \<Rightarrow> ws_run W others (Suc n) ps s'
     | Some ending \<Rightarrow> Returned (finish_session W (3 * n + 2) ending s'))"

text \<open>\<open>responses_websocket\<close>: refused, or a session on a fresh upstream connection. \<open>None\<close> is the panic
  of the URL.\<close>

definition responses_websocket ::
  "(string \<Rightarrow> string option) \<Rightarrow> (string \<Rightarrow> string \<Rightarrow> bool) \<Rightarrow> (header_map \<Rightarrow> (UpstreamWebSocketError + upstream_socket) option) \<Rightarrow>
     bool \<Rightarrow> (nat \<Rightarrow> bool) \<Rightarrow> header_map \<Rightarrow> app_state \<Rightarrow> (api_error + ws_session) option" where
  "responses_websocket to_str ct_eq connect shutting_down down_ok headers a =
     (case authenticate to_str ct_eq headers (as_config a) of
        Inl e \<Rightarrow> Some (Inl e)
      | Inr ident \<Rightarrow>
          if shutting_down then Some (Inl shutdown)
          else
            (case connect headers of
               None \<Rightarrow> None
             | Some (Inl _) \<Rightarrow> Some (Inl (gateway ''Failed to connect to the upstream WebSocket''))
             | Some (Inr k) \<Rightarrow>
                 Some (Inr \<lparr>ws_downstream = [], ws_down_ok = down_ok, ws_upstream = k, ws_app = a,
                   ws_identity = ident, ws_active = None, ws_admitted = []\<rparr>)))"


section \<open>Every row is closed\<close>

text \<open>
  The invariant of a connection: the rows it opened are closed, except the one in flight and those of
  \<open>X\<close>, on which the handler is still working.
\<close>

definition in_flight_row :: "ws_session \<Rightarrow> request_id \<Rightarrow> bool" where
  "in_flight_row s r \<longleftrightarrow> (\<exists>f. ws_active s = Some f \<and> if_request_id f = r)"

definition ws_inv :: "request_id set \<Rightarrow> ws_session \<Rightarrow> bool" where
  "ws_inv X s \<longleftrightarrow>
     store_ok (as_store (ws_app s)) \<and> config_ok (as_config (ws_app s)) \<and>
     (\<forall>r \<in> set (ws_admitted s). row_known r (as_store (ws_app s)) \<and>
        (row_closed r (as_store (ws_app s)) \<or> in_flight_row s r \<or> r \<in> X)) \<and>
     (\<forall>r. in_flight_row s r \<longrightarrow> r \<in> set (ws_admitted s))"

lemma ws_inv_frame:
  assumes "ws_inv X s" "others_may D (ws_app s) (ws_app s')"
    and "ws_active s' = ws_active s" "ws_admitted s' = ws_admitted s"
  shows "ws_inv X s'"
  using assms row_known_steps row_closed_steps store_ok_steps
  unfolding ws_inv_def others_may_def in_flight_row_def by metis

lemma ws_inv_update [simp]:
  "ws_inv X (s\<lparr>ws_upstream := k\<rparr>) = ws_inv X s"
  "ws_inv X (s\<lparr>ws_downstream := ds\<rparr>) = ws_inv X s"
  by (simp_all add: ws_inv_def in_flight_row_def)

lemma send_keeps:
  "ws_inv X (snd (down_send m s)) = ws_inv X s" "ws_active (snd (down_send m s)) = ws_active s"
  "ws_admitted (snd (down_send m s)) = ws_admitted s" "ws_app (snd (down_send m s)) = ws_app s"
  "ws_inv X (snd (up_send u s)) = ws_inv X s" "ws_active (snd (up_send u s)) = ws_active s"
  "ws_admitted (snd (up_send u s)) = ws_admitted s" "ws_app (snd (up_send u s)) = ws_app s"
  by (simp_all add: down_send_def up_send_def split: prod.split)

lemma forward_keeps:
  "ws_inv X (snd (forward_down m s)) = ws_inv X s" "ws_inv X (snd (forward_up u s)) = ws_inv X s"
  "ws_inv X (snd (send_error W e s)) = ws_inv X s"
  using send_keeps(1) [of X m s] send_keeps(5) [of X u s] send_keeps(1) [of X "DM_Text (wd_print W e)" s]
  by (auto simp: forward_down_def forward_up_def send_error_def split: prod.splits)

lemma forward_never_accounting:
  "fst (forward_down m s) \<noteq> Some End_AccountingFailure" "fst (forward_up u s) \<noteq> Some End_AccountingFailure"
  "fst (send_error W e s) \<noteq> Some End_AccountingFailure"
  by (simp_all add: forward_down_def forward_up_def send_error_def split: prod.split)

lemma ws_finalize_keeps:
  assumes "ws_finalize W k rid status usage s = (r, s')"
  shows "others_may (wd_decimal W) (ws_app s) (ws_app s')" "ws_active s' = ws_active s"
    "ws_admitted s' = ws_admitted s"
  using assms store_finalize_effect by (auto simp: ws_finalize_def split: prod.splits)

lemma ws_inv_closed_row:
  assumes "ws_inv X s" "others_may D (ws_app s) (ws_app s')" "ws_active s' = ws_active s"
    and "ws_admitted s' = ws_admitted s" "rid \<in> set (ws_admitted s) \<Longrightarrow> row_closed rid (as_store (ws_app s'))"
  shows "ws_inv (X - {rid}) s'"
  using ws_inv_frame [OF assms(1-4)] assms(4,5) by (auto simp: ws_inv_def)

lemma ws_inv_finalize:
  assumes rel: "reliable_world W" and inv: "ws_inv X s" and fin: "ws_finalize W k rid status None s = (r, s')"
  shows "ws_inv (X - {rid}) s'"
proof (rule ws_inv_closed_row [OF inv ws_finalize_keeps [OF fin]])
  assume "rid \<in> set (ws_admitted s)"
  with inv have "store_ok (as_store (ws_app s))" "row_known rid (as_store (ws_app s))"
    by (auto simp: ws_inv_def)
  moreover obtain a where "store_finalize W k rid status None None (ws_app s) = (r, a)" "s' = s\<lparr>ws_app := a\<rparr>"
    using fin by (auto simp: ws_finalize_def split: prod.splits)
  ultimately show "row_closed rid (as_store (ws_app s'))"
    using store_finalize_closes [OF rel, of "ws_app s" rid None k status r a] by simp
qed

lemma ws_inv_finalize_success:
  assumes inv: "ws_inv X s" and fin: "ws_finalize W k rid status usage s = (Inr x, s')"
  shows "ws_inv (X - {rid}) s'"
proof (rule ws_inv_closed_row [OF inv ws_finalize_keeps [OF fin]])
  assume "rid \<in> set (ws_admitted s)"
  with inv have "store_ok (as_store (ws_app s))" "row_known rid (as_store (ws_app s))"
    by (auto simp: ws_inv_def)
  moreover obtain a where "store_finalize W k rid status None usage (ws_app s) = (Inr x, a)" "s' = s\<lparr>ws_app := a\<rparr>"
    using fin by (auto simp: ws_finalize_def split: prod.splits)
  ultimately show "row_closed rid (as_store (ws_app s'))"
    using store_finalize_success [of "ws_app s" rid W k status None usage x a] by simp
qed

lemma ws_inv_take:
  assumes "ws_inv X s" "ws_active s = Some f"
  shows "ws_inv (insert (if_request_id f) X) (s\<lparr>ws_active := None\<rparr>)"
  using assms by (auto simp: ws_inv_def in_flight_row_def)

lemma ws_inv_admit:
  assumes "ws_inv {} s" "store_begin W k ctx quota cands (ws_app s) = (Inr (Admitted rid em), a)"
  shows "ws_inv {rid} (s\<lparr>ws_app := a, ws_admitted := rid # ws_admitted s\<rparr>)"
proof -
  have "ws_inv {} (s\<lparr>ws_app := a\<rparr>)"
    using assms(1) by (rule ws_inv_frame) (use store_begin_effect(1) [OF assms(2)] in simp_all)
  moreover have "row_known rid (as_store a)"
    using store_begin_effect(2) [OF assms(2)] assms(1) by (simp add: ws_inv_def)
  ultimately show ?thesis by (auto simp: ws_inv_def in_flight_row_def)
qed

lemma ws_inv_activate:
  assumes "ws_inv {rid} s" "rid \<in> set (ws_admitted s)" "ws_active s = None"
  shows "ws_inv {} (s\<lparr>ws_active := Some \<lparr>if_request_id = rid, if_rates = rates\<rparr>\<rparr>)"
  using assms by (auto simp: ws_inv_def in_flight_row_def)

lemma fail_create_ok:
  assumes "reliable_world W" "ws_inv {rid} s"
  shows "ws_inv {} (snd (fail_create W k rid s))" "fst (fail_create W k rid s) = Some End_UpstreamFailure"
proof -
  obtain r s' where f: "ws_finalize W k rid UpstreamError None s = (r, s')" by fastforce
  from ws_inv_finalize [OF assms f] f show "ws_inv {} (snd (fail_create W k rid s))"
    by (simp add: fail_create_def)
qed (simp add: fail_create_def)

lemma refuse_create_ok:
  assumes "reliable_world W" "ws_inv {rid} s"
  shows "ws_inv {} (snd (refuse_create W k rid s))" "fst (refuse_create W k rid s) \<noteq> Some End_AccountingFailure"
proof -
  obtain r s' where f: "ws_finalize W k rid Rejected None s = (r, s')" by fastforce
  from ws_inv_finalize [OF assms f] have "ws_inv {} s'" by simp
  then show "ws_inv {} (snd (refuse_create W k rid s))"
    using f by (cases r) (simp_all add: refuse_create_def forward_keeps)
  show "fst (refuse_create W k rid s) \<noteq> Some End_AccountingFailure"
    using f by (cases r) (simp_all add: refuse_create_def forward_never_accounting)
qed


text \<open>The handlers keep the invariant, and end with an accounting failure only with nothing in flight.\<close>

definition turn_keeps :: "(ConnectionEnd option \<times> ws_session) progress \<Rightarrow> bool" where
  "turn_keeps m \<longleftrightarrow> m \<noteq> Panics \<and>
     (\<forall>e s'. m = Returned (e, s') \<longrightarrow> ws_inv {} s' \<and> (e = Some End_AccountingFailure \<longrightarrow> ws_active s' = None))"

lemma turn_keeps_Returned:
  "turn_keeps (Returned x) \<longleftrightarrow> ws_inv {} (snd x) \<and> (fst x = Some End_AccountingFailure \<longrightarrow> ws_active (snd x) = None)"
  by (cases x) (simp add: turn_keeps_def)

lemma turn_keeps_Waiting [simp]: "turn_keeps Waiting"
  by (simp add: turn_keeps_def)

lemmas turn_keeps_forward = turn_keeps_Returned forward_keeps forward_never_accounting

lemma prepare_responses_lite_no_panic:
  "prepare_responses_lite parse print request model key k = Some (Inr prepared, k') \<Longrightarrow> prepared \<noteq> None"
  by (auto simp: prepare_responses_lite_def responses_lite_prewarm_def Let_def result_simps
      split: if_splits sum.splits)

lemma send_create_keeps:
  assumes rel: "reliable_world W" and inv: "ws_inv {rid} s" "rid \<in> set (ws_admitted s)" "ws_active s = None"
    and applied: "apply_effective_request payload em \<noteq> None"
  shows "turn_keeps (send_create W k rid em payload s)"
proof -
  from applied obtain request where request: "apply_effective_request payload em = Some request" by blast
  obtain found a where l: "lookup_model W k (em_model em) (ws_app s) = (found, a)" by fastforce
  let ?s = "s\<lparr>ws_app := a\<rparr>"
  have s: "ws_inv {rid} ?s"
    using inv(1) by (rule ws_inv_frame) (use lookup_model_others [OF l, of "wd_decimal W"] in simp_all)
  let ?m = "res_bind (map_err (\<lambda>_. ()) found) (\<lambda>m.
     ok_or () (opt_filter (\<lambda>model. opt_bind (jget model ''use_responses_lite'') as_bool = Some True) m))"
  have failed: "turn_keeps (Returned (fail_create W k rid (?s\<lparr>ws_upstream := u\<rparr>)))"
    "turn_keeps (Returned (fail_create W k rid ?s))" for u
    using fail_create_ok [OF rel, of rid] s by (simp_all add: turn_keeps_Returned)
  show ?thesis
  proof (cases ?m)
    case (Inl e)
    then show ?thesis using request l failed by (simp add: send_create_def)
  next
    case (Inr model)
    let ?p = "prepare_responses_lite (wd_parse W) (wd_print W) request model (request_key_of rid) (ws_upstream ?s)"
    show ?thesis
    proof (cases ?p)
      case None
      then show ?thesis using request l Inr by (simp add: send_create_def)
    next
      case (Some x)
      obtain r u where x: "x = (r, u)" by (cases x)
      show ?thesis
      proof (cases r)
        case (Inl e)
        then show ?thesis using request l \<open>?m = Inr model\<close> Some x failed by (simp add: send_create_def)
      next
        case (Inr prepared)
        with Some x obtain req where req: "prepared = Some req"
          using prepare_responses_lite_no_panic by blast
        obtain ok u' where send: "socket_send (UM_Text (wd_print W req)) u = (ok, u')" by fastforce
        have "ws_inv {} (?s\<lparr>ws_upstream := u', ws_active := Some \<lparr>if_request_id = rid, if_rates = em_rates em\<rparr>\<rparr>)"
          using s inv by (intro ws_inv_activate) simp_all
        then show ?thesis
          using request l \<open>?m = Inr model\<close> Some x Inr req send failed
          by (simp add: send_create_def up_send_def turn_keeps_Returned Let_def)
      qed
    qed
  qed
qed


lemma nested_effort_pointer: "nested_effort v = requested_effort v"
  by (cases "jget v ''reasoning''"; cases "jget (the (jget v ''reasoning'')) ''effort''")
    (simp_all add: nested_effort_def requested_effort_def)

lemma expand_input_other: "key \<noteq> ''input'' \<Longrightarrow> map_of (expand_input m) key = map_of m key"
  by (simp add: expand_input_def split: option.split json.split)

lemma validate_create_Inr:
  assumes "validate_create c v = Some (Inr (cands, m'))"
  obtains m model where "v = JObj m" "model_candidates_for c model (requested_effort v) = Some (Some cands)"
    "m' = bmap_insert ''stream'' (JBool True) (bmap_insert ''store'' (JBool False) (expand_input m))"
  using assms
  by (auto simp: validate_create_def nested_effort_pointer split: option.splits if_splits)

lemma requested_effort_expanded:
  "requested_effort (JObj (bmap_insert ''stream'' x (bmap_insert ''store'' y (expand_input m)))) =
     requested_effort (JObj m)"
  by (simp add: requested_effort_def expand_input_other)

lemma validate_create_no_panic: "config_ok c \<Longrightarrow> validate_create c v \<noteq> None"
  using model_candidates_for_cases [of c]
  by (auto simp: validate_create_def split: option.splits) (metis option.distinct(1))

lemma prepare_request_Inr:
  assumes "config_ok c" "prepare_request c ident v = Some (Inr prepared)"
    and "em = primary (pr_candidates prepared) \<or> fallback (pr_candidates prepared) = Some em"
  shows "apply_effective_request (pr_payload prepared) em \<noteq> None"
proof -
  from assms(2) obtain r where r: "validate_create c v = Some r" by (auto simp: prepare_request_def)
  with assms(2) obtain m' where v: "validate_create c v = Some (Inr (pr_candidates prepared, m'))"
    and p: "pr_payload prepared = JObj m'"
    by (cases r) (auto simp: prepare_request_def)
  from v show ?thesis
  proof (rule validate_create_Inr)
    fix m model
    assume m: "v = JObj m" "model_candidates_for c model (requested_effort v) = Some (Some (pr_candidates prepared))"
      "m' = bmap_insert ''stream'' (JBool True) (bmap_insert ''store'' (JBool False) (expand_input m))"
    from candidate_effective [OF assms(1) m(2) assms(3)] obtain name where
      "effective_ok c name (requested_effort (JObj m')) em"
      using m by (auto simp: requested_effort_expanded)
    from apply_effective_request_total [OF this] p show ?thesis by simp
  qed
qed

lemma ws_reject_keeps:
  assumes "ws_inv {} s" shows "turn_keeps (Returned (ws_reject W k v err s))"
proof -
  obtain r a where f: "store_reject W k (ws_context (ws_identity s)) (str_or '''' (requested_model v))
      (nested_effort v) None (ws_app s) = (r, a)" by fastforce
  have "ws_inv {} (s\<lparr>ws_app := a\<rparr>)"
    using assms by (rule ws_inv_frame) (use store_reject_effect [OF f] in simp_all)
  with f show ?thesis
    by (cases r) (simp_all add: ws_reject_def ws_record_rejection_def turn_keeps_forward)
qed

lemma handle_create_keeps:
  assumes rel: "reliable_world W" and inv: "ws_inv {} s"
  shows "turn_keeps (handle_create W k t s)"
proof (cases "wd_parse W t")
  case None
  then show ?thesis using ws_reject_keeps [OF inv] by (simp add: handle_create_def)
next
  case (Some v)
  note parsed = this
  have c: "config_ok (as_config (ws_app s))" using inv by (simp add: ws_inv_def)
  have "prepare_request (as_config (ws_app s)) (ws_identity s) v \<noteq> None"
    using validate_create_no_panic [OF c, of v] by (simp add: prepare_request_def)
  then obtain r where r: "prepare_request (as_config (ws_app s)) (ws_identity s) v = Some r" by blast
  show ?thesis
  proof (cases r)
    case (Inl e)
    then show ?thesis using parsed r ws_reject_keeps [OF inv] by (simp add: handle_create_def split: prod.split)
  next
    case (Inr prepared)
    obtain x a where b: "store_begin W k (pr_context prepared) (client_quota (ws_identity s))
        (pr_candidates prepared) (ws_app s) = (x, a)" by fastforce
    have kept: "ws_inv {} (s\<lparr>ws_app := a\<rparr>)"
      using inv by (rule ws_inv_frame) (use store_begin_effect(1) [OF b] in simp_all)
    show ?thesis
    proof (cases "\<exists>rid em. x = Inr (Admitted rid em)")
      case False
      then consider e where "x = Inl e" | "x = Inr WeeklyQuotaExceeded"
        by (metis Admission.exhaust sum.exhaust)
      then show ?thesis using parsed r Inr b kept
        by cases (simp_all add: handle_create_def turn_keeps_forward)
    next
      case True
      then obtain rid em where x: "x = Inr (Admitted rid em)" by blast
      let ?s = "s\<lparr>ws_app := a, ws_admitted := rid # ws_admitted s\<rparr>"
      have admitted: "ws_inv {rid} ?s" using ws_inv_admit [OF inv] b x by blast
      have "apply_effective_request (pr_payload prepared) em \<noteq> None"
        using prepare_request_Inr [OF c] r Inr store_begin_candidate b x by metis
      then have "ws_active s = None \<Longrightarrow> turn_keeps (send_create W (Suc k) rid em (pr_payload prepared) ?s)"
        by (intro send_create_keeps [OF rel admitted]) simp_all
      moreover have "turn_keeps (Returned (refuse_create W (Suc k) rid ?s))"
        using refuse_create_ok [OF rel admitted] by (simp add: turn_keeps_Returned)
      ultimately show ?thesis
        using parsed r Inr b x by (simp add: handle_create_def Let_def)
    qed
  qed
qed


lemma handle_upstream_text_keeps:
  assumes rel: "reliable_world W" and inv: "ws_inv {} s"
  shows "turn_keeps (handle_upstream_text W k t s)"
proof (cases "read_text (wd_parse W) (wd_http_date_ok W) t")
  case None
  then show ?thesis using read_text_no_panic by blast
next
  case (Some x)
  note read = this
  show ?thesis
  proof (cases "\<exists>name event terminal rewritten f.
      x = Some (name, event, Some (terminal, rewritten)) \<and> ws_active s = Some f")
    case False
    then show ?thesis using read inv
      by (auto simp: handle_upstream_text_def turn_keeps_forward split: option.split)
  next
    case True
    then obtain name event terminal rewritten f where x: "x = Some (name, event, Some (terminal, rewritten))"
      and f: "ws_active s = Some f" by blast
    obtain r s' where fin: "ws_finalize W k (if_request_id f) (final_status_of_kind (te_kind terminal))
        (map_option (\<lambda>u. to_billable_usage u (if_rates f)) (te_usage terminal)) (s\<lparr>ws_active := None\<rparr>) = (r, s')"
      by fastforce
    have taken: "ws_inv {if_request_id f} (s\<lparr>ws_active := None\<rparr>)" using ws_inv_take [OF inv f] .
    show ?thesis
    proof (cases r)
      case (Inr y)
      with fin ws_inv_finalize_success [OF taken] have "ws_inv {} s'" by fastforce
      then show ?thesis using read x f fin Inr by (simp add: handle_upstream_text_def turn_keeps_forward)
    next
      case (Inl e)
      have kept: "ws_inv {if_request_id f} s'"
        using taken by (rule ws_inv_frame) (use ws_finalize_keeps [OF fin] in simp_all)
      obtain r2 s2 where fin2: "ws_finalize W (Suc k) (if_request_id f) UpstreamError None s' = (r2, s2)"
        by fastforce
      have "ws_inv {} s2" "ws_active s2 = None"
        using ws_inv_finalize [OF rel kept fin2] ws_finalize_keeps [OF fin2] ws_finalize_keeps [OF fin] by simp_all
      then show ?thesis using read x f fin Inl fin2 by (simp add: handle_upstream_text_def turn_keeps_Returned)
    qed
  qed
qed

lemma ws_turn_keeps:
  assumes rel: "reliable_world W" and inv: "ws_inv {} s"
  shows "turn_keeps (ws_turn W k p s)"
proof (cases "next_event p s")
  case (Some x)
  obtain ev s' where x: "x = (ev, s')" by (cases x)
  from Some x inv have s': "ws_inv {} s'"
    by (cases p) (auto split: list.splits)
  have down: "turn_keeps (handle_downstream W k m s')" for m
    using handle_create_keeps [OF rel s'] s'
    by (simp add: handle_downstream_def turn_keeps_forward split: downstream_message.split)
  have up: "turn_keeps (handle_upstream W k m s')" for m
    using handle_upstream_text_keeps [OF rel s'] s'
    by (simp add: handle_upstream_def turn_keeps_forward split: upstream_message.split)
  show ?thesis using Some x s' down up
    by (simp add: ws_turn_def handle_event_def turn_keeps_Returned split: ConnectionEvent.split)
qed (simp add: ws_turn_def)

lemma finalize_active_closes:
  assumes rel: "reliable_world W" and inv: "ws_inv {} s"
  shows "ws_inv {} (finalize_active W k status s)" "ws_active (finalize_active W k status s) = None"
    "ws_admitted (finalize_active W k status s) = ws_admitted s"
proof -
  have "ws_inv {} (finalize_active W k status s) \<and> ws_active (finalize_active W k status s) = None \<and>
    ws_admitted (finalize_active W k status s) = ws_admitted s"
  proof (cases "ws_active s")
    case None
    then show ?thesis using inv by (simp add: finalize_active_def)
  next
    case (Some f)
    obtain r s' where fin: "ws_finalize W k (if_request_id f) status None (s\<lparr>ws_active := None\<rparr>) = (r, s')"
      by fastforce
    from ws_inv_finalize [OF rel ws_inv_take [OF inv Some] fin] ws_finalize_keeps [OF fin] Some fin
    show ?thesis by (simp add: finalize_active_def)
  qed
  then show "ws_inv {} (finalize_active W k status s)" "ws_active (finalize_active W k status s) = None"
    "ws_admitted (finalize_active W k status s) = ws_admitted s" by simp_all
qed

lemma finish_session_closes:
  assumes "reliable_world W" "ws_inv {} s" "ending = End_AccountingFailure \<Longrightarrow> ws_active s = None"
  shows "ws_inv {} (finish_session W k ending s) \<and> ws_active (finish_session W k ending s) = None"
  using assms finalize_active_closes [OF assms(1,2)]
  by (cases ending)
    (auto simp: finish_session_def close_downstream_def close_upstream_def send_keeps)

definition all_rows_closed :: "ws_session \<Rightarrow> bool" where
  "all_rows_closed s \<longleftrightarrow> (\<forall>r \<in> set (ws_admitted s). \<not> row_started (as_store (ws_app s)) r)"

lemma ws_inv_idle_closed: "ws_inv {} s \<Longrightarrow> ws_active s = None \<Longrightarrow> all_rows_closed s"
  using row_closed_not_started by (auto simp: ws_inv_def in_flight_row_def all_rows_closed_def)


lemma ws_run_keeps:
  assumes rel: "reliable_world W" and others: "\<And>n a. others_may (wd_decimal W) a (others n a)"
    and inv: "ws_inv {} s"
  shows "ws_run W others n ps s \<noteq> Panics \<and>
    (\<forall>s'. ws_run W others n ps s = Returned s' \<longrightarrow> ws_inv {} s' \<and> ws_active s' = None)"
  using inv
proof (induction ps arbitrary: n s)
  case Nil
  then show ?case by simp
next
  case (Cons p ps)
  let ?s = "s\<lparr>ws_app := others n (ws_app s)\<rparr>"
  have s: "ws_inv {} ?s"
    using Cons.prems by (rule ws_inv_frame) (use others in simp_all)
  from ws_turn_keeps [OF rel s] have keeps: "turn_keeps (ws_turn W (3 * n) p ?s)" .
  show ?case
  proof (cases "ws_turn W (3 * n) p ?s")
    case (Returned x)
    obtain e s' where x: "x = (e, s')" by (cases x)
    with keeps Returned have s': "ws_inv {} s'" "e = Some End_AccountingFailure \<Longrightarrow> ws_active s' = None"
      by (auto simp: turn_keeps_def)
    show ?thesis
    proof (cases e)
      case None
      then show ?thesis using Cons.IH [OF s'(1)] Returned x by simp
    next
      case (Some ending)
      then show ?thesis using finish_session_closes [OF rel s'(1)] s'(2) Returned x by simp
    qed
  qed (use keeps in \<open>simp_all add: turn_keeps_def\<close>)
qed

lemma responses_websocket_start:
  assumes "responses_websocket to_str ct_eq connect down down_ok headers a = Some (Inr s)"
    and "store_ok (as_store a)" "validate (as_config a) = Inr ()"
  shows "ws_inv {} s"
  using assms
  by (auto simp: responses_websocket_def ws_inv_def in_flight_row_def validate_iff
      split: sum.splits if_splits option.splits)

text \<open>
  C5. A WebSocket connection leaves no request open: whatever the client and the upstream send, however
  the loop interleaves them, whatever the other tasks do to the shared state in between, and whichever
  way the connection ends, no row that this connection opened in the ledger is still \<open>started\<close> when
  \<open>run\<close> returns. The loop never panics.
\<close>

theorem connection_closes_its_rows:
  assumes "responses_websocket to_str ct_eq connect shutting_down down_ok headers a = Some (Inr s)"
    and "store_ok (as_store a)" and "validate (as_config a) = Inr ()" and "reliable_world W"
    and "\<And>n b. others_may (wd_decimal W) b (others n b)"
  shows "ws_run W others 0 picks s \<noteq> Panics \<and>
    (\<forall>s'. ws_run W others 0 picks s = Returned s' \<longrightarrow> all_rows_closed s')"
proof -
  from assms(1-3) have "ws_inv {} s" by (rule responses_websocket_start)
  have "ws_run W others 0 picks s \<noteq> Panics \<and>
    (\<forall>s'. ws_run W others 0 picks s = Returned s' \<longrightarrow> ws_inv {} s' \<and> ws_active s' = None)"
    by (rule ws_run_keeps) (use assms(4,5) \<open>ws_inv {} s\<close> in simp_all)
  with ws_inv_idle_closed show ?thesis by blast
qed

definition demo_create :: json where
  "demo_create = jobj [(''type'', JStr ''response.create''), (''model'', JStr ''big'')]"

definition demo_big :: json where
  "demo_big = jobj [(''slug'', JStr ''big''), (''use_responses_lite'', JBool True), (''base_instructions'', JStr ''b'')]"

definition demo_world :: world where
  "demo_world =
     \<lparr>wd_decimal = exact_decimal, wd_faults = (\<lambda>_. no_faults), wd_clock = (\<lambda>_. demo_now), wd_net = demo_net,
      wd_creds = (\<lambda>_. Inr demo_snapshot), wd_refresh = (\<lambda>_. demo_refresh_once), wd_from_str = Some,
      wd_parse = (\<lambda>t. if t = ''create'' then Some demo_create else if t = ''warm'' then Some demo_completed else None),
      wd_print = (\<lambda>_. ''{}''), wd_http_date_ok = (\<lambda>_. False)\<rparr>"

definition demo_app :: app_state where
  "demo_app =
     \<lparr>as_config = demo_config, as_store = empty_store, as_client = demo_client,
      as_models = Some \<lparr>fetched_at = demo_now, cached_list = [demo_big]\<rparr>, as_sends = [], as_sessions = empty_cache\<rparr>"

definition demo_ws_socket :: upstream_socket where
  "demo_ws_socket = \<lparr>sk_incoming = [Received (UM_Text ''warm'')], sk_send_ok = (\<lambda>_. True), sk_sent = []\<rparr>"

definition demo_ws :: ws_session where
  "demo_ws =
     \<lparr>ws_downstream = [], ws_down_ok = (\<lambda>_. True), ws_upstream = demo_ws_socket, ws_app = demo_app,
      ws_identity = \<lparr>client_id = ''bob'', client_quota = \<lparr>weekly_limit_usd = None, hard_limit_usd = None\<rparr>\<rparr>,
      ws_active = None, ws_admitted = []\<rparr>"

lemma demo_ws_start:
  "responses_websocket Some (=) (\<lambda>_. Some (Inr demo_ws_socket)) False (\<lambda>_. True)
     [(''authorization'', ''Bearer s2'')] demo_app = Some (Inr demo_ws)"
  by (simp add: responses_websocket_def demo_app_def authenticate_def get_all_def demo_config_def
      is_ascii_whitespace_def byte_def demo_ws_def)

lemma demo_reliable: "reliable_world demo_world"
  by (simp add: reliable_world_def reliable_at_def demo_world_def demo_timestamp)

lemma demo_app_ok: "store_ok (as_store demo_app)" "validate (as_config demo_app) = Inr ()"
  using demo_config_valid by (simp_all add: demo_app_def store_ok_def i64_max_def)

lemma demo_candidates:
  "model_candidates_for demo_config ''big'' None = Some (Some
     \<lparr>primary = \<lparr>em_model = ''big'', em_reasoning_effort = None, em_rates =
        \<lparr>input_usd_per_million = 5, cached_input_usd_per_million = 1, output_usd_per_million = 10\<rparr>\<rparr>,
      fallback = Some \<lparr>em_model = ''mini'', em_reasoning_effort = None, em_rates =
        \<lparr>input_usd_per_million = 1, cached_input_usd_per_million = 1, output_usd_per_million = 2\<rparr>\<rparr>\<rparr>)"
  by (simp add: model_candidates_for_def effective_model_for_def demo_config_def)

lemma demo_begin_bob:
  "\<exists>st. begin_request exact_decimal no_faults demo_now (ws_context ident) \<lparr>weekly_limit_usd = None, hard_limit_usd = None\<rparr>
     cands empty_store = (Inr (Admitted (RequestId 1) (primary cands)), st)"
  by (simp add: begin_request_def demo_timestamp demo_spend_empty admission_decision_def spend_meets_limit_def
      insert_row_def i64_max_def)


lemma demo_prewarm:
  assumes "responses_lite_prewarm request demo_big key = Inr (prewarm, JObj m)"
  shows "\<exists>m' k'. prepare_responses_lite (wd_parse demo_world) (wd_print demo_world) request demo_big key demo_ws_socket =
     Some (Inr (Some (JObj m')), k') \<and> sk_send_ok k' = (\<lambda>_. True)"
  using assms
  by (simp add: prepare_responses_lite_def demo_big_def send_responses_prewarm_def socket_send_def demo_ws_socket_def
      demo_world_def prewarm_event_def demo_completed_def)

lemma demo_ws_turn:
  "\<exists>s1. ws_turn demo_world 0 (Pick_Downstream (Some (DM_Text ''create''))) demo_ws = Returned (None, s1) \<and>
     ws_admitted s1 = [RequestId 1] \<and> in_flight_row s1 (RequestId 1)"
proof -
  have prepared: "prepare_request demo_config ident demo_create = Some (Inr
      \<lparr>pr_payload = JObj (bmap_insert ''stream'' (JBool True) (bmap_insert ''store'' (JBool False)
         [(''model'', JStr ''big''), (''type'', JStr ''response.create'')])),
       pr_context = ws_context ident, pr_candidates = the (the (model_candidates_for demo_config ''big'' None))\<rparr>)"
    for ident
    using demo_candidates
    by (simp add: prepare_request_def validate_create_def demo_create_def nested_effort_def expand_input_def jobj_def
        bmap_of_list_def)
  let ?ident = "ws_identity demo_ws" and ?cands = "the (the (model_candidates_for demo_config ''big'' None))"
  from demo_begin_bob [of ?ident ?cands] obtain st where
    begun: "store_begin demo_world 0 (ws_context ?ident) (client_quota ?ident) ?cands demo_app =
      (Inr (Admitted (RequestId 1) (primary ?cands)), demo_app\<lparr>as_store := st\<rparr>)"
    by (auto simp: store_begin_def demo_world_def demo_app_def demo_ws_def)
  have looked: "lookup_model demo_world k ''big'' (demo_app\<lparr>as_store := st\<rparr>) =
      (Inr (Some demo_big), demo_app\<lparr>as_store := st\<rparr>)" for k
    by (simp add: lookup_model_def upstream_model_def upstream_models_def cache_hit_def demo_app_def demo_world_def
        find_model_def demo_big_def MODELS_CACHE_TTL_def)
  let ?m = "bmap_insert ''model'' (JStr ''big'') (bmap_insert ''stream'' (JBool True) (bmap_insert ''store'' (JBool False)
    [(''model'', JStr ''big''), (''type'', JStr ''response.create'')]))"
  have "\<exists>prewarm m. responses_lite_prewarm (JObj ?m) demo_big (request_key_of (RequestId 1)) = Inr (prewarm, JObj m)"
    by (simp add: responses_lite_prewarm_def Let_def demo_big_def)
  then obtain m' u where warm: "prepare_responses_lite (wd_parse demo_world) (wd_print demo_world) (JObj ?m) demo_big
      (request_key_of (RequestId 1)) demo_ws_socket = Some (Inr (Some (JObj m')), u)" "sk_send_ok u = (\<lambda>_. True)"
    using demo_prewarm by metis
  have create: "wd_parse demo_world ''create'' = Some demo_create" by (simp add: demo_world_def)
  have sent: "\<exists>s1. send_create demo_world 1 (RequestId 1) (primary ?cands)
      (JObj (bmap_insert ''stream'' (JBool True) (bmap_insert ''store'' (JBool False)
         [(''model'', JStr ''big''), (''type'', JStr ''response.create'')])))
      (demo_ws\<lparr>ws_app := demo_app\<lparr>as_store := st\<rparr>, ws_admitted := [RequestId 1]\<rparr>) = Returned (None, s1) \<and>
     ws_admitted s1 = [RequestId 1] \<and> in_flight_row s1 (RequestId 1)"
    using looked warm
    by (simp add: send_create_def demo_candidates apply_effective_request_def Let_def up_send_def socket_send_def
        demo_ws_def in_flight_row_def demo_big_def del: request_key_of.simps)
  show ?thesis
    using sent begun prepared create
    by (simp add: ws_turn_def handle_event_def handle_downstream_def handle_create_def demo_ws_def demo_app_def Let_def)
qed


theorem connection_closes_its_rows_witness:
  "\<exists>s'. ws_run demo_world (\<lambda>_ b. b) 0 [Pick_Downstream (Some (DM_Text ''create'')), Pick_Downstream None] demo_ws =
     Returned s' \<and> all_rows_closed s'"
proof -
  from demo_ws_turn have "\<exists>s'. ws_run demo_world (\<lambda>_ b. b) 0
      [Pick_Downstream (Some (DM_Text ''create'')), Pick_Downstream None] demo_ws = Returned s'"
    by (auto simp: ws_turn_def handle_event_def)
  with connection_closes_its_rows [OF demo_ws_start demo_app_ok demo_reliable, of "\<lambda>_ b. b"] show ?thesis by fastforce
qed

inductive ws_reachable :: "world \<Rightarrow> ws_session \<Rightarrow> ws_session \<Rightarrow> bool" for W s0 where
  ws_start: "ws_reachable W s0 s0"
| ws_others: "ws_reachable W s0 s \<Longrightarrow> others_may (wd_decimal W) (ws_app s) a \<Longrightarrow>
    ws_reachable W s0 (s\<lparr>ws_app := a\<rparr>)"
| ws_event: "ws_reachable W s0 s \<Longrightarrow> ws_turn W k p s = Returned (None, s') \<Longrightarrow> ws_reachable W s0 s'"

lemma ws_reachable_inv:
  assumes "ws_reachable W s0 s" "reliable_world W" "ws_inv {} s0"
  shows "ws_inv {} s"
  using assms
proof (induction rule: ws_reachable.induct)
  case (ws_others s a)
  show ?case by (rule ws_inv_frame [OF ws_others.IH]) (use ws_others in simp_all)
next
  case (ws_event s k p s')
  with ws_turn_keeps [of W s k p] show ?case by (simp add: turn_keeps_def)
qed

text \<open>
  C11. One response at a time: at every moment between two events of a connection, the only row it
  opened that can still be \<open>started\<close> is that of the response in flight, and a shutdown at that moment
  ends the connection at once, with every row closed and the shutdown as the last word to both sides.
\<close>

theorem one_response_in_flight:
  assumes "responses_websocket to_str ct_eq connect shutting_down down_ok headers a = Some (Inr s0)"
    and "store_ok (as_store a)" and "validate (as_config a) = Inr ()" and "reliable_world W"
    and "ws_reachable W s0 s"
  shows "(\<forall>r. r \<in> set (ws_admitted s) \<and> row_started (as_store (ws_app s)) r \<longrightarrow> in_flight_row s r) \<and>
    (\<exists>s'. ws_run W (\<lambda>_ b. b) n [Pick_Shutdown] s = Returned s' \<and> all_rows_closed s' \<and>
       last (ws_downstream s') = DM_Close (Some \<lparr>close_code = 1001, close_reason = ''Server is shutting down''\<rparr>) \<and>
       last (sk_sent (ws_upstream s')) =
         UM_Close (Some \<lparr>close_code = 1001, close_reason = ''Server is shutting down''\<rparr>))"
proof -
  have inv: "ws_inv {} s"
    using ws_reachable_inv [OF assms(5,4)] responses_websocket_start [OF assms(1-3)] by blast
  let ?s' = "finish_session W (3 * n + 2) End_Shutdown s"
  have "ws_run W (\<lambda>_ b. b) n [Pick_Shutdown] s = Returned ?s'"
    by (simp add: ws_turn_def handle_event_def)
  moreover have "all_rows_closed ?s'"
    using finish_session_closes [OF assms(4) inv] ws_inv_idle_closed by auto
  moreover have "last (ws_downstream ?s') = DM_Close (Some \<lparr>close_code = 1001, close_reason = ''Server is shutting down''\<rparr>)"
    "last (sk_sent (ws_upstream ?s')) =
       UM_Close (Some \<lparr>close_code = 1001, close_reason = ''Server is shutting down''\<rparr>)"
    by (simp_all add: finish_session_def close_downstream_def close_upstream_def down_send_def up_send_def socket_send_def)
  moreover have "\<forall>r. r \<in> set (ws_admitted s) \<and> row_started (as_store (ws_app s)) r \<longrightarrow> in_flight_row s r"
    using inv row_closed_not_started by (auto simp: ws_inv_def)
  ultimately show ?thesis by blast
qed

theorem one_response_in_flight_witness:
  "\<exists>s. ws_admitted s = [RequestId 1] \<and> in_flight_row s (RequestId 1) \<and>
     (\<exists>s'. ws_run demo_world (\<lambda>_ b. b) 1 [Pick_Shutdown] s = Returned s' \<and> all_rows_closed s')"
proof -
  from demo_ws_turn obtain s where s: "ws_turn demo_world 0 (Pick_Downstream (Some (DM_Text ''create''))) demo_ws =
      Returned (None, s)" "ws_admitted s = [RequestId 1]" "in_flight_row s (RequestId 1)" by blast
  from ws_event [OF ws_start s(1)] have "ws_reachable demo_world demo_ws s" .
  from one_response_in_flight [OF demo_ws_start demo_app_ok demo_reliable this, of 1] s show ?thesis by blast
qed

section \<open>What the client may ask, and what it is told\<close>

text \<open>The messages the endpoint accepts.\<close>

definition create_ok :: "config \<Rightarrow> json \<Rightarrow> bool" where
  "create_ok c v \<longleftrightarrow> (\<exists>m model. v = JObj m \<and> map_of m ''type'' = Some (JStr ''response.create'') \<and>
     map_of m ''model'' = Some (JStr model) \<and> map_of (model_prices c) model \<noteq> None \<and>
     map_of m ''stream'' \<in> {None, Some (JBool True)} \<and> map_of m ''background'' = None \<and>
     map_of m ''max_output_tokens'' = None \<and> map_of m ''store'' \<in> {None, Some JNull, Some (JBool False)})"

lemma as_str_opt: "opt_bind x as_str = Some t \<longleftrightarrow> x = Some (JStr t)"
  by (cases x) auto

lemma opt_all_stream: "opt_all (\<lambda>v. v = JBool True) x \<longleftrightarrow> x \<in> {None, Some (JBool True)}"
  by (cases x) auto

lemma opt_all_store: "opt_all (\<lambda>v. is_null v \<or> v = JBool False) x \<longleftrightarrow> x \<in> {None, Some JNull, Some (JBool False)}"
  by (cases x) (auto simp: is_null_def)


lemma candidates_priced: "model_candidates_for c model e = Some (Some x) \<Longrightarrow> map_of (model_prices c) model \<noteq> None"
  by (cases "map_of (model_prices c) model") (auto simp: model_candidates_for_def effective_model_for_def)

lemma validate_create_refused:
  assumes "config_ok c" "\<not> create_ok c v"
  shows "\<exists>e. validate_create c v = Some (Inl e)"
proof (cases "validate_create c v")
  case None
  then show ?thesis using validate_create_no_panic [OF assms(1)] by blast
next
  case (Some r)
  have "r \<noteq> Inr x" for x
    using Some assms(2)
    by (auto simp: validate_create_def create_ok_def as_str_opt opt_all_stream opt_all_store
        split: option.splits if_splits dest!: candidates_priced)
  then show ?thesis using Some by (cases r) auto
qed

text \<open>
  C26. The WebSocket endpoint accepts exactly the \<open>response.create\<close> messages that name a configured
  model, stream, and ask for no background work, output limit or storage. An accepted message goes on
  unchanged but for being streamed, not stored and having its string input spelled out, under the
  candidates of its own model and effort; any other is returned as it came with the reason.
\<close>

theorem prepare_request_exact:
  assumes "validate c = Inr ()"
  shows "if create_ok c v
    then \<exists>m model p. v = JObj m \<and> map_of m ''model'' = Some (JStr model) \<and>
      prepare_request c ident v = Some (Inr p) \<and>
      pr_context p = \<lparr>ctx_api_key_id = client_id ident, ctx_api_protocol = Responses, ctx_transport = WebSocket\<rparr> \<and>
      model_candidates_for c model (requested_effort v) = Some (Some (pr_candidates p)) \<and>
      (\<forall>key. jget (pr_payload p) key =
         (if key = ''store'' then Some (JBool False) else if key = ''stream'' then Some (JBool True)
          else case map_of m key of
            Some (JStr t) \<Rightarrow> Some (if key = ''input'' then user_message t else JStr t)
          | x \<Rightarrow> x))
    else \<exists>e. prepare_request c ident v = Some (Inl (v, e))"
proof (cases "create_ok c v")
  case False
  with validate_create_refused [of c v] assms show ?thesis by (auto simp: prepare_request_def validate_iff)
next
  case True
  then obtain m model where m: "v = JObj m" "map_of m ''type'' = Some (JStr ''response.create'')"
    "map_of m ''model'' = Some (JStr model)" "map_of (model_prices c) model \<noteq> None"
    "map_of m ''stream'' \<in> {None, Some (JBool True)}" "map_of m ''background'' = None"
    "map_of m ''max_output_tokens'' = None" "map_of m ''store'' \<in> {None, Some JNull, Some (JBool False)}"
    by (auto simp: create_ok_def)
  from model_candidates_for_cases [of c model "requested_effort v"] assms m(4) obtain cands where
    cands: "model_candidates_for c model (requested_effort v) = Some (Some cands)"
    by (auto simp: validate_iff)
  let ?m = "bmap_insert ''stream'' (JBool True) (bmap_insert ''store'' (JBool False) (expand_input m))"
  have v: "validate_create c v = Some (Inr (cands, ?m))"
    using m cands by (simp add: validate_create_def nested_effort_pointer opt_all_stream opt_all_store)
  have "map_of (expand_input m) key = (case map_of m key of
      Some (JStr t) \<Rightarrow> Some (if key = ''input'' then user_message t else JStr t) | x \<Rightarrow> x)" for key
    by (auto simp: expand_input_def split: option.split json.split)
  with v m cands True show ?thesis
    by (simp add: prepare_request_def ws_context_def)
qed

theorem prepare_request_exact_witness:
  "\<exists>p. prepare_request demo_config (ws_identity demo_ws) demo_create = Some (Inr p) \<and>
     jget (pr_payload p) ''store'' = Some (JBool False)"
proof -
  have "create_ok demo_config demo_create"
    by (simp add: create_ok_def demo_create_def demo_config_def jobj_def bmap_of_list_def)
  with prepare_request_exact [OF demo_config_valid, of demo_create "ws_identity demo_ws"] show ?thesis by auto
qed



definition demo_failure :: json where
  "demo_failure = JObj [(''error'', JObj [(''code'', JStr ''bad'')]), (''type'', JStr ''error'')]"

definition demo_failing_world :: world where
  "demo_failing_world = demo_world\<lparr>wd_parse := (\<lambda>_. Some demo_failure)\<rparr>"

definition demo_ws_active :: ws_session where
  "demo_ws_active = demo_ws\<lparr>ws_app := demo_app\<lparr>as_store := demo_begun\<rparr>,
     ws_active := Some \<lparr>if_request_id = RequestId 1, if_rates = demo_rates\<rparr>, ws_admitted := [RequestId 1]\<rparr>"

lemma demo_failure_parsed:
  "parse_terminal_payload demo_failure = Inr (Some \<lparr>te_kind = TK_Error, te_payload = demo_failure, te_usage = None\<rparr>)"
  by (simp add: parse_terminal_payload_def demo_failure_def from_name_def)

lemma demo_failure_turn:
  "\<exists>s'. handle_upstream_text demo_failing_world 0 ''x'' demo_ws_active = Returned (None, s')"
proof -
  have fin: "\<exists>st. finalize_request exact_decimal no_faults demo_now (RequestId 1) UpstreamError None None demo_begun =
      (Inr (), st)"
    by (rule finalize_reliable_closes [OF demo_begun_ok])
      (simp_all add: demo_timestamp row_started_def demo_begun_def is_started_def admission_row_def)
  have "retryable_capacity_payload (\<lambda>_. False) \<lparr>te_kind = TK_Error, te_payload = demo_failure, te_usage = None\<rparr> = Some None"
    by (simp add: retryable_capacity_payload_def upstream_error_def demo_failure_def)
  then have "read_text (\<lambda>_. Some demo_failure) (\<lambda>_. False) ''x'' = Some (Some (''error'', demo_failure,
      Some (\<lparr>te_kind = TK_Error, te_payload = demo_failure, te_usage = None\<rparr>, None)))"
    using demo_failure_parsed by (simp add: read_text_def) (simp add: demo_failure_def)
  with fin show ?thesis
    by (auto simp: handle_upstream_text_def demo_failing_world_def demo_world_def demo_ws_active_def ws_finalize_def
        store_finalize_def forward_down_def down_send_def demo_ws_def demo_app_def)
qed


end
