(* ===== verification/Http_Api.thy ===== *)
theory Http_Api
  imports Session_Actor Ws_Session
begin

text \<open>
  The HTTP handlers (\<open>src/http_api.rs\<close>): the models list, the Responses and Chat Completions endpoints
  and the image proxy. A handler gets its surroundings as a \<open>world\<close> and the shared state, and returns
  the state it leaves. \<open>shutting_down\<close> says which arm a \<open>select!\<close> on the shutdown takes. A Responses turn
  is handed to the actor of its session and a chat stream to a task of its own, with the guard of its
  row; what those do is in \<open>Session_Actor\<close> and \<open>Responses_Stream\<close>.
\<close>

section \<open>Models\<close>

definition listed_model :: "config \<Rightarrow> ModelAccess \<Rightarrow> json \<Rightarrow> json option" where
  "listed_model c access model =
     opt_bind (as_object model) (\<lambda>object.
     opt_bind (opt_bind (map_of object ''slug'') as_str) (\<lambda>slug.
     if opt_bind (map_of object ''visibility'') as_str \<noteq> Some ''list'' \<or>
        map_of (model_prices c) slug = None \<or>
        (access = FallbackOnly \<and> fallback_model c \<noteq> Some slug)
     then None
     else
       Some (JObj
         (bmap_insert ''owned_by'' (JStr ''openai'')
         (bmap_insert ''created'' (json_of_u64 0)
         (bmap_insert ''object'' (JStr ''model'')
         (bmap_insert ''id'' (JStr slug) object)))))))"

definition available_models ::
  "world \<Rightarrow> nat \<Rightarrow> bool \<Rightarrow> client_identity \<Rightarrow> app_state \<Rightarrow> (api_error + json list) \<times> app_state" where
  "available_models W k shutting_down ident a =
     (case model_access (wd_decimal W) (wd_faults W k) (wd_clock W k) (client_id ident) (client_quota ident)
             (fallback_model (as_config a) \<noteq> None) (as_store a) of
        Inl _ \<Rightarrow> (Inl internal, a)
      | Inr Blocked \<Rightarrow> (Inr [], a)
      | Inr access \<Rightarrow>
          if shutting_down then (Inl shutdown, a)
          else
            (case list_models W k a of
               (Inl _, a') \<Rightarrow> (Inl (gateway ''Upstream models request failed''), a')
             | (Inr models, a') \<Rightarrow> (Inr (List.map_filter (listed_model (as_config a) access) models), a')))"

definition models_handler ::
  "(string \<Rightarrow> string option) \<Rightarrow> (string \<Rightarrow> string \<Rightarrow> bool) \<Rightarrow> world \<Rightarrow> nat \<Rightarrow> bool \<Rightarrow> header_map \<Rightarrow> app_state \<Rightarrow>
     (api_error + json) \<times> app_state" where
  "models_handler to_str ct_eq W k shutting_down headers a =
     (case authenticate to_str ct_eq headers (as_config a) of
        Inl e \<Rightarrow> (Inl e, a)
      | Inr ident \<Rightarrow>
          (case available_models W k shutting_down ident a of
             (r, a') \<Rightarrow>
               (res_bind r (\<lambda>models. Inr (jobj [(''object'', JStr ''list''), (''data'', JArr models)])), a')))"

definition model_handler ::
  "(string \<Rightarrow> string option) \<Rightarrow> (string \<Rightarrow> string \<Rightarrow> bool) \<Rightarrow> (string \<Rightarrow> string) \<Rightarrow> world \<Rightarrow> nat \<Rightarrow> bool \<Rightarrow> string \<Rightarrow>
     header_map \<Rightarrow> app_state \<Rightarrow> (api_error + json) \<times> app_state" where
  "model_handler to_str ct_eq debug W k shutting_down model headers a =
     (case authenticate to_str ct_eq headers (as_config a) of
        Inl e \<Rightarrow> (Inl e, a)
      | Inr ident \<Rightarrow>
          (case available_models W k shutting_down ident a of
             (r, a') \<Rightarrow>
               (res_bind r (\<lambda>models. ok_or (model_not_found debug model)
                  (find (\<lambda>candidate. opt_bind (jget candidate ''id'') as_str = Some model) models)), a')))"

section \<open>Admission and rejection\<close>

definition requested_string :: "json \<Rightarrow> string \<Rightarrow> string option" where
  "requested_string v field = opt_bind (jget v field) as_str"

definition http_context :: "client_identity \<Rightarrow> ApiProtocol \<Rightarrow> Transport \<Rightarrow> request_context" where
  "http_context ident protocol transport =
     \<lparr>ctx_api_key_id = client_id ident, ctx_api_protocol = protocol, ctx_transport = transport\<rparr>"

definition admit_request ::
  "world \<Rightarrow> nat \<Rightarrow> client_identity \<Rightarrow> model_candidates \<Rightarrow> ApiProtocol \<Rightarrow> Transport \<Rightarrow> app_state \<Rightarrow>
     (api_error + request_id \<times> effective_model) \<times> app_state" where
  "admit_request W k ident cands protocol transport a =
     (case store_begin W k (http_context ident protocol transport) (client_quota ident) cands a of
        (Inl _, a') \<Rightarrow> (Inl internal, a')
      | (Inr WeeklyQuotaExceeded, a') \<Rightarrow> (Inl quota_exceeded, a')
      | (Inr (Admitted rid em), a') \<Rightarrow> (Inr (rid, em), a'))"

definition reject_request ::
  "world \<Rightarrow> nat \<Rightarrow> client_identity \<Rightarrow> string \<Rightarrow> string option \<Rightarrow> ApiProtocol \<Rightarrow> app_state \<Rightarrow>
     (api_error + unit) \<times> app_state" where
  "reject_request W k ident model effort protocol a =
     (case store_reject W k (http_context ident protocol HttpSse) model effort (Some 400) a of
        (r, a') \<Rightarrow> (map_err (\<lambda>_. internal) r, a'))"

text \<open>\<open>reject_request(..).await?; return Err(error)\<close>.\<close>

definition reject_with ::
  "world \<Rightarrow> client_identity \<Rightarrow> string \<Rightarrow> string option \<Rightarrow> ApiProtocol \<Rightarrow> api_error \<Rightarrow> app_state \<Rightarrow>
     api_error \<times> app_state" where
  "reject_with W ident model effort protocol e a =
     (case reject_request W 0 ident model effort protocol a of
        (Inl e', a') \<Rightarrow> (e', a')
      | (Inr _, a') \<Rightarrow> (e, a'))"

definition optional_false :: "string \<Rightarrow> string \<Rightarrow> json option \<Rightarrow> api_error + unit" where
  "optional_false field unsupported v =
     (case v of
        None \<Rightarrow> Inr ()
      | Some JNull \<Rightarrow> Inr ()
      | Some (JBool False) \<Rightarrow> Inr ()
      | Some (JBool True) \<Rightarrow> Inl (invalid field unsupported)
      | Some _ \<Rightarrow> Inl (invalid field (field @ '' must be a boolean or null'')))"

definition normalize_responses_request :: "json \<Rightarrow> api_error + json" where
  "normalize_responses_request v =
     res_bind (ok_or (invalid ''request'' ''request must be a JSON object'') (as_object v)) (\<lambda>object.
     if map_of object ''stream'' \<noteq> Some (JBool True)
     then Inl (invalid ''stream'' ''stream must be explicitly true'')
     else
       res_bind (optional_false ''store'' ''stored responses are not supported'' (map_of object ''store'')) (\<lambda>_.
       res_bind (optional_false ''background'' ''background responses are not supported''
         (map_of object ''background'')) (\<lambda>_.
       if map_of object ''max_output_tokens'' \<noteq> None
       then Inl (invalid ''max_output_tokens'' ''max_output_tokens is not supported by the ChatGPT Codex upstream'')
       else Inr (JObj (bmap_insert ''store'' (JBool False) (expand_input object))))))"

section \<open>Responses\<close>

text \<open>How the handler ends: refused, or the turn handed to its session's actor with the guard of its row.\<close>

datatype responses_outcome =
    Responses_Refused api_error
  | Responses_Handed target turn request_id pending_state

definition lite_model :: "UpstreamHttpError + json option \<Rightarrow> api_error + json" where
  "lite_model found =
     res_bind (map_err (\<lambda>_. gateway ''Upstream models request failed'') found) (\<lambda>m.
     ok_or (gateway ''Upstream model does not support Responses Lite'')
       (opt_filter (\<lambda>model. opt_bind (jget model ''use_responses_lite'') as_bool = Some True) m))"

text \<open>From admission on. A guard that is still open when the handler returns is dropped.\<close>

definition start_turn ::
  "world \<Rightarrow> nat \<Rightarrow> bool \<Rightarrow> header_map \<Rightarrow> session_key option \<Rightarrow> json \<Rightarrow> request_id \<Rightarrow> effective_model \<Rightarrow> app_state \<Rightarrow>
     (responses_outcome \<times> app_state) progress" where
  "start_turn W now delivered headers key upstream_body rid em a =
     and_then (or_panic (apply_effective_request upstream_body em)) (\<lambda>request.
     case lookup_model W 1 (em_model em) a of
       (found, a) \<Rightarrow>
         (case lite_model found of
            Inl e \<Rightarrow> Returned (Responses_Refused e, pending_drop (store_finalize W 2) (pending_new rid) a)
          | Inr model \<Rightarrow>
              and_then (stream_turn (store_finalize W 2) now delivered key (as_sessions a) (pending_new rid) a)
                (\<lambda>(r, c, p, a).
                let a = a\<lparr>as_sessions := c\<rparr> in
                case r of
                  Inl e \<Rightarrow> Returned (Responses_Refused e, pending_drop (store_finalize W 3) p a)
                | Inr t \<Rightarrow>
                    Returned (Responses_Handed t
                      \<lparr>tn_body = request, tn_model = model, tn_headers = headers, tn_rates = em_rates em\<rparr> rid p, a))))"

definition responses_handler ::
  "(string \<Rightarrow> string option) \<Rightarrow> (string \<Rightarrow> string \<Rightarrow> bool) \<Rightarrow> world \<Rightarrow> nat \<Rightarrow> bool \<Rightarrow> header_map \<Rightarrow> string \<Rightarrow> app_state \<Rightarrow>
     (responses_outcome \<times> app_state) progress" where
  "responses_handler to_str ct_eq W now delivered headers payload a =
     (case authenticate to_str ct_eq headers (as_config a) of
        Inl e \<Rightarrow> Returned (Responses_Refused e, a)
      | Inr ident \<Rightarrow>
          (let refuse = (\<lambda>model effort e.
             (case reject_with W ident model effort Responses e a of (e, a') \<Rightarrow> Returned (Responses_Refused e, a')))
           in
             case wd_parse W payload of
               None \<Rightarrow> refuse '''' None (invalid ''request'' ''request body must be valid JSON'')
             | Some parsed \<Rightarrow>
                 (let model = str_or '''' (requested_string parsed ''model''); effort = requested_effort parsed in
                  case model_candidates_for (as_config a) model effort of
                    None \<Rightarrow> Panics
                  | Some None \<Rightarrow> refuse model effort (invalid ''model'' ''model is not configured'')
                  | Some (Some cands) \<Rightarrow>
                      (case normalize_responses_request parsed of
                         Inl e \<Rightarrow> refuse model effort e
                       | Inr upstream_body \<Rightarrow>
                           (case session_key_from_headers to_str (client_id ident) headers of
                              Inl e \<Rightarrow> refuse model effort e
                            | Inr key \<Rightarrow>
                                (case admit_request W 0 ident cands Responses HttpSse a of
                                   (Inl e, a') \<Rightarrow> Returned (Responses_Refused e, a')
                                 | (Inr (rid, em), a') \<Rightarrow>
                                     start_turn W now delivered headers key upstream_body rid em a'))))))"


section \<open>Chat completions\<close>

text \<open>\<open>request.finish(..).await?; return Err(error)\<close>.\<close>

definition finish_with ::
  "world \<Rightarrow> nat \<Rightarrow> FinalStatus \<Rightarrow> int option \<Rightarrow> api_error \<Rightarrow> pending_state \<Rightarrow> app_state \<Rightarrow>
     (api_error \<times> pending_state \<times> app_state) progress" where
  "finish_with W k status http e p a =
     and_then (or_panic (finish (store_finalize W k) status http None p a)) (\<lambda>(r, p', a').
     Returned (case r of Inl e' \<Rightarrow> e' | Inr _ \<Rightarrow> e, p', a'))"

definition send_upstream ::
  "world \<Rightarrow> bool \<Rightarrow> json \<Rightarrow> header_map \<Rightarrow> pending_state \<Rightarrow> app_state \<Rightarrow>
     ((api_error + http_response) \<times> pending_state \<times> app_state) progress" where
  "send_upstream W shutting_down b headers p a =
     (if shutting_down
      then and_then (finish_with W 2 Canceled None shutdown p a) (\<lambda>(e, p, a). Returned (Inl e, p, a))
      else
        (case post_upstream W 1 b headers a of
           (Inr response, a') \<Rightarrow> Returned (Inr response, p, a')
         | (Inl _, a') \<Rightarrow>
             and_then (finish_with W 2 UpstreamError (Some 502) (gateway ''Upstream request failed'') p a')
               (\<lambda>(e, p, a). Returned (Inl e, p, a))))"

text \<open>The answer that is not streamed, from the events of the upstream.\<close>

definition collect_completion ::
  "world \<Rightarrow> model_rates \<Rightarrow> 'e chat_input list \<Rightarrow> pending_state \<Rightarrow> app_state \<Rightarrow>
     ((api_error + json) \<times> pending_state \<times> app_state) progress" where
  "collect_completion W rates inputs p a =
     and_then (read_chat_terminal (wd_parse W) inputs []) (\<lambda>r.
     case r of
       Inl Chat_Stream_Shutdown \<Rightarrow>
         and_then (finish_with W 3 Canceled None shutdown p a) (\<lambda>(e, p, a). Returned (Inl e, p, a))
     | Inl (Invalid_Terminal usage e) \<Rightarrow>
         and_then (or_panic (finish_terminal (store_finalize W 3) (store_finalize W 4) UpstreamError 502 502
             (map_option (\<lambda>u. to_billable_usage u rates) usage) p a))
           (\<lambda>(_, p, a). Returned (Inl e, p, a))
     | Inl Missing_Terminal \<Rightarrow>
         and_then (finish_with W 3 UpstreamError (Some 502) (gateway ''Upstream response ended without a terminal'') p a)
           (\<lambda>(e, p, a). Returned (Inl e, p, a))
     | Inr converted \<Rightarrow>
         and_then (or_panic (finish_terminal (store_finalize W 3) (store_finalize W 4)
             (final_status_of_chat (ct_status converted)) 200 502
             (Some (to_billable_usage (ct_usage converted) rates)) p a))
           (\<lambda>(accounted, p, a).
             Returned (case accounted of
                 Inl _ \<Rightarrow> Inl (gateway ''Upstream terminal response could not be accounted'')
               | Inr _ \<Rightarrow> Inr (ct_chat_completion converted), p, a)))"

datatype chat_outcome =
    Chat_Refused api_error
  | Chat_Completed json
  | Chat_Streaming model_rates bool request_id pending_state

text \<open>From admission on: the upstream is asked, and its answer streamed by a task or collected.\<close>

definition start_chat ::
  "world \<Rightarrow> bool \<Rightarrow> header_map \<Rightarrow> 'e chat_input list \<Rightarrow> converted_request \<Rightarrow> request_id \<Rightarrow> effective_model \<Rightarrow> app_state \<Rightarrow>
     (chat_outcome \<times> app_state) progress" where
  "start_chat W shutting_down headers inputs converted rid em a =
     and_then (or_panic (apply_effective_request (cq_upstream_request converted) em)) (\<lambda>request.
     and_then (send_upstream W shutting_down request headers (pending_new rid) a) (\<lambda>(r, p, a).
     case r of
       Inl e \<Rightarrow> Returned (Chat_Refused e, pending_drop (store_finalize W 5) p a)
     | Inr response \<Rightarrow>
         if rs_status response < 200 \<or> 299 < rs_status response
         then and_then (finish_with W 2 UpstreamError (Some 502) (gateway ''Upstream request failed'') p a)
                (\<lambda>(e, p, a). Returned (Chat_Refused e, pending_drop (store_finalize W 5) p a))
         else if cq_stream converted
         then and_then (or_panic (response_started 200 p)) (\<lambda>p.
                Returned (Chat_Streaming (em_rates em) (cq_include_usage converted) rid p, a))
         else and_then (collect_completion W (em_rates em) inputs p a) (\<lambda>(r, p, a).
                Returned (case r of Inl e \<Rightarrow> Chat_Refused e | Inr v \<Rightarrow> Chat_Completed v,
                  pending_drop (store_finalize W 5) p a))))"

definition chat_completions ::
  "(string \<Rightarrow> string option) \<Rightarrow> (string \<Rightarrow> string \<Rightarrow> bool) \<Rightarrow> world \<Rightarrow> bool \<Rightarrow> header_map \<Rightarrow> string \<Rightarrow> 'e chat_input list \<Rightarrow>
     app_state \<Rightarrow> (chat_outcome \<times> app_state) progress" where
  "chat_completions to_str ct_eq W shutting_down headers payload inputs a =
     (case authenticate to_str ct_eq headers (as_config a) of
        Inl e \<Rightarrow> Returned (Chat_Refused e, a)
      | Inr ident \<Rightarrow>
          (let refuse = (\<lambda>model effort e.
             (case reject_with W ident model effort ChatCompletions e a of (e, a') \<Rightarrow> Returned (Chat_Refused e, a')))
           in
             case wd_parse W payload of
               None \<Rightarrow> refuse '''' None (invalid ''request'' ''request body must be valid JSON'')
             | Some parsed \<Rightarrow>
                 (let model = str_or '''' (requested_string parsed ''model'');
                      effort = requested_string parsed ''reasoning_effort'' in
                  case model_candidates_for (as_config a) model effort of
                    None \<Rightarrow> Panics
                  | Some None \<Rightarrow> refuse model effort (invalid ''model'' ''model is not configured'')
                  | Some (Some _) \<Rightarrow>
                      (case convert_request parsed of
                         Inl e \<Rightarrow> refuse model effort (invalid (str_or ''request'' (ce_param e)) (ce_message e))
                       | Inr converted \<Rightarrow>
                           (case model_candidates_for (as_config a) (cq_model converted) (cq_reasoning_effort converted) of
                              Some (Some cands) \<Rightarrow>
                                (case admit_request W 0 ident cands ChatCompletions HttpSse a of
                                   (Inl e, a') \<Rightarrow> Returned (Chat_Refused e, a')
                                 | (Inr (rid, em), a') \<Rightarrow>
                                     start_chat W shutting_down headers inputs converted rid em a')
                            | _ \<Rightarrow> Panics)))))"

text \<open>The task of a chat stream, over the shared state; the guard is dropped at its end.\<close>

definition chat_task ::
  "world \<Rightarrow> (nat \<Rightarrow> bool) \<Rightarrow> model_rates \<Rightarrow> bool \<Rightarrow> 'e chat_input list \<Rightarrow> pending_state \<Rightarrow> app_state \<Rightarrow> app_state progress" where
  "chat_task W down_ok rates include_usage inputs p a =
     and_then (forward_chat_stream (wd_parse W) (wd_print W) down_ok rates (store_finalize W 3) (store_finalize W 4)
         inputs \<lparr>cs_converter = converter_new include_usage, cs_out = [], cs_pending = p, cs_store = a\<rparr>)
       (\<lambda>s. Returned (pending_drop (store_finalize W 5) (cs_pending s) (cs_store s)))"

section \<open>Images\<close>

text \<open>The body is passed on until the shutdown: \<open>passed\<close> bytes of it.\<close>

definition images ::
  "(string \<Rightarrow> string option) \<Rightarrow> (string \<Rightarrow> string \<Rightarrow> bool) \<Rightarrow> url_ops \<Rightarrow> world \<Rightarrow> bool \<Rightarrow> nat \<Rightarrow> header_map \<Rightarrow> string \<Rightarrow>
     string \<Rightarrow> app_state \<Rightarrow> (api_error + http_response) \<times> app_state" where
  "images to_str ct_eq U W shutting_down passed headers payload operation a =
     (case authenticate to_str ct_eq headers (as_config a) of
        Inl e \<Rightarrow> (Inl e, a)
      | Inr _ \<Rightarrow>
          (case wd_parse W payload of
             None \<Rightarrow> (Inl (invalid ''request'' ''request body must be valid JSON''), a)
           | Some parsed \<Rightarrow>
               if shutting_down then (Inl shutdown, a)
               else
                 (case upstream_images (wd_from_str W) U (wd_net W) (wd_creds W 0) (wd_refresh W 0) (as_client a) operation
                         parsed headers (as_sends a) of
                    (Inl _, sent) \<Rightarrow> (Inl (gateway ''Upstream image request failed''), a\<lparr>as_sends := sent\<rparr>)
                  | (Inr response, sent) \<Rightarrow>
                      (Inr \<lparr>rs_status = rs_status response,
                          rs_headers = List.map_filter (\<lambda>name. map_option (Pair name) (header_get (rs_headers response) name))
                            [''content-type'', ''x-codex-imagegen-request-id''],
                          rs_body = take passed (rs_body response)\<rparr>,
                       a\<lparr>as_sends := sent\<rparr>))))"

definition image_generations where
  "image_generations to_str ct_eq U W shutting_down passed headers payload a =
     images to_str ct_eq U W shutting_down passed headers payload ''generations'' a"

definition image_edits where
  "image_edits to_str ct_eq U W shutting_down passed headers payload a =
     images to_str ct_eq U W shutting_down passed headers payload ''edits'' a"


section \<open>Every admitted request is closed\<close>

lemma reject_with_leaves:
  assumes "store_ok (as_store a)"
  shows "leaves_open (wd_decimal W) {} a (snd (reject_with W ident model effort protocol e a))"
proof -
  obtain r a' where f: "store_reject W 0 (http_context ident protocol HttpSse) model effort (Some 400) a = (r, a')"
    by fastforce
  from store_reject_leaves [OF assms f] f show ?thesis
    by (cases r) (simp_all add: reject_with_def reject_request_def)
qed

lemma admit_request_cases:
  assumes "store_ok (as_store a)"
  obtains (refused) e a' where "admit_request W k ident cands protocol transport a = (Inl e, a')" "leaves_open (wd_decimal W) {} a a'"
  | (admitted) rid em a' where "admit_request W k ident cands protocol transport a = (Inr (rid, em), a')"
      "leaves_open (wd_decimal W) {rid} a a'" "em = primary cands \<or> fallback cands = Some em"
proof -
  obtain r a' where f: "store_begin W k (http_context ident protocol transport) (client_quota ident) cands a = (r, a')"
    by fastforce
  note new = store_begin_leaves [OF assms f]
  consider e where "r = Inl e" | "r = Inr WeeklyQuotaExceeded" | rid em where "r = Inr (Admitted rid em)"
    by (metis Admission.exhaust sum.exhaust)
  then show ?thesis
  proof cases
    case (3 rid em)
    with f new store_begin_candidate show ?thesis
      by (intro admitted [of rid em a']) (fastforce simp: admit_request_def)+
  qed (use f new in \<open>auto intro!: refused simp: admit_request_def\<close>)
qed

lemma finish_with_guarded:
  assumes "reliable_world W" "guarded W a0 rid (Open q) a" "opt_all (\<lambda>n. 100 \<le> n \<and> n \<le> 599) http"
  shows "\<exists>e' a'. finish_with W k status http e (Open q) a = Returned (e', Finalized, a') \<and> guarded W a0 rid Finalized a'"
proof -
  from guarded_finish [OF assms] obtain r a' where
    "finish (store_finalize W k) status http None (Open q) a = Some (r, Finalized, a')" "guarded W a0 rid Finalized a'" .
  then show ?thesis by (simp add: finish_with_def)
qed

lemma send_upstream_guarded:
  assumes rel: "reliable_world W" and g: "guarded W a0 rid (Open q) a"
  obtains (failed) e a' where "send_upstream W shutting_down b headers (Open q) a = Returned (Inl e, Finalized, a')"
      "guarded W a0 rid Finalized a'"
  | (answered) response a' where
      "send_upstream W shutting_down b headers (Open q) a = Returned (Inr response, Open q, a')"
      "guarded W a0 rid (Open q) a'"
proof (cases shutting_down)
  case True
  from finish_with_guarded [OF rel g, of None 2 Canceled shutdown] obtain e' a' where
    "finish_with W 2 Canceled None shutdown (Open q) a = Returned (e', Finalized, a')" "guarded W a0 rid Finalized a'"
    by auto
  then show ?thesis using True by (intro failed [of e' a']) (simp_all add: send_upstream_def)
next
  case False
  obtain r a' where post: "post_upstream W 1 b headers a = (r, a')" by fastforce
  then have "as_store a' = as_store a" "as_config a' = as_config a" "as_client a' = as_client a"
    by (auto simp: post_upstream_def split: prod.splits)
  from g guarded_frame [OF this, of W a0 rid "Open q"] have g': "guarded W a0 rid (Open q) a'" by simp
  show ?thesis
  proof (cases r)
    case (Inr response)
    then show ?thesis using False post g' by (intro answered [of response a']) (simp_all add: send_upstream_def)
  next
    case (Inl x)
    from finish_with_guarded [OF rel g', of "Some 502" 2 UpstreamError "gateway ''Upstream request failed''"] obtain e' a2 where
      "finish_with W 2 UpstreamError (Some 502) (gateway ''Upstream request failed'') (Open q) a' =
         Returned (e', Finalized, a2)" "guarded W a0 rid Finalized a2" by auto
    then show ?thesis using False post Inl by (intro failed [of e' a2]) (simp_all add: send_upstream_def)
  qed
qed

lemma collect_completion_guarded:
  assumes rel: "reliable_world W" and g: "guarded W a0 rid (Open q) a"
  shows "collect_completion W rates inputs (Open q) a = Waiting \<or>
    (\<exists>r a'. collect_completion W rates inputs (Open q) a = Returned (r, Finalized, a') \<and> guarded W a0 rid Finalized a')"
proof (cases "read_chat_terminal (wd_parse W) inputs []")
  case Panics
  then show ?thesis using read_chat_terminal_no_panic by blast
next
  case Waiting
  then show ?thesis by (simp add: collect_completion_def)
next
  case (Returned r)
  note stop = finish_with_guarded [OF rel g, where k = 3]
  have terminal: "\<exists>x a'. finish_terminal (store_finalize W 3) (store_finalize W 4) status h 502 u (Open q) a =
      Some (x, Finalized, a') \<and> guarded W a0 rid Finalized a'" if "100 \<le> h" "h \<le> 599" for status h u
  proof -
    from guarded_finish_terminal [OF rel g that, where k = 3 and j = 4 and status = status and u = u and ?h2.0 = 502]
    show ?thesis by simp
  qed
  consider "r = Inl Chat_Stream_Shutdown" | usage e where "r = Inl (Invalid_Terminal usage e)"
    | "r = Inl Missing_Terminal" | c where "r = Inr c"
    by (metis ChatStreamError.exhaust sum.exhaust)
  then show ?thesis
  proof cases
    case 1
    with stop [of None Canceled shutdown] show ?thesis by (auto simp: collect_completion_def Returned)
  next
    case 2
    from terminal [of 502 UpstreamError "map_option (\<lambda>u. to_billable_usage u rates) usage"] 2 show ?thesis
      by (auto simp: collect_completion_def Returned)
  next
    case 3
    with stop [of "Some 502" UpstreamError "gateway ''Upstream response ended without a terminal''"] show ?thesis
      by (auto simp: collect_completion_def Returned)
  next
    case (4 c)
    from terminal [of 200 "final_status_of_chat (ct_status c)" "Some (to_billable_usage (ct_usage c) rates)"] 4
    show ?thesis by (auto simp: collect_completion_def Returned)
  qed
qed

lemma read_chat_terminal_ends: "Chat_Eof \<in> set inputs \<Longrightarrow> read_chat_terminal parse inputs items \<noteq> Waiting"
proof (induction inputs arbitrary: items)
  case (Cons i inputs)
  have "finish_chat_terminal items t \<noteq> Waiting" for t
    by (simp add: finish_chat_terminal_def Let_def or_panic_def split: option.split sum.split)
  with Cons show ?case by (auto split: chat_input.split sum.split option.split SseRead.split)
qed simp

lemma collect_completion_ends:
  assumes "collect_completion W rates inputs p a = Waiting" shows "Chat_Eof \<notin> set inputs"
proof
  assume "Chat_Eof \<in> set inputs"
  then have "read_chat_terminal (wd_parse W) inputs [] \<noteq> Waiting" by (rule read_chat_terminal_ends)
  with assms show False
    by (cases "read_chat_terminal (wd_parse W) inputs []")
      (auto simp: collect_completion_def finish_with_def or_panic_def
        split: sum.splits ChatStreamError.splits progress.splits option.splits prod.splits)
qed

text \<open>What the handler of a chat request may leave behind.\<close>

definition chat_left :: "world \<Rightarrow> 'e chat_input list \<Rightarrow> app_state \<Rightarrow> (chat_outcome \<times> app_state) progress \<Rightarrow> bool" where
  "chat_left W inputs a0 result =
     (case result of
        Panics \<Rightarrow> False
      | Waiting \<Rightarrow> Chat_Eof \<notin> set inputs
      | Returned (Chat_Streaming rates include_usage rid p, a) \<Rightarrow>
          leaves_open (wd_decimal W) {rid} a0 a \<and> p = Open \<lparr>open_request_id = rid, open_drop_status = Canceled, open_drop_http_status = Some 200\<rparr>
      | Returned (_, a) \<Rightarrow> leaves_open (wd_decimal W) {} a0 a)"

lemma start_chat_left:
  assumes rel: "reliable_world W" and new: "leaves_open (wd_decimal W) {rid} a0 a"
    and applied: "apply_effective_request (cq_upstream_request c) em = Some request"
  shows "chat_left W inputs a0 (start_chat W shutting_down headers inputs c rid em a)"
proof -
  note g = guarded_new [OF new, unfolded pending_new_def]
  note drop = guarded_drop [OF rel, where k = 5]
  show ?thesis
    using rel g
  proof (cases rule: send_upstream_guarded [where shutting_down = shutting_down and b = request and headers = headers])
    case (failed e a')
    with drop [of a0 rid Finalized a'] show ?thesis
      by (simp add: start_chat_def applied pending_new_def chat_left_def)
  next
    case (answered response a')
    show ?thesis
    proof (cases "rs_status response < 200 \<or> 299 < rs_status response")
      case True
      from finish_with_guarded [OF rel answered(2), of "Some 502" 2 UpstreamError "gateway ''Upstream request failed''"]
      obtain e a2 where f: "finish_with W 2 UpstreamError (Some 502) (gateway ''Upstream request failed'')
          (Open \<lparr>open_request_id = rid, open_drop_status = Canceled, open_drop_http_status = None\<rparr>) a' =
          Returned (e, Finalized, a2)" "guarded W a0 rid Finalized a2" by auto
      with True drop [OF f(2)] show ?thesis
        by (simp add: start_chat_def applied pending_new_def answered(1) chat_left_def)
    next
      case False
      show ?thesis
      proof (cases "cq_stream c")
        case True
        with False answered(2) show ?thesis
          by (simp add: start_chat_def applied pending_new_def answered(1) chat_left_def guarded_leaves)
      next
        case unstreamed: False
        from collect_completion_guarded [OF rel answered(2), of "em_rates em" inputs] show ?thesis
        proof (elim disjE exE conjE)
          assume w: "collect_completion W (em_rates em) inputs
              (Open \<lparr>open_request_id = rid, open_drop_status = Canceled, open_drop_http_status = None\<rparr>) a' = Waiting"
          from w collect_completion_ends [OF w] False unstreamed show ?thesis
            by (simp add: start_chat_def applied pending_new_def answered(1) chat_left_def)
        next
          fix r a2 assume f: "collect_completion W (em_rates em) inputs
              (Open \<lparr>open_request_id = rid, open_drop_status = Canceled, open_drop_http_status = None\<rparr>) a' =
              Returned (r, Finalized, a2)" "guarded W a0 rid Finalized a2"
          with drop [OF f(2)] False unstreamed show ?thesis
            by (cases r) (simp_all add: start_chat_def applied pending_new_def answered(1) chat_left_def)
        qed
      qed
    qed
  qed
qed

lemma forward_chat_stream_ends:
  "Chat_Eof \<in> set inputs \<Longrightarrow> forward_chat_stream parse print down_ok rates fin fin2 inputs s \<noteq> Waiting"
proof (induction inputs arbitrary: s)
  case (Cons i inputs)
  have stop: "chat_stop fin status s \<noteq> Waiting" for status s
    by (simp add: chat_stop_def finish_quietly_def or_panic_def split: option.split prod.split)
  have settle: "settle_chat print down_ok rates fin fin2 terminal s \<noteq> Waiting" for terminal s
    by (simp add: settle_chat_def Let_def or_panic_def split: option.split prod.split sum.split)
  from Cons stop settle show ?case
    by (auto split: chat_input.split sum.split option.split SseRead.split prod.split)
qed simp

lemma chat_task_closes:
  assumes rel: "reliable_world W" and ok: "store_ok (as_store a)"
  shows "case chat_task W down_ok rates include_usage inputs (Open q) a of
      Panics \<Rightarrow> False
    | Waiting \<Rightarrow> Chat_Eof \<notin> set inputs
    | Returned a' \<Rightarrow> leaves_open (wd_decimal W) {} a a' \<and> \<not> row_started (as_store a') (open_request_id q)"
proof -
  let ?s = "\<lparr>cs_converter = converter_new include_usage, cs_out = [], cs_pending = Open q, cs_store = a\<rparr>"
  note sound = forward_chat_sound [where s = ?s and parse = "wd_parse W" and print = "wd_print W" and q = q and
      down_ok = down_ok and rates = rates and fin = "store_finalize W 3" and ?fin2.0 = "store_finalize W 4" and inputs = inputs]
  show ?thesis
  proof (cases "forward_chat_stream (wd_parse W) (wd_print W) down_ok rates (store_finalize W 3) (store_finalize W 4) inputs ?s")
    case Waiting
    then show ?thesis using forward_chat_stream_ends by (fastforce simp: chat_task_def)
  next
    case Panics
    with sound show ?thesis by simp
  next
    case (Returned s)
    with sound have s: "cs_pending s = Finalized" "closed_by (store_finalize W 3) (store_finalize W 4) q a (cs_store s)"
      by (simp_all add: chat_closed_def)
    from af.closed_by_closes [where X = "{}", OF leaves_open_refl [OF ok] _ _ s(2)] rel show ?thesis
      by (simp add: chat_task_def Returned s(1) reliable_world_def)
  qed
qed

lemma chat_admitted_left:
  assumes ok: "store_ok (as_store a)" and cfg: "config_ok (as_config a)" and rel: "reliable_world W"
    and auth: "authenticate to_str ct_eq headers (as_config a) = Inr ident" and parsed: "wd_parse W payload = Some v"
    and found: "model_candidates_for (as_config a) (str_or '''' (requested_string v ''model''))
      (requested_string v ''reasoning_effort'') = Some (Some cands)"
    and converted: "convert_request v = Inr c"
  shows "chat_left W inputs a (chat_completions to_str ct_eq W shutting_down headers payload inputs a)"
proof -
  let ?run = "chat_completions to_str ct_eq W shutting_down headers payload inputs a"
  let ?model = "str_or '''' (requested_string v ''model'')" and ?effort = "requested_string v ''reasoning_effort''"
  note named = converted_request_named [OF converted]
  from named(1,2) have names: "?model = cq_model c" "?effort = cq_reasoning_effort c"
    by (simp_all add: requested_string_def str_or_def)
  have run: "?run = (case admit_request W 0 ident cands ChatCompletions HttpSse a of
      (Inl e, a') \<Rightarrow> Returned (Chat_Refused e, a')
    | (Inr (rid, em), a') \<Rightarrow> start_chat W shutting_down headers inputs c rid em a')"
    using auth parsed found converted by (simp add: chat_completions_def names)
  show ?thesis
  proof (cases rule: admit_request_cases [OF ok, where W = W and k = 0 and ident = ident and cands = cands
        and protocol = ChatCompletions and transport = HttpSse])
    case (1 e a')
    then show ?thesis by (simp add: run chat_left_def)
  next
    case (2 rid em a')
    from candidate_effective [OF cfg found 2(3)] named(3) obtain u name where
      u: "cq_upstream_request c = JObj u" "effective_ok (as_config a) name (requested_effort (JObj u)) em"
      using names(2) by auto
    from apply_effective_request_total [OF u(2)] u(1) obtain request where
      "apply_effective_request (cq_upstream_request c) em = Some request" by auto
    from start_chat_left [OF rel 2(2) this] show ?thesis by (simp add: run 2(1))
  qed
qed

lemma chat_completions_left:
  assumes ok: "store_ok (as_store a)" and valid: "validate (as_config a) = Inr ()" and rel: "reliable_world W"
  shows "chat_left W inputs a (chat_completions to_str ct_eq W shutting_down headers payload inputs a)"
proof -
  have cfg: "config_ok (as_config a)" using valid by (simp add: validate_iff)
  have refused: "chat_left W inputs a (case reject_with W ident model effort ChatCompletions e a of
      (e, a') \<Rightarrow> Returned (Chat_Refused e, a'))" for ident model effort e
    using reject_with_leaves [OF ok, of W ident model effort ChatCompletions e]
    by (cases "reject_with W ident model effort ChatCompletions e a") (simp add: chat_left_def)
  show ?thesis
  proof (cases "authenticate to_str ct_eq headers (as_config a)")
    case (Inl e)
    with ok show ?thesis by (simp add: chat_completions_def chat_left_def leaves_open_refl)
  next
    case auth: (Inr ident)
    show ?thesis
    proof (cases "wd_parse W payload")
      case None
      with auth show ?thesis by (simp add: chat_completions_def refused)
    next
      case parsed: (Some v)
      let ?model = "str_or '''' (requested_string v ''model'')" and ?effort = "requested_string v ''reasoning_effort''"
      from model_candidates_for_cases [OF cfg, of ?model ?effort] show ?thesis
      proof (elim disjE exE conjE)
        assume "model_candidates_for (as_config a) ?model ?effort = Some None"
        with auth parsed show ?thesis by (simp add: chat_completions_def refused)
      next
        fix cands assume found: "model_candidates_for (as_config a) ?model ?effort = Some (Some cands)"
        show ?thesis
        proof (cases "convert_request v")
          case (Inl e)
          with auth parsed found show ?thesis by (simp add: chat_completions_def refused)
        next
          case converted: (Inr c)
          show ?thesis by (rule chat_admitted_left [OF ok cfg rel auth parsed found converted])
        qed
      qed
    qed
  qed
qed

text \<open>
  C7. A chat request whatever its body, its upstream and its client: the handler never panics, so the
  configuration found again for the converted request and the body rewritten for the admitted model are
  always there. When it answers, the row it opened, if it opened one, is closed. When it answers with a
  stream, that row is the only one left open, and the task that carries the stream closes it however the
  other tasks move the store meanwhile. Neither waits for ever once the upstream's answer has ended.
\<close>

theorem chat_request_closes_its_row:
  assumes ok: "store_ok (as_store a)" and valid: "validate (as_config a) = Inr ()" and rel: "reliable_world W"
  shows "case chat_completions to_str ct_eq W shutting_down headers payload inputs a of
      Panics \<Rightarrow> False
    | Waiting \<Rightarrow> Chat_Eof \<notin> set inputs
    | Returned (Chat_Streaming rates include_usage rid p, a') \<Rightarrow>
        leaves_open (wd_decimal W) {rid} a a' \<and>
        (\<forall>a2 down_ok inputs2. others_may (wd_decimal W) a' a2 \<longrightarrow>
           (case chat_task W down_ok rates include_usage inputs2 p a2 of
              Panics \<Rightarrow> False
            | Waiting \<Rightarrow> (Chat_Eof :: 'e chat_input) \<notin> set inputs2
            | Returned a3 \<Rightarrow> leaves_open (wd_decimal W) {} a2 a3 \<and> \<not> row_started (as_store a3) rid))
    | Returned (_, a') \<Rightarrow> leaves_open (wd_decimal W) {} a a'"
proof -
  have left: "chat_left W inputs a (chat_completions to_str ct_eq W shutting_down headers payload inputs a)"
    by (rule chat_completions_left [OF ok valid rel])
  show ?thesis
  proof (cases "chat_completions to_str ct_eq W shutting_down headers payload inputs a")
    case (Returned x)
    obtain outcome a' where x: "x = (outcome, a')" by (cases x)
    show ?thesis
    proof (cases outcome)
      case (Chat_Streaming rates include_usage rid p)
      let ?q = "\<lparr>open_request_id = rid, open_drop_status = Canceled, open_drop_http_status = Some 200\<rparr>"
      from left Returned x Chat_Streaming have new: "leaves_open (wd_decimal W) {rid} a a'" and p: "p = Open ?q"
        by (simp_all add: chat_left_def)
      have "case chat_task W down_ok rates include_usage inputs2 p a2 of
          Panics \<Rightarrow> False
        | Waiting \<Rightarrow> (Chat_Eof :: 'e chat_input) \<notin> set inputs2
        | Returned a3 \<Rightarrow> leaves_open (wd_decimal W) {} a2 a3 \<and> \<not> row_started (as_store a3) rid" if "others_may (wd_decimal W) a' a2" for a2 down_ok inputs2
      proof -
        from others_may_ok [OF that] new have "store_ok (as_store a2)" by (simp add: leaves_open_def)
        from chat_task_closes [OF rel this, where down_ok = down_ok and rates = rates and include_usage = include_usage and
          inputs = inputs2 and q = ?q] show ?thesis
          by (auto simp: p split: progress.splits)
      qed
      with new show ?thesis by (simp add: Returned x Chat_Streaming)
    qed (use left in \<open>simp_all add: chat_left_def Returned x\<close>)
  qed (use left in \<open>simp_all add: chat_left_def\<close>)
qed

theorem chat_request_closes_its_row_witness:
  "\<exists>outcome a'. chat_completions Some (=) (demo_world\<lparr>wd_parse := \<lambda>t. Some Chat_Request.demo_chat\<rparr>) False
      [(''authorization'', ''Bearer s2'')] ''chat'' [Chat_Eof :: unit chat_input] demo_app = Returned (outcome, a') \<and>
    leaves_open (wd_decimal demo_world) (case outcome of Chat_Streaming _ _ rid _ \<Rightarrow> {rid} | _ \<Rightarrow> {}) demo_app a'"
proof -
  let ?W = "demo_world\<lparr>wd_parse := \<lambda>t. Some Chat_Request.demo_chat\<rparr>"
  have rel: "reliable_world ?W" using demo_reliable by (simp add: reliable_world_def)
  show ?thesis
    using chat_request_closes_its_row [OF demo_app_ok rel, where to_str = Some and ct_eq = "(=)" and
        shutting_down = False and headers = "[(''authorization'', ''Bearer s2'')]" and payload = "''chat''" and
        inputs = "[Chat_Eof :: unit chat_input]"]
    by (auto split: progress.splits chat_outcome.splits)
qed

section \<open>Every Responses request is closed\<close>

lemma acquire_error_status: "acquire key now c = (Inl e, c') \<Longrightarrow> err_status e = 409"
  by (auto simp: acquire_def spawn_session_def session_busy_def Let_def split: option.splits if_splits)

lemma stream_turn_guarded:
  assumes rel: "reliable_world W" and g: "guarded W a0 rid (Open q) a"
  shows "\<exists>r c' p' a'. stream_turn (store_finalize W k) now delivered key c (Open q) a = Returned (r, c', p', a') \<and>
    guarded W a0 rid p' a' \<and> (\<forall>t. r = Inr t \<longrightarrow> p' = Open q)"
proof -
  obtain r c' where q: "acquire key now c = (r, c')" by fastforce
  show ?thesis
  proof (cases r)
    case (Inl e)
    from acquire_error_status q Inl have "err_status e = 409" by blast
    then obtain x a' where f: "finish (store_finalize W k) Rejected (Some (int (err_status e))) None (Open q) a =
        Some (x, Finalized, a')" "guarded W a0 rid Finalized a'"
      using guarded_finish [OF rel g, of "Some (int (err_status e))" k Rejected] by auto
    then show ?thesis using q Inl by (cases x) (simp_all add: stream_turn_def)
  next
    case (Inr t)
    obtain x a' where f: "finish (store_finalize W k) Canceled (Some 503) None (Open q) a =
        Some (x, Finalized, a')" "guarded W a0 rid Finalized a'"
      using guarded_finish [OF rel g, of "Some 503" k Canceled] by auto
    show ?thesis
    proof (cases delivered)
      case True
      with q Inr g show ?thesis by (simp add: stream_turn_def)
    next
      case False
      with q Inr f show ?thesis by (cases x) (simp_all add: stream_turn_def)
    qed
  qed
qed

lemma optional_false_ok: "optional_false field unsupported v = Inr () \<longleftrightarrow> v \<in> {None, Some JNull, Some (JBool False)}"
  by (simp add: optional_false_def split: option.split json.split bool.split)

text \<open>A normalised request is streamed, not stored, and otherwise the client's with its input expanded.\<close>

lemma normalized_request:
  assumes "normalize_responses_request v = Inr b"
  shows "\<exists>m. b = JObj m \<and> requested_effort (JObj m) = requested_effort v"
proof -
  from assms obtain m where m: "v = JObj m" "b = JObj (bmap_insert ''store'' (JBool False) (expand_input m))"
    by (cases v) (auto simp: normalize_responses_request_def res_bind_def ok_or_def split: if_splits sum.splits)
  then show ?thesis by (auto simp: requested_effort_def expand_input_other)
qed

lemma applied_object:
  assumes "effective_ok c model (requested_effort (JObj b)) m"
  shows "\<exists>request. apply_effective_request (JObj b) m = Some (JObj request)"
  using apply_effective_request_total [OF assms]
  by (auto simp: apply_effective_request_def Let_def split: option.splits)

text \<open>What the handler of a Responses request may leave behind.\<close>

definition responses_left :: "world \<Rightarrow> app_state \<Rightarrow> (responses_outcome \<times> app_state) progress \<Rightarrow> bool" where
  "responses_left W a0 result =
     (case result of
        Panics \<Rightarrow> False
      | Waiting \<Rightarrow> False
      | Returned (Responses_Handed _ t rid p, a) \<Rightarrow>
          leaves_open (wd_decimal W) {rid} a0 a \<and> p = pending_new rid \<and> is_object (tn_body t) \<and>
          opt_bind (jget (tn_model t) ''use_responses_lite'') as_bool = Some True
      | Returned (Responses_Refused _, a) \<Rightarrow> leaves_open (wd_decimal W) {} a0 a)"

lemma start_turn_left:
  assumes rel: "reliable_world W" and new: "leaves_open (wd_decimal W) {rid} a0 a"
    and applied: "apply_effective_request upstream_body em = Some (JObj request)"
  shows "responses_left W a0 (start_turn W now delivered headers key upstream_body rid em a)"
proof -
  note drop = guarded_drop [OF rel]
  obtain found a1 where look: "lookup_model W (Suc 0) (em_model em) a = (found, a1)" by fastforce
  from guarded_new [OF new] have g: "guarded W a0 rid (pending_new rid) a1"
    using guarded_frame [OF lookup_model_effect [OF look], of W a0 rid "pending_new rid"] by simp
  show ?thesis
  proof (cases "lite_model found")
    case (Inl e)
    with drop [OF g] show ?thesis by (simp add: start_turn_def applied look responses_left_def)
  next
    case (Inr model)
    then have lite: "opt_bind (jget model ''use_responses_lite'') as_bool = Some True"
      by (auto simp: lite_model_def opt_filter_def ok_or_def res_bind_def map_err_def split: sum.splits option.splits if_splits)
    from stream_turn_guarded [OF rel g [unfolded pending_new_def]] obtain r c p a2 where
      s: "stream_turn (store_finalize W 2) now delivered key (as_sessions a1) (pending_new rid) a1 = Returned (r, c, p, a2)"
        "guarded W a0 rid p a2" "\<And>t. r = Inr t \<Longrightarrow> p = pending_new rid"
      unfolding pending_new_def by blast
    have g2: "guarded W a0 rid p (a2\<lparr>as_sessions := c\<rparr>)"
      using s(2) guarded_frame [of "a2\<lparr>as_sessions := c\<rparr>" a2] by simp
    show ?thesis
    proof (cases r)
      case (Inl e)
      with \<open>lite_model found = Inr model\<close> drop [OF g2] show ?thesis
        by (simp add: start_turn_def applied look s(1) responses_left_def)
    next
      case r: (Inr t)
      with Inr g2 s(3) lite show ?thesis
        by (simp add: start_turn_def applied look s(1) responses_left_def guarded_leaves)
    qed
  qed
qed

text \<open>A models list the upstream refuses ends the request as \<open>canceled\<close>, without the status of the answer.\<close>

lemma refused_lookup_is_canceled:
  assumes "apply_effective_request upstream_body em = Some request" "lookup_model W 1 (em_model em) a = (Inl e, a')"
  shows "start_turn W now delivered headers key upstream_body rid em a =
    Returned (Responses_Refused (gateway ''Upstream models request failed''),
      snd (store_finalize W 2 rid Canceled None None a'))"
  using assms by (simp add: start_turn_def lite_model_def map_err_def pending_new_def)

lemma responses_admitted_left:
  assumes ok: "store_ok (as_store a)" and cfg: "config_ok (as_config a)" and rel: "reliable_world W"
    and auth: "authenticate to_str ct_eq headers (as_config a) = Inr ident" and parsed: "wd_parse W payload = Some v"
    and found: "model_candidates_for (as_config a) (str_or '''' (requested_string v ''model'')) (requested_effort v) = Some (Some cands)"
    and norm: "normalize_responses_request v = Inr upstream_body"
    and key: "session_key_from_headers to_str (client_id ident) headers = Inr key"
  shows "responses_left W a (responses_handler to_str ct_eq W now delivered headers payload a)"
proof -
  let ?run = "responses_handler to_str ct_eq W now delivered headers payload a"
  from normalized_request [OF norm] obtain b where
    b: "upstream_body = JObj b" "requested_effort (JObj b) = requested_effort v" by blast
  have run: "?run = (case admit_request W 0 ident cands Responses HttpSse a of
      (Inl e, a') \<Rightarrow> Returned (Responses_Refused e, a')
    | (Inr (rid, em), a') \<Rightarrow> start_turn W now delivered headers key upstream_body rid em a')"
    using auth parsed found norm key by (simp add: responses_handler_def)
  show ?thesis
  proof (cases rule: admit_request_cases [OF ok, where W = W and k = 0 and ident = ident and cands = cands
        and protocol = Responses and transport = HttpSse])
    case (1 e a')
    then show ?thesis by (simp add: run responses_left_def)
  next
    case (2 rid em a')
    from candidate_effective [OF cfg found 2(3)] b(2) obtain name where
      "effective_ok (as_config a) name (requested_effort (JObj b)) em" by auto
    from applied_object [OF this] b(1) obtain request where
      "apply_effective_request upstream_body em = Some (JObj request)" by auto
    from start_turn_left [OF rel 2(2) this] show ?thesis by (simp add: run 2(1))
  qed
qed

lemma responses_handler_left:
  assumes ok: "store_ok (as_store a)" and valid: "validate (as_config a) = Inr ()" and rel: "reliable_world W"
  shows "responses_left W a (responses_handler to_str ct_eq W now delivered headers payload a)"
proof -
  have cfg: "config_ok (as_config a)" using valid by (simp add: validate_iff)
  have refused: "responses_left W a (case reject_with W ident model effort Responses e a of
      (e, a') \<Rightarrow> Returned (Responses_Refused e, a'))" for ident model effort e
    using reject_with_leaves [OF ok, of W ident model effort Responses e]
    by (cases "reject_with W ident model effort Responses e a") (simp add: responses_left_def)
  show ?thesis
  proof (cases "authenticate to_str ct_eq headers (as_config a)")
    case (Inl e)
    with ok show ?thesis by (simp add: responses_handler_def responses_left_def leaves_open_refl)
  next
    case auth: (Inr ident)
    show ?thesis
    proof (cases "wd_parse W payload")
      case None
      with auth show ?thesis by (simp add: responses_handler_def refused)
    next
      case parsed: (Some v)
      let ?model = "str_or '''' (requested_string v ''model'')"
      from model_candidates_for_cases [OF cfg, of ?model "requested_effort v"] show ?thesis
      proof (elim disjE exE conjE)
        assume "model_candidates_for (as_config a) ?model (requested_effort v) = Some None"
        with auth parsed show ?thesis by (simp add: responses_handler_def refused)
      next
        fix cands assume found: "model_candidates_for (as_config a) ?model (requested_effort v) = Some (Some cands)"
        show ?thesis
        proof (cases "normalize_responses_request v")
          case (Inl e)
          with auth parsed found show ?thesis by (simp add: responses_handler_def refused)
        next
          case norm: (Inr upstream_body)
          show ?thesis
          proof (cases "session_key_from_headers to_str (client_id ident) headers")
            case (Inl e)
            with auth parsed found norm show ?thesis by (simp add: responses_handler_def refused)
          next
            case key: (Inr key)
            show ?thesis by (rule responses_admitted_left [OF ok cfg rel auth parsed found norm key])
          qed
        qed
      qed
    qed
  qed
qed

lemma handed_turn_closes:
  assumes rel: "reliable_world W" and ok: "store_ok (as_store a)" and t: "is_object (tn_body t)"
    and connect: "\<And>h. connect h \<noteq> None"
  shows "case respond (wd_parse W) (wd_print W) http_date_ok (wd_from_str W) utf8 connect down_ok shutdown_cancelled
      reply_ok permitted (store_finalize W 4) (store_finalize W 5) (store_finalize W 6) arm inputs t s (pending_new rid) a of
      Panics \<Rightarrow> False
    | Waiting \<Rightarrow> arm = Prepare_Done
    | Returned (ended, s', a') \<Rightarrow> leaves_open (wd_decimal W) {} a a' \<and> \<not> row_started (as_store a') rid"
proof -
  let ?r = "respond (wd_parse W) (wd_print W) http_date_ok (wd_from_str W) utf8 connect down_ok shutdown_cancelled
      reply_ok permitted (store_finalize W 4) (store_finalize W 5) (store_finalize W 6) arm inputs t s (pending_new rid) a"
  let ?q = "\<lparr>open_request_id = rid, open_drop_status = Canceled, open_drop_http_status = None\<rparr>"
  show ?thesis
  proof (cases ?r)
    case Waiting
    then show ?thesis
      by (cases arm) (auto simp: respond_def fail_turn_def finish_quietly_def or_panic_def split: option.splits)
  next
    case Panics
    with respond_no_panic [OF connect t, where st = a and q = ?q] show ?thesis by (simp add: pending_new_def)
  next
    case (Returned x)
    obtain ended s' a' where x: "x = (ended, s', a')" by (cases x)
    from af.respond_closes [where q = ?q and k = 4 and j = 5 and i = 6 and X = "{}", OF leaves_open_refl [OF ok]] Returned x rel show ?thesis
      by (fastforce simp: pending_new_def reliable_world_def)
  qed
qed

text \<open>
  C6. A Responses request over HTTP whatever its body, its session and the state of the upstream: the
  handler never panics and always answers. When it refuses, no row it opened is left open. When it hands
  the turn to a session, the row of the request is the only one left open, it travels with the turn, the
  turn is one the session's actor can send (an object, for a model that supports Responses Lite), and
  the actor closes the row whatever the upstream, the client and the shutdown do and however the other
  tasks move the store meanwhile; only preparing the turn can wait for the upstream, and the shutdown
  interrupts that.
\<close>

theorem responses_request_closes_its_row:
  assumes ok: "store_ok (as_store a)" and valid: "validate (as_config a) = Inr ()" and rel: "reliable_world W"
    and connect: "\<And>h. connect h \<noteq> None"
  shows "case responses_handler to_str ct_eq W now delivered headers payload a of
      Panics \<Rightarrow> False
    | Waiting \<Rightarrow> False
    | Returned (Responses_Handed target t rid p, a') \<Rightarrow>
        leaves_open (wd_decimal W) {rid} a a' \<and> opt_bind (jget (tn_model t) ''use_responses_lite'') as_bool = Some True \<and>
        (\<forall>a2. others_may (wd_decimal W) a' a2 \<longrightarrow>
           (case respond (wd_parse W) (wd_print W) http_date_ok (wd_from_str W) utf8 connect down_ok shutdown_cancelled
               reply_ok permitted (store_finalize W 4) (store_finalize W 5) (store_finalize W 6) arm inputs t s p a2 of
              Panics \<Rightarrow> False
            | Waiting \<Rightarrow> arm = Prepare_Done
            | Returned (ended, s', a3) \<Rightarrow> leaves_open (wd_decimal W) {} a2 a3 \<and> \<not> row_started (as_store a3) rid))
    | Returned (Responses_Refused _, a') \<Rightarrow> leaves_open (wd_decimal W) {} a a'"
proof -
  have left: "responses_left W a (responses_handler to_str ct_eq W now delivered headers payload a)"
    by (rule responses_handler_left [OF ok valid rel])
  show ?thesis
  proof (cases "responses_handler to_str ct_eq W now delivered headers payload a")
    case (Returned x)
    obtain outcome a' where x: "x = (outcome, a')" by (cases x)
    show ?thesis
    proof (cases outcome)
      case (Responses_Handed target t rid p)
      from left Returned x Responses_Handed have handed: "leaves_open (wd_decimal W) {rid} a a'" "p = pending_new rid"
        "is_object (tn_body t)" "opt_bind (jget (tn_model t) ''use_responses_lite'') as_bool = Some True"
        by (simp_all add: responses_left_def)
      have "store_ok (as_store a2)" if "others_may (wd_decimal W) a' a2" for a2
        using others_may_ok [OF that] handed(1) by (simp add: leaves_open_def)
      from handed_turn_closes [OF rel this handed(3) connect] handed show ?thesis
        by (simp add: Returned x Responses_Handed)
    qed (use left in \<open>simp add: responses_left_def Returned x\<close>)
  qed (use left in \<open>simp_all add: responses_left_def\<close>)
qed

theorem responses_request_closes_its_row_witness:
  "\<exists>outcome a'. responses_handler Some (=) demo_world 0 True [(''authorization'', ''Bearer s2'')] ''create'' demo_app =
      Returned (outcome, a') \<and>
    leaves_open (wd_decimal demo_world) (case outcome of Responses_Handed _ _ rid _ \<Rightarrow> {rid} | _ \<Rightarrow> {}) demo_app a'"
proof -
  note run = responses_request_closes_its_row [OF demo_app_ok demo_reliable, where to_str = Some and ct_eq = "(=)" and
      now = 0 and delivered = True and headers = "[(''authorization'', ''Bearer s2'')]" and payload = "''create''" and
      connect = "\<lambda>_. Some (Inr demo_ws_socket)" and arm = Prepare_Done and http_date_ok = "\<lambda>_. True" and ?utf8.0 = Some and
      down_ok = "\<lambda>_. True" and shutdown_cancelled = False and reply_ok = True and permitted = True and inputs = "[]" and
      s = demo_actor]
  show ?thesis using run by (auto split: progress.splits responses_outcome.splits)
qed

section \<open>The models list\<close>

lemma listed_model_id:
  "listed_model c access m = Some l \<Longrightarrow> opt_bind (jget l ''id'') as_str = opt_bind (jget m ''slug'') as_str"
  by (cases m) (auto simp: listed_model_def opt_bind_def split: option.splits if_splits)

lemma listed_model_iff:
  assumes "opt_bind (jget m ''slug'') as_str = Some slug"
  shows "(\<exists>l. listed_model c access m = Some l) \<longleftrightarrow>
    opt_bind (jget m ''visibility'') as_str = Some ''list'' \<and> map_of (model_prices c) slug \<noteq> None \<and>
    (access = FallbackOnly \<longrightarrow> fallback_model c = Some slug)"
  using assms by (cases m) (simp_all add: listed_model_def)

lemma in_set_map_filter: "(\<exists>y \<in> set (List.map_filter f xs). P y) \<longleftrightarrow> (\<exists>x \<in> set xs. \<exists>y. f x = Some y \<and> P y)"
  by (induction xs) (auto simp: List.map_filter_def)

lemma available_models_Inr:
  assumes "available_models W k down ident a = (Inr models, a')"
  obtains (blocked) "model_access (wd_decimal W) (wd_faults W k) (wd_clock W k) (client_id ident) (client_quota ident)
      (fallback_model (as_config a) \<noteq> None) (as_store a) = Inr Blocked" "models = []"
  | (listed) access upstream where "model_access (wd_decimal W) (wd_faults W k) (wd_clock W k) (client_id ident)
      (client_quota ident) (fallback_model (as_config a) \<noteq> None) (as_store a) = Inr access" "access \<noteq> Blocked"
      "list_models W k a = (Inr upstream, a')" "models = List.map_filter (listed_model (as_config a) access) upstream"
  using assms
  by (auto simp: available_models_def split: sum.splits ModelAccess.splits if_splits prod.splits)

lemma shown_iff_priced:
  assumes "m \<in> set found" "opt_bind (jget m ''slug'') as_str = Some slug" "opt_bind (jget m ''visibility'') as_str = Some ''list''"
  shows "(\<exists>l \<in> set (List.map_filter (listed_model c access) found). opt_bind (jget l ''id'') as_str = Some slug) \<longleftrightarrow>
      map_of (model_prices c) slug \<noteq> None \<and> (access = FallbackOnly \<longrightarrow> fallback_model c = Some slug)"
proof -
  have "(\<exists>l \<in> set (List.map_filter (listed_model c access) found). opt_bind (jget l ''id'') as_str = Some slug) \<longleftrightarrow>
      (\<exists>m \<in> set found. \<exists>l. listed_model c access m = Some l \<and> opt_bind (jget m ''slug'') as_str = Some slug)"
    unfolding in_set_map_filter using listed_model_id by metis
  with assms listed_model_iff [of _ slug c access] show ?thesis by blast
qed

text \<open>What admission answers at the access that the models list found.\<close>

lemma store_begin_by_access:
  assumes "quota_shape (client_quota ident)"
    and begun: "store_begin W k (http_context ident protocol transport) (client_quota ident) cands a = (Inr adm, st)"
    and access: "model_access (wd_decimal W) (wd_faults W k) (wd_clock W k) (client_id ident) (client_quota ident)
      (fallback cands \<noteq> None) (as_store a) = Inr access"
  shows "case access of
      Blocked \<Rightarrow> adm = WeeklyQuotaExceeded
    | FallbackOnly \<Rightarrow> (\<exists>rid m. fallback cands = Some m \<and> adm = Admitted rid m)
    | All \<Rightarrow> (\<exists>rid. adm = Admitted rid (primary cands))"
proof -
  from begun obtain st' where "begin_request (wd_decimal W) (wd_faults W k) (wd_clock W k) (http_context ident protocol transport)
      (client_quota ident) cands (as_store a) = (Inr adm, st')" by (auto simp: store_begin_def split: prod.splits)
  from model_access_agrees_with_admission [OF assms(1) _ this] access show ?thesis by (simp add: http_context_def)
qed

text \<open>
  C10. The models list shows exactly the models that would be served: for a model the upstream lists, a
  key sees it if and only if a request for it, sent at that moment, finds its candidates and is admitted
  with that very model. So a key over its soft limit sees the fallback only, one over its hard limit
  nothing, and no listed model is answered by another one.
\<close>

theorem listed_exactly_when_served:
  assumes valid: "validate (as_config a) = Inr ()" and shape: "quota_shape (client_quota ident)"
    and listed: "available_models W k False ident a = (Inr models, a')"
    and upstream: "list_models W k a = (Inr found, a2)"
    and model: "m \<in> set found" "opt_bind (jget m ''slug'') as_str = Some slug"
      "opt_bind (jget m ''visibility'') as_str = Some ''list''"
    and begun: "\<And>cands. \<exists>adm st. store_begin W k (http_context ident protocol transport) (client_quota ident) cands a = (Inr adm, st)"
  shows "(\<exists>l \<in> set models. opt_bind (jget l ''id'') as_str = Some slug) \<longleftrightarrow>
    (\<exists>cands rid em. model_candidates_for (as_config a) slug effort = Some (Some cands) \<and>
       fst (store_begin W k (http_context ident protocol transport) (client_quota ident) cands a) = Inr (Admitted rid em) \<and>
       em_model em = slug)"
proof -
  have cfg: "config_ok (as_config a)" using valid by (simp add: validate_iff)
  let ?ctx = "http_context ident protocol transport" and ?c = "as_config a"
  note shown = shown_iff_priced [OF model, of ?c]
  from model_candidates_for_cases [OF cfg, of slug effort] show ?thesis
  proof (elim disjE exE conjE)
    assume none: "map_of (model_prices ?c) slug = None" "model_candidates_for ?c slug effort = Some None"
    show ?thesis
      using listed by (cases rule: available_models_Inr) (use none upstream shown in \<open>auto\<close>)
  next
    fix cands assume c: "model_candidates_for ?c slug effort = Some (Some cands)"
      "effective_ok ?c slug effort (primary cands)"
      "case fallback_model ?c of None \<Rightarrow> fallback cands = None | Some f \<Rightarrow> \<exists>m. fallback cands = Some m \<and> effective_ok ?c f effort m"
    from c(2) have priced: "map_of (model_prices ?c) slug \<noteq> None" and primary: "em_model (primary cands) = slug"
      by (auto simp: effective_ok_def)
    from c(3) have fb: "fallback cands \<noteq> None \<longleftrightarrow> fallback_model ?c \<noteq> None"
      and fbm: "\<And>m. fallback cands = Some m \<Longrightarrow> fallback_model ?c = Some (em_model m)"
      by (auto simp: effective_ok_def split: option.splits)
    obtain adm st where b: "store_begin W k ?ctx (client_quota ident) cands a = (Inr adm, st)" using begun by blast
    note agree = store_begin_by_access [OF shape b, unfolded fb]
    have served: "(\<exists>cands rid em. model_candidates_for ?c slug effort = Some (Some cands) \<and>
       fst (store_begin W k ?ctx (client_quota ident) cands a) = Inr (Admitted rid em) \<and> em_model em = slug) \<longleftrightarrow>
       (\<exists>rid em. adm = Admitted rid em \<and> em_model em = slug)"
      using c(1) b by auto
    show ?thesis
      using listed
    proof (cases rule: available_models_Inr)
      case blocked
      with agree [OF blocked(1)] show ?thesis unfolding served by simp
    next
      case (listed access upstream')
      from listed(3) upstream have "upstream' = found" by simp
      with shown [of access] agree [OF listed(1)] listed(2,4) priced primary fbm show ?thesis
        unfolding served by (cases access) auto
    qed
  qed
qed

definition demo_listed :: json where
  "demo_listed = jobj [(''slug'', JStr ''big''), (''visibility'', JStr ''list'')]"

theorem listed_exactly_when_served_witness:
  "\<exists>models a'. available_models demo_world 0 False \<lparr>client_id = ''bob'',
      client_quota = \<lparr>weekly_limit_usd = None, hard_limit_usd = None\<rparr>\<rparr>
      (demo_app\<lparr>as_models := Some \<lparr>fetched_at = demo_now, cached_list = [demo_listed]\<rparr>\<rparr>) = (Inr models, a') \<and>
    (\<exists>l \<in> set models. opt_bind (jget l ''id'') as_str = Some ''big'')"
proof -
  let ?a = "demo_app\<lparr>as_models := Some \<lparr>fetched_at = demo_now, cached_list = [demo_listed]\<rparr>\<rparr>"
  let ?bob = "\<lparr>client_id = ''bob'', client_quota = \<lparr>weekly_limit_usd = None, hard_limit_usd = None\<rparr>\<rparr>"
  have list: "list_models demo_world 0 ?a = (Inr [demo_listed], ?a)"
    by (simp add: list_models_def upstream_models_def cache_hit_def demo_app_def demo_world_def MODELS_CACHE_TTL_def)
  then obtain models where models: "available_models demo_world 0 False ?bob ?a = (Inr models, ?a)"
    by (simp add: available_models_def model_access_def)
  have begun: "\<exists>st. store_begin demo_world 0 (http_context ?bob Responses HttpSse) (client_quota ?bob) cands ?a =
      (Inr (Admitted (RequestId 1) (primary cands)), st)" for cands
    by (simp add: store_begin_def demo_world_def demo_app_def begin_request_def demo_timestamp demo_spend_empty
        admission_decision_def spend_meets_limit_def insert_row_def i64_max_def)
  have slug: "opt_bind (jget demo_listed ''slug'') as_str = Some ''big''"
      "opt_bind (jget demo_listed ''visibility'') as_str = Some ''list''"
    by (simp_all add: demo_listed_def)
  have valid: "validate (as_config ?a) = Inr ()" and shape: "quota_shape (client_quota ?bob)"
    using demo_app_ok(2) by (simp_all add: quota_shape_def)
  have answers: "\<exists>adm st. store_begin demo_world 0 (http_context ?bob Responses HttpSse) (client_quota ?bob) cands ?a = (Inr adm, st)"
    for cands using begun [of cands] by blast
  note served = listed_exactly_when_served [OF valid shape models list _ slug answers, where effort = None, THEN iffD2]
  obtain cands where cands: "model_candidates_for (as_config ?a) ''big'' None = Some (Some cands)"
      "em_model (primary cands) = ''big''"
    using demo_candidates by (simp add: demo_app_def)
  have "\<exists>l \<in> set models. opt_bind (jget l ''id'') as_str = Some ''big''"
  proof (rule served)
    show "demo_listed \<in> set [demo_listed]" by simp
    from begun [of cands] cands show "\<exists>cands rid em. model_candidates_for (as_config ?a) ''big'' None = Some (Some cands) \<and>
        fst (store_begin demo_world 0 (http_context ?bob Responses HttpSse) (client_quota ?bob) cands ?a) =
          Inr (Admitted rid em) \<and> em_model em = ''big''" by (metis fst_conv)
  qed
  with models show ?thesis by blast
qed

end
