(* ===== verification/Relay.thy ===== *)
theory Relay
  imports Http_Api Ws_Session "HOL-Library.Multiset"
begin

text \<open>
  The relay as a whole (\<open>run_with_clock\<close> of \<open>src/lib.rs\<close>): the shared state, the tasks that outlive the
  handler that spawned them, the steps of the server, and its shutdown. A step is one call of a handler, or
  one task run to its end, or one event of a WebSocket connection, in any order; the surroundings of each
  step are its own \<open>world\<close>, whose database statements succeed.
\<close>

section \<open>What a WebSocket turn leaves open\<close>

lemma leaves_open_trans:
  assumes "leaves_open D X a b" "leaves_open D Y b c" "X \<subseteq> Y" shows "leaves_open D Y a c"
  using assms by (auto simp: leaves_open_def intro: others_may_trans)

text \<open>The shared state moves from one session state to the next, opening only rows the session admitted.\<close>

definition ws_moves :: "decimal_ops \<Rightarrow> ws_session \<Rightarrow> ws_session \<Rightarrow> bool" where
  "ws_moves D s s' \<longleftrightarrow> leaves_open D (set (ws_admitted s')) (ws_app s) (ws_app s') \<and>
     set (ws_admitted s) \<subseteq> set (ws_admitted s')"

lemma ws_moves_trans: "ws_moves D s t \<Longrightarrow> ws_moves D t u \<Longrightarrow> ws_moves D s u"
  by (auto simp: ws_moves_def intro: leaves_open_trans)

lemma ws_moves_ok: "ws_moves D s t \<Longrightarrow> store_ok (as_store (ws_app t))"
  by (simp add: ws_moves_def leaves_open_def)

lemma ws_moves_same:
  assumes "store_ok (as_store (ws_app s))" "ws_app t = ws_app s" "ws_admitted t = ws_admitted s"
  shows "ws_moves D s t"
  using assms by (simp add: ws_moves_def leaves_open_refl)

lemma ws_moves_sends:
  assumes "store_ok (as_store (ws_app s))"
  shows "ws_moves D s (snd (forward_down m s))" "ws_moves D s (snd (forward_up u s))" "ws_moves D s (snd (send_error W e s))"
    "ws_moves D s (snd (down_send m s))" "ws_moves D s (snd (up_send u s))"
  using assms
  by (simp_all add: ws_moves_def leaves_open_refl forward_down_def forward_up_def send_error_def down_send_def up_send_def
      split: prod.split)

lemma ws_moves_finalize:
  assumes "store_ok (as_store (ws_app s))" "ws_finalize W k rid status usage s = (r, s')"
  shows "ws_moves (wd_decimal W) s s'"
proof -
  obtain a where f: "store_finalize W k rid status None usage (ws_app s) = (r, a)" "s' = s\<lparr>ws_app := a\<rparr>"
    using assms(2) by (auto simp: ws_finalize_def split: prod.splits)
  from store_finalize_leaves [OF leaves_open_refl [OF assms(1)] f(1)] f(2) show ?thesis by (simp add: ws_moves_def)
qed

lemma ws_moves_reject:
  assumes "store_ok (as_store (ws_app s))"
  shows "ws_moves (wd_decimal W) s (snd (ws_reject W k v err s))"
proof -
  obtain r a where f: "store_reject W k (ws_context (ws_identity s)) (str_or '''' (requested_model v))
      (nested_effort v) None (ws_app s) = (r, a)" by fastforce
  from store_reject_leaves [OF assms f] have "ws_moves (wd_decimal W) s (s\<lparr>ws_app := a\<rparr>)"
    by (auto simp: ws_moves_def leaves_open_def)
  with ws_moves_trans [OF this ws_moves_sends(3) [OF ws_moves_ok [OF this]]] f show ?thesis
    by (cases r) (simp_all add: ws_reject_def ws_record_rejection_def)
qed

lemma ws_moves_fail_create:
  assumes "store_ok (as_store (ws_app s))"
  shows "ws_moves (wd_decimal W) s (snd (fail_create W k rid s))"
  using ws_moves_finalize [OF assms]
  by (cases "ws_finalize W k rid UpstreamError None s") (simp add: fail_create_def)

lemma ws_moves_refuse_create:
  assumes "store_ok (as_store (ws_app s))"
  shows "ws_moves (wd_decimal W) s (snd (refuse_create W k rid s))"
proof -
  obtain r s' where f: "ws_finalize W k rid Rejected None s = (r, s')" by fastforce
  note moved = ws_moves_finalize [OF assms f]
  from f moved ws_moves_trans [OF moved ws_moves_sends(3) [OF ws_moves_ok [OF moved]]] show ?thesis
    by (cases r) (simp_all add: refuse_create_def)
qed

lemma ws_moves_send_create:
  assumes ok: "store_ok (as_store (ws_app s))" and sent: "send_create W k rid em payload s = Returned (e, s')"
  shows "ws_moves (wd_decimal W) s s'"
proof -
  obtain found a where l: "lookup_model W k (em_model em) (ws_app s) = (found, a)" by fastforce
  have looked: "ws_moves (wd_decimal W) s (s\<lparr>ws_app := a, ws_upstream := u\<rparr>)"
    "ws_moves (wd_decimal W) s (s\<lparr>ws_app := a\<rparr>)" for u
    using leaves_open_frame [OF lookup_model_effect [OF l], of "wd_decimal W" _ "ws_app s"] leaves_open_refl [OF ok]
    by (simp_all add: ws_moves_def)
  have failed: "ws_moves (wd_decimal W) s (snd (fail_create W k rid (s\<lparr>ws_app := a, ws_upstream := u\<rparr>)))"
    "ws_moves (wd_decimal W) s (snd (fail_create W k rid (s\<lparr>ws_app := a\<rparr>)))" for u
    using looked ws_moves_trans ws_moves_fail_create ws_moves_ok by metis+
  have active: "ws_moves (wd_decimal W) s (s\<lparr>ws_app := a, ws_upstream := u, ws_active := x\<rparr>)" for u x
    using looked(1) [of u] by (simp add: ws_moves_def)
  let ?m = "res_bind (map_err (\<lambda>_. ()) found) (\<lambda>m.
     ok_or () (opt_filter (\<lambda>model. opt_bind (jget model ''use_responses_lite'') as_bool = Some True) m))"
  from sent obtain request where request: "apply_effective_request payload em = Some request"
    by (cases "apply_effective_request payload em") (simp_all add: send_create_def)
  show ?thesis
  proof (cases ?m)
    case (Inl e)
    then show ?thesis using sent request l failed(2) by (simp add: send_create_def)
  next
    case model: (Inr model)
    show ?thesis
    proof (cases "prepare_responses_lite (wd_parse W) (wd_print W) request model (request_key_of rid) (ws_upstream s)")
      case None
      then show ?thesis using sent request l model by (simp add: send_create_def)
    next
      case (Some x)
      obtain r u where x: "x = (r, u)" by (cases x)
      show ?thesis
      proof (cases r)
        case (Inl e)
        then show ?thesis using sent request l model Some x failed(1) [of u] by (simp add: send_create_def)
      next
        case (Inr prepared)
        obtain req where req: "prepared = Some req"
          using Some x Inr prepare_responses_lite_no_panic by blast
        obtain good u' where send: "socket_send (UM_Text (wd_print W req)) u = (good, u')" by fastforce
        show ?thesis
        proof (cases good)
          case True
          then show ?thesis using sent request l model Some x Inr req send active
            by (simp add: send_create_def up_send_def Let_def) blast
        next
          case False
          then show ?thesis using sent request l model Some x Inr req send failed(1) [of u']
            by (simp add: send_create_def up_send_def Let_def)
        qed
      qed
    qed
  qed
qed

lemma ws_moves_create:
  assumes ok: "store_ok (as_store (ws_app s))" and sent: "handle_create W k t s = Returned (e, s')"
  shows "ws_moves (wd_decimal W) s s'"
proof -
  note reject = ws_moves_reject [OF ok, of W k]
  show ?thesis
  proof (cases "wd_parse W t")
    case None
    with sent reject show ?thesis by (simp add: handle_create_def) (metis snd_conv)
  next
    case parsed: (Some v)
    with sent obtain r where r: "prepare_request (as_config (ws_app s)) (ws_identity s) v = Some r"
      by (cases "prepare_request (as_config (ws_app s)) (ws_identity s) v") (simp_all add: handle_create_def)
    show ?thesis
    proof (cases r)
      case (Inl y)
      with sent parsed r reject show ?thesis by (cases y) (simp add: handle_create_def, metis snd_conv)
    next
      case (Inr prepared)
      obtain x a where b: "store_begin W k (pr_context prepared) (client_quota (ws_identity s))
          (pr_candidates prepared) (ws_app s) = (x, a)" by fastforce
      note left = store_begin_leaves [OF ok b]
      have kept: "ws_moves (wd_decimal W) s (s\<lparr>ws_app := a\<rparr>)" if "\<nexists>rid em. x = Inr (Admitted rid em)"
      proof -
        have "leaves_open (wd_decimal W) {} (ws_app s) a"
          using left that by (cases x) (auto split: Admission.splits)
        then show ?thesis by (auto simp: ws_moves_def leaves_open_def)
      qed
      consider e where "x = Inl e" | "x = Inr WeeklyQuotaExceeded" | rid em where "x = Inr (Admitted rid em)"
        by (metis Admission.exhaust sum.exhaust)
      then show ?thesis
      proof cases
        case (1 e)
        with sent parsed r Inr b kept show ?thesis by (simp add: handle_create_def) 
      next
        case 2
        with kept have "ws_moves (wd_decimal W) s (s\<lparr>ws_app := a\<rparr>)" by simp
        from ws_moves_trans [OF this ws_moves_sends(3) [OF ws_moves_ok [OF this]]] 2 sent parsed r Inr b show ?thesis
          by (simp add: handle_create_def) (metis snd_conv)
      next
        case (3 rid em)
        let ?s = "s\<lparr>ws_app := a, ws_admitted := rid # ws_admitted s\<rparr>"
        from left 3 have begun: "ws_moves (wd_decimal W) s ?s" by (auto simp: ws_moves_def leaves_open_def)
        note okay = ws_moves_ok [OF begun]
        have "ws_moves (wd_decimal W) ?s s'"
        proof (cases "ws_active s = None")
          case True
          with 3 sent parsed r Inr b show ?thesis
            by (intro ws_moves_send_create [OF okay]) (simp add: handle_create_def Let_def)
        next
          case False
          with 3 sent parsed r Inr b ws_moves_refuse_create [OF okay, of W "Suc k" rid] show ?thesis
            by (simp add: handle_create_def Let_def)
        qed
        with begun show ?thesis by (rule ws_moves_trans)
      qed
    qed
  qed
qed

lemma ws_moves_text:
  assumes ok: "store_ok (as_store (ws_app s))" and handled: "handle_upstream_text W k t s = Returned (e, s')"
  shows "ws_moves (wd_decimal W) s s'"
proof (cases "\<exists>name event terminal rewritten f. read_text (wd_parse W) (wd_http_date_ok W) t =
    Some (Some (name, event, Some (terminal, rewritten))) \<and> ws_active s = Some f")
  case False
  with handled ws_moves_sends(1) [OF ok] ws_moves_same [OF ok] show ?thesis
    by (auto simp: handle_upstream_text_def split: option.splits) (metis snd_conv)+
next
  case True
  then obtain name event terminal rewritten f where x: "read_text (wd_parse W) (wd_http_date_ok W) t =
      Some (Some (name, event, Some (terminal, rewritten)))" and f: "ws_active s = Some f" by blast
  obtain r s2 where fin: "ws_finalize W k (if_request_id f) (final_status_of_kind (te_kind terminal))
      (map_option (\<lambda>u. to_billable_usage u (if_rates f)) (te_usage terminal)) (s\<lparr>ws_active := None\<rparr>) = (r, s2)"
    by fastforce
  have took: "ws_moves (wd_decimal W) s (s\<lparr>ws_active := None\<rparr>)" by (rule ws_moves_same [OF ok]) simp_all
  note moved = ws_moves_trans [OF took ws_moves_finalize [OF ws_moves_ok [OF took] fin]]
  show ?thesis
  proof (cases r)
    case (Inr y)
    with handled x f fin ws_moves_trans [OF moved ws_moves_sends(1) [OF ws_moves_ok [OF moved]]] show ?thesis
      by (simp add: handle_upstream_text_def) (metis snd_conv)
  next
    case (Inl y)
    obtain r3 s3 where fin3: "ws_finalize W (Suc k) (if_request_id f) UpstreamError None s2 = (r3, s3)" by fastforce
    with handled x f fin Inl ws_moves_trans [OF moved ws_moves_finalize [OF ws_moves_ok [OF moved] fin3]] show ?thesis
      by (simp add: handle_upstream_text_def)
  qed
qed

lemma ws_moves_turn:
  assumes ok: "store_ok (as_store (ws_app s))" and turn: "ws_turn W k p s = Returned (e, s')"
  shows "ws_moves (wd_decimal W) s s'"
proof -
  from turn obtain ev t where t: "next_event p s = Some (ev, t)" and handled: "handle_event W k ev t = Returned (e, s')"
    by (auto simp: ws_turn_def split: option.splits)
  from t have woken: "ws_moves (wd_decimal W) s t"
    by (intro ws_moves_same [OF ok]) (cases p; auto split: list.splits)+
  note okay = ws_moves_ok [OF woken]
  have "ws_moves (wd_decimal W) t s'"
  proof (cases ev)
    case (Event_Downstream m)
    with handled ws_moves_create [OF okay] ws_moves_sends(2) [OF okay] ws_moves_same [OF okay] show ?thesis
      by (auto simp: handle_event_def handle_downstream_def split: downstream_message.splits) (metis snd_conv)+
  next
    case (Event_Upstream m)
    with handled ws_moves_text [OF okay] ws_moves_sends(1) [OF okay] ws_moves_same [OF okay] show ?thesis
      by (auto simp: handle_event_def handle_upstream_def split: upstream_message.splits) (metis snd_conv)+
  qed (use handled ws_moves_same [OF okay] in \<open>auto simp: handle_event_def\<close>)
  with woken show ?thesis by (rule ws_moves_trans)
qed

lemma ws_moves_finish:
  assumes ok: "store_ok (as_store (ws_app s))"
  shows "ws_moves (wd_decimal W) s (finish_session W k ending s)"
proof -
  have active: "ws_moves (wd_decimal W) s (finalize_active W k status s)" for status
  proof (cases "ws_active s")
    case None
    with ok show ?thesis by (simp add: finalize_active_def ws_moves_same)
  next
    case (Some f)
    obtain r t where fin: "ws_finalize W k (if_request_id f) status None (s\<lparr>ws_active := None\<rparr>) = (r, t)" by fastforce
    have "ws_moves (wd_decimal W) s (s\<lparr>ws_active := None\<rparr>)" by (rule ws_moves_same [OF ok]) simp_all
    from ws_moves_trans [OF this ws_moves_finalize [OF ws_moves_ok [OF this] fin]] Some fin show ?thesis
      by (simp add: finalize_active_def)
  qed
  have up: "ws_moves (wd_decimal W) s (close_upstream f t)" if "ws_moves (wd_decimal W) s t" for f t
    unfolding close_upstream_def by (rule ws_moves_trans [OF that ws_moves_sends(5) [OF ws_moves_ok [OF that]]])
  have down: "ws_moves (wd_decimal W) s (close_downstream c r t)" if "ws_moves (wd_decimal W) s t" for c r t
    unfolding close_downstream_def by (rule ws_moves_trans [OF that ws_moves_sends(4) [OF ws_moves_ok [OF that]]])
  have "ws_moves (wd_decimal W) s s" by (rule ws_moves_same [OF ok]) simp_all
  then show ?thesis
    using active up down ws_moves_sends(4) [OF ok] by (cases ending) (simp_all add: finish_session_def)
qed

section \<open>The server\<close>

text \<open>The tasks that hold a row: a chat stream, a turn handed to a session, a dropped guard, a connection.\<close>

datatype job =
    Chat_Job model_rates bool pending_state
  | Turn_Job turn pending_state
  | Drop_Job pending_state
  | Ws_Job ws_session

record relay =
  rl_app :: app_state
  rl_jobs :: "job list"

definition chat_jobs :: "chat_outcome \<Rightarrow> job list" where
  "chat_jobs outcome =
     (case outcome of Chat_Streaming rates include_usage rid p \<Rightarrow> [Chat_Job rates include_usage p] | _ \<Rightarrow> [])"

definition responses_jobs :: "responses_outcome \<Rightarrow> job list" where
  "responses_jobs outcome = (case outcome of Responses_Handed target t rid p \<Rightarrow> [Turn_Job t p] | _ \<Rightarrow> [])"

text \<open>
  \<open>handler_gone\<close>: a client that leaves while its handler waits drops the handler with the guard of its row.
  \<open>table_moved\<close>: what the session actors and the shutdown do to the table of sessions.
\<close>

inductive relay_step :: "decimal_ops \<Rightarrow> relay \<Rightarrow> relay \<Rightarrow> bool" for D where
  chat_answered: "reliable_world W \<Longrightarrow> wd_decimal W = D \<Longrightarrow>
     chat_completions to_str ct_eq W down headers payload (inputs :: unit chat_input list) a = Returned (outcome, a') \<Longrightarrow>
     relay_step D \<lparr>rl_app = a, rl_jobs = js\<rparr> \<lparr>rl_app = a', rl_jobs = js @ chat_jobs outcome\<rparr>"
| responses_answered: "reliable_world W \<Longrightarrow> wd_decimal W = D \<Longrightarrow>
     responses_handler to_str ct_eq W now delivered headers payload a = Returned (outcome', a') \<Longrightarrow>
     relay_step D \<lparr>rl_app = a, rl_jobs = js\<rparr> \<lparr>rl_app = a', rl_jobs = js @ responses_jobs outcome'\<rparr>"
| handler_gone: "wd_decimal W = D \<Longrightarrow>
     admit_request W k ident cands protocol HttpSse a = (Inr (rid, em), a') \<Longrightarrow>
     relay_step D \<lparr>rl_app = a, rl_jobs = js\<rparr> \<lparr>rl_app = a', rl_jobs = js @ [Drop_Job (pending_new rid)]\<rparr>"
| models_listed: "available_models W k down ident a = (models, a') \<Longrightarrow>
     relay_step D \<lparr>rl_app = a, rl_jobs = js\<rparr> \<lparr>rl_app = a', rl_jobs = js\<rparr>"
| images_answered: "images to_str ct_eq U W down passed headers payload operation a = (shown, a') \<Longrightarrow>
     relay_step D \<lparr>rl_app = a, rl_jobs = js\<rparr> \<lparr>rl_app = a', rl_jobs = js\<rparr>"
| websocket_opened: "enable_websockets (cfg_server (as_config a)) \<Longrightarrow>
     responses_websocket to_str ct_eq connect down down_ok headers a = Some (Inr s) \<Longrightarrow>
     relay_step D \<lparr>rl_app = a, rl_jobs = js\<rparr> \<lparr>rl_app = a, rl_jobs = js @ [Ws_Job s]\<rparr>"
| websocket_turned: "reliable_world W \<Longrightarrow> wd_decimal W = D \<Longrightarrow>
     ws_turn W k pick (s\<lparr>ws_app := a\<rparr>) = Returned (None, s') \<Longrightarrow>
     relay_step D \<lparr>rl_app = a, rl_jobs = js @ Ws_Job s # ks\<rparr> \<lparr>rl_app = ws_app s', rl_jobs = js @ Ws_Job s' # ks\<rparr>"
| websocket_ended: "reliable_world W \<Longrightarrow> wd_decimal W = D \<Longrightarrow>
     ws_turn W k pick (s\<lparr>ws_app := a\<rparr>) = Returned (Some ending, s') \<Longrightarrow>
     relay_step D \<lparr>rl_app = a, rl_jobs = js @ Ws_Job s # ks\<rparr>
       \<lparr>rl_app = ws_app (finish_session W (k + 2) ending s'), rl_jobs = js @ ks\<rparr>"
| chat_streamed: "reliable_world W \<Longrightarrow> wd_decimal W = D \<Longrightarrow>
     chat_task W down_ok rates include_usage (inputs :: unit chat_input list) p a = Returned a' \<Longrightarrow>
     relay_step D \<lparr>rl_app = a, rl_jobs = js @ Chat_Job rates include_usage p # ks\<rparr> \<lparr>rl_app = a', rl_jobs = js @ ks\<rparr>"
| turn_answered: "reliable_world W \<Longrightarrow> wd_decimal W = D \<Longrightarrow> (\<And>h. connect h \<noteq> None) \<Longrightarrow>
     respond (wd_parse W) (wd_print W) (wd_http_date_ok W) (wd_from_str W) utf8 connect down_ok shutdown_cancelled reply_ok
       permitted (store_finalize W 4) (store_finalize W 5) (store_finalize W 6) arm turn_inputs t actor p a =
       Returned (ended, actor', a') \<Longrightarrow>
     relay_step D \<lparr>rl_app = a, rl_jobs = js @ Turn_Job t p # ks\<rparr> \<lparr>rl_app = a', rl_jobs = js @ ks\<rparr>"
| guard_dropped: "reliable_world W \<Longrightarrow> wd_decimal W = D \<Longrightarrow>
     relay_step D \<lparr>rl_app = a, rl_jobs = js @ Drop_Job p # ks\<rparr>
       \<lparr>rl_app = pending_drop (store_finalize W k) p a, rl_jobs = js @ ks\<rparr>"
| table_moved: "relay_step D \<lparr>rl_app = a, rl_jobs = js\<rparr> \<lparr>rl_app = a\<lparr>as_sessions := c\<rparr>, rl_jobs = js\<rparr>"

text \<open>
  The shutdown: every task is told, and \<open>run_with_clock\<close> waits until all have ended. A turn that is still being
  prepared is dropped with what \<open>x\<close> says of its connection.
\<close>

definition shut_job :: "world \<Rightarrow> header_map \<times> bool \<Rightarrow> actor \<Rightarrow> job \<Rightarrow> app_state \<Rightarrow> app_state progress" where
  "shut_job W x actor j a =
     (case j of
        Chat_Job rates include_usage p \<Rightarrow>
          chat_task W (\<lambda>_. True) rates include_usage [Chat_Shutdown :: unit chat_input] p a
      | Turn_Job t p \<Rightarrow>
          and_then (respond (wd_parse W) (wd_print W) (wd_http_date_ok W) (wd_from_str W) (\<lambda>_. None) (\<lambda>_. Some (Inl Ws_Transport))
              (\<lambda>_. True) True True True (store_finalize W 4) (store_finalize W 5) (store_finalize W 6)
              (Prepare_Shutdown x) [] t actor p a) (\<lambda>(_, _, a'). Returned a')
      | Drop_Job p \<Rightarrow> Returned (pending_drop (store_finalize W 0) p a)
      | Ws_Job s \<Rightarrow>
          and_then (ws_turn W 0 Pick_Shutdown (s\<lparr>ws_app := a\<rparr>)) (\<lambda>(ended, s').
          case ended of None \<Rightarrow> Waiting | Some ending \<Rightarrow> Returned (ws_app (finish_session W 2 ending s'))))"

fun shut_down :: "world \<Rightarrow> header_map \<times> bool \<Rightarrow> actor \<Rightarrow> job list \<Rightarrow> app_state \<Rightarrow> app_state progress" where
  "shut_down W x actor [] a = Returned a"
| "shut_down W x actor (j # js) a = and_then (shut_job W x actor j a) (shut_down W x actor js)"

section \<open>Every open row is held by a task\<close>

fun guard_rows :: "pending_state \<Rightarrow> request_id set" where
  "guard_rows (Open q) = {open_request_id q}"
| "guard_rows Finalized = {}"

fun job_rows :: "job \<Rightarrow> request_id set" where
  "job_rows (Chat_Job rates include_usage p) = guard_rows p"
| "job_rows (Turn_Job t p) = guard_rows p"
| "job_rows (Drop_Job p) = guard_rows p"
| "job_rows (Ws_Job s) = {r. in_flight_row s r}"

definition jobs_rows :: "job list \<Rightarrow> request_id set" where
  "jobs_rows js = (\<Union>j \<in> set js. job_rows j)"

definition job_ok :: "app_state \<Rightarrow> job \<Rightarrow> bool" where
  "job_ok a j =
     (case j of
        Chat_Job rates include_usage p \<Rightarrow> \<exists>q. p = Open q
      | Turn_Job t p \<Rightarrow> (\<exists>rid. p = pending_new rid) \<and> is_object (tn_body t)
      | Drop_Job p \<Rightarrow> \<exists>rid. p = pending_new rid
      | Ws_Job s \<Rightarrow> ws_inv {} (s\<lparr>ws_app := a\<rparr>))"

text \<open>From \<open>a\<close> to \<open>a'\<close> every call kept its promises, and only rows of \<open>X\<close> were opened and are still open.\<close>

definition opens_only :: "decimal_ops \<Rightarrow> request_id set \<Rightarrow> app_state \<Rightarrow> app_state \<Rightarrow> bool" where
  "opens_only D X a a' \<longleftrightarrow> others_may D a a' \<and> store_ok (as_store a') \<and>
     (\<forall>r. row_started (as_store a') r \<longrightarrow> row_started (as_store a) r \<or> r \<in> X)"

definition relay_ok :: "decimal_ops \<Rightarrow> app_state \<Rightarrow> relay \<Rightarrow> bool" where
  "relay_ok D a0 s \<longleftrightarrow> validate (as_config a0) = Inr () \<and> opens_only D (jobs_rows (rl_jobs s)) a0 (rl_app s) \<and>
     (\<forall>j \<in> set (rl_jobs s). job_ok (rl_app s) j)"

lemma opens_only_refl: "store_ok (as_store a) \<Longrightarrow> opens_only D X a a"
  by (simp add: opens_only_def)

lemma opens_only_swap:
  assumes "opens_only D (R \<union> S) a0 a" "opens_only D T a a'"
    and "\<And>r. r \<in> R \<union> T \<Longrightarrow> row_started (as_store a') r \<Longrightarrow> r \<in> U"
  shows "opens_only D (U \<union> S) a0 a'"
  unfolding opens_only_def
proof (intro conjI allI impI)
  from assms(1,2) show "others_may D a0 a'" by (auto simp: opens_only_def intro: others_may_trans)
  from assms(2) show "store_ok (as_store a')" by (simp add: opens_only_def)
  fix r assume started: "row_started (as_store a') r"
  with assms(2) have "row_started (as_store a) r \<or> r \<in> T" by (simp add: opens_only_def)
  with assms(1) have "row_started (as_store a0) r \<or> r \<in> R \<union> T \<or> r \<in> S" by (auto simp: opens_only_def)
  with assms(3) [OF _ started] show "row_started (as_store a0) r \<or> r \<in> U \<union> S" by blast
qed

lemma leaves_open_others: "leaves_open D X a a' \<Longrightarrow> others_may D a a'"
  by (simp add: leaves_open_def)

lemma leaves_open_only: "leaves_open D X a a' \<Longrightarrow> opens_only D X a a'"
  by (simp add: leaves_open_def opens_only_def)

lemma job_ok_frame:
  assumes "job_ok a j" "others_may D a a'" shows "job_ok a' j"
proof (cases j)
  case (Ws_Job s)
  with assms(1) have "ws_inv {} (s\<lparr>ws_app := a\<rparr>)" by (simp add: job_ok_def)
  then have "ws_inv {} (s\<lparr>ws_app := a'\<rparr>)" by (rule ws_inv_frame) (use assms(2) in simp_all)
  with Ws_Job show ?thesis by (simp add: job_ok_def)
qed (use assms(1) in \<open>simp_all add: job_ok_def\<close>)

lemma jobs_rows_simps [simp]:
  "jobs_rows [] = {}" "jobs_rows (j # js) = job_rows j \<union> jobs_rows js" "jobs_rows (js @ ks) = jobs_rows js \<union> jobs_rows ks"
  by (auto simp: jobs_rows_def)

lemma relay_ok_app:
  assumes "relay_ok D a0 s"
  shows "store_ok (as_store (rl_app s))" "validate (as_config (rl_app s)) = Inr ()"
  using assms by (auto simp: relay_ok_def opens_only_def others_may_def)

text \<open>
  The tasks \<open>old\<close> make way for the tasks \<open>new\<close>: the rows they held or opened are closed or held by the new
  ones. Every step of the server is such a move.
\<close>

definition job_moved :: "decimal_ops \<Rightarrow> job list \<Rightarrow> app_state \<Rightarrow> job list \<Rightarrow> app_state \<Rightarrow> bool" where
  "job_moved D old a new a' \<longleftrightarrow>
     (\<exists>T. leaves_open D T a a' \<and> (\<forall>r \<in> jobs_rows old \<union> T. row_started (as_store a') r \<longrightarrow> r \<in> jobs_rows new)) \<and>
     (\<forall>j \<in> set new. job_ok a' j)"

lemma job_movedI:
  assumes "leaves_open D T a a'" "\<And>r. r \<in> jobs_rows old \<union> T \<Longrightarrow> row_started (as_store a') r \<Longrightarrow> r \<in> jobs_rows new"
    and "\<And>j. j \<in> set new \<Longrightarrow> job_ok a' j"
  shows "job_moved D old a new a'"
  using assms by (auto simp: job_moved_def)

lemma job_moved_frame:
  assumes "store_ok (as_store a)" "as_store a' = as_store a" "as_config a' = as_config a" "as_client a' = as_client a"
  shows "job_moved D [] a [] a'"
  using leaves_open_frame [OF assms(2-4), of D "{}" a] leaves_open_refl [OF assms(1)]
  by (intro job_movedI [of D "{}"]) simp_all

lemma relay_ok_moved:
  assumes inv: "relay_ok D a0 \<lparr>rl_app = a, rl_jobs = js @ old @ ks\<rparr>" and moved: "job_moved D old a new a'"
  shows "relay_ok D a0 \<lparr>rl_app = a', rl_jobs = js @ new @ ks\<rparr>"
proof -
  from moved obtain T where T: "leaves_open D T a a'"
      "\<And>r. r \<in> jobs_rows old \<union> T \<Longrightarrow> row_started (as_store a') r \<Longrightarrow> r \<in> jobs_rows new"
    and new: "\<And>j. j \<in> set new \<Longrightarrow> job_ok a' j"
    by (auto simp: job_moved_def)
  from inv have "opens_only D (jobs_rows old \<union> (jobs_rows js \<union> jobs_rows ks)) a0 a"
    by (simp add: relay_ok_def Un_ac)
  from opens_only_swap [OF this leaves_open_only [OF T(1)] T(2)] have "opens_only D (jobs_rows (js @ new @ ks)) a0 a'"
    by (simp add: Un_ac)
  moreover have "job_ok a' j" if "j \<in> set js \<union> set ks" for j
    using inv that job_ok_frame [OF _ leaves_open_others [OF T(1)]] by (auto simp: relay_ok_def)
  ultimately show ?thesis using inv new by (auto simp: relay_ok_def)
qed

lemma websocket_turn_kept:
  assumes "reliable_world W" "ws_inv {} t" "ws_turn W k pick t = Returned (e, s')"
  shows "ws_inv {} s' \<and> leaves_open (wd_decimal W) (set (ws_admitted s')) (ws_app t) (ws_app s') \<and>
    (\<forall>r. in_flight_row t r \<longrightarrow> r \<in> set (ws_admitted s')) \<and> (e = Some End_AccountingFailure \<longrightarrow> ws_active s' = None)"
proof -
  from assms(2) have ok: "store_ok (as_store (ws_app t))" by (simp add: ws_inv_def)
  from ws_turn_keeps [OF assms(1,2), of k pick] ws_moves_turn [OF ok assms(3)] assms(2,3) show ?thesis
    by (auto simp: turn_keeps_def ws_moves_def ws_inv_def)
qed

lemma websocket_end_closes:
  assumes "reliable_world W" "ws_inv {} t" "ws_turn W k pick t = Returned (Some ending, s')"
    and e: "e = finish_session W j ending s'"
  shows "leaves_open (wd_decimal W) (set (ws_admitted e)) (ws_app t) (ws_app e) \<and>
    (\<forall>r. in_flight_row t r \<or> r \<in> set (ws_admitted e) \<longrightarrow> \<not> row_started (as_store (ws_app e)) r)"
proof -
  from websocket_turn_kept [OF assms(1-3)] have kept: "ws_inv {} s'"
      "leaves_open (wd_decimal W) (set (ws_admitted s')) (ws_app t) (ws_app s')"
      "\<And>r. in_flight_row t r \<Longrightarrow> r \<in> set (ws_admitted s')" "ending = End_AccountingFailure \<Longrightarrow> ws_active s' = None"
    by auto
  from kept(1) have "store_ok (as_store (ws_app s'))" by (simp add: ws_inv_def)
  from ws_moves_finish [OF this, of W j ending] have
    moved: "leaves_open (wd_decimal W) (set (ws_admitted e)) (ws_app s') (ws_app e)" "set (ws_admitted s') \<subseteq> set (ws_admitted e)"
    by (simp_all add: ws_moves_def e)
  from finish_session_closes [OF assms(1) kept(1,4)] have "ws_inv {} e" "ws_active e = None"
    by (simp_all add: e)
  from ws_inv_idle_closed [OF this] have "all_rows_closed e" .
  with kept(3) moved(2) leaves_open_trans [OF kept(2) moved] show ?thesis by (auto simp: all_rows_closed_def)
qed

lemma dropped_guard_closes:
  assumes "reliable_world W" "store_ok (as_store a)"
  shows "leaves_open (wd_decimal W) {} a (pending_drop (store_finalize W k) (pending_new rid) a) \<and>
    \<not> row_started (as_store (pending_drop (store_finalize W k) (pending_new rid) a)) rid"
  using af.fin_effect(1) [OF leaves_open_refl [OF assms(2), of "wd_decimal W" "{}"], of k rid Canceled None None]
    af.reliable_fin_closes [OF leaves_open_refl [OF assms(2), of "wd_decimal W" "{}"], of k None rid Canceled] assms(1)
  by (simp add: pending_new_def reliable_world_def)

subsection \<open>Every step is such a move\<close>

lemma chat_answered_moved:
  assumes "reliable_world W" "store_ok (as_store a)" "validate (as_config a) = Inr ()"
    and "chat_completions to_str ct_eq W down headers payload (inputs :: unit chat_input list) a = Returned (outcome, a')"
  shows "job_moved (wd_decimal W) [] a (chat_jobs outcome) a'"
proof -
  from chat_completions_left [OF assms(2,3,1), of inputs to_str ct_eq down headers payload] assms(4)
  have "leaves_open (wd_decimal W) (jobs_rows (chat_jobs outcome)) a a'" "\<forall>j \<in> set (chat_jobs outcome). job_ok a' j"
    by (auto simp: chat_left_def chat_jobs_def job_ok_def split: chat_outcome.splits)
  then show ?thesis by (intro job_movedI) auto
qed

lemma responses_answered_moved:
  assumes "reliable_world W" "store_ok (as_store a)" "validate (as_config a) = Inr ()"
    and "responses_handler to_str ct_eq W now delivered headers payload a = Returned (outcome, a')"
  shows "job_moved (wd_decimal W) [] a (responses_jobs outcome) a'"
proof -
  from responses_handler_left [OF assms(2,3,1), of to_str ct_eq now delivered headers payload] assms(4)
  have "leaves_open (wd_decimal W) (jobs_rows (responses_jobs outcome)) a a'" "\<forall>j \<in> set (responses_jobs outcome). job_ok a' j"
    by (auto simp: responses_left_def responses_jobs_def job_ok_def pending_new_def split: responses_outcome.splits)
  then show ?thesis by (intro job_movedI) auto
qed

lemma handler_gone_moved:
  assumes "store_ok (as_store a)" "admit_request W k ident cands protocol HttpSse a = (Inr (rid, em), a')"
  shows "job_moved (wd_decimal W) [] a [Drop_Job (pending_new rid)] a'"
proof -
  from admit_request_cases [OF assms(1), of W k ident cands protocol HttpSse] assms(2)
  have "leaves_open (wd_decimal W) {rid} a a'" by auto
  then show ?thesis by (rule job_movedI) (simp_all add: job_ok_def pending_new_def)
qed

lemma models_listed_moved:
  assumes "store_ok (as_store a)" "available_models W k down ident a = (models, a')"
  shows "job_moved D [] a [] a'"
  by (rule job_moved_frame [OF assms(1)], use assms(2) in \<open>auto simp: available_models_def list_models_def
      split: sum.splits ModelAccess.splits if_splits prod.splits\<close>)

lemma images_answered_moved:
  assumes "store_ok (as_store a)" "images to_str ct_eq U W down passed headers payload operation a = (shown, a')"
  shows "job_moved D [] a [] a'"
  by (rule job_moved_frame [OF assms(1)], use assms(2) in \<open>auto simp: images_def
      split: sum.splits option.splits if_splits prod.splits\<close>)

lemma websocket_opened_moved:
  assumes "store_ok (as_store a)" "validate (as_config a) = Inr ()"
    and "responses_websocket to_str ct_eq connect down down_ok headers a = Some (Inr s)"
  shows "job_moved D [] a [Ws_Job s] a"
proof -
  from assms(3) have "ws_app s = a"
    by (auto simp: responses_websocket_def split: sum.splits if_splits option.splits)
  then have same: "s\<lparr>ws_app := a\<rparr> = s" by auto
  from responses_websocket_start [OF assms(3,1,2)] have "job_ok a (Ws_Job s)" by (simp add: job_ok_def same)
  then show ?thesis by (intro job_movedI [OF leaves_open_refl [OF assms(1), of D "{}"]]) simp_all
qed

lemma websocket_turned_moved:
  assumes "reliable_world W" "job_ok a (Ws_Job s)" "ws_turn W k pick (s\<lparr>ws_app := a\<rparr>) = Returned (None, s')"
  shows "job_moved (wd_decimal W) [Ws_Job s] a [Ws_Job s'] (ws_app s')"
proof -
  from assms(2) have held: "ws_inv {} (s\<lparr>ws_app := a\<rparr>)" by (simp add: job_ok_def)
  from websocket_turn_kept [OF assms(1) held assms(3)] have kept: "ws_inv {} s'"
      "leaves_open (wd_decimal W) (set (ws_admitted s')) a (ws_app s')" "in_flight_row s r \<Longrightarrow> r \<in> set (ws_admitted s')" for r
    by (auto simp: in_flight_row_def)
  show ?thesis
  proof (rule job_movedI [OF kept(2)])
    fix r assume "r \<in> jobs_rows [Ws_Job s] \<union> set (ws_admitted s')" "row_started (as_store (ws_app s')) r"
    with kept(1,3) row_closed_not_started show "r \<in> jobs_rows [Ws_Job s']" by (auto simp: ws_inv_def)
  qed (use kept(1) in \<open>simp add: job_ok_def\<close>)
qed

lemma websocket_ended_moved:
  assumes "reliable_world W" "job_ok a (Ws_Job s)" "ws_turn W k pick (s\<lparr>ws_app := a\<rparr>) = Returned (Some ending, s')"
  shows "job_moved (wd_decimal W) [Ws_Job s] a [] (ws_app (finish_session W j ending s'))"
proof -
  from assms(2) have held: "ws_inv {} (s\<lparr>ws_app := a\<rparr>)" by (simp add: job_ok_def)
  from websocket_end_closes [OF assms(1) held assms(3) refl, of j] show ?thesis
    by (intro job_movedI) (auto simp: in_flight_row_def)
qed

lemma chat_streamed_moved:
  assumes "reliable_world W" "store_ok (as_store a)" "job_ok a (Chat_Job rates include_usage p)"
    and "chat_task W down_ok rates include_usage (inputs :: unit chat_input list) p a = Returned a'"
  shows "job_moved (wd_decimal W) [Chat_Job rates include_usage p] a [] a'"
proof -
  from assms(3) obtain q where q: "p = Open q" by (auto simp: job_ok_def)
  from chat_task_closes [OF assms(1,2), where down_ok = down_ok and rates = rates and include_usage = include_usage and
      inputs = inputs and q = q] assms(4)
  have "leaves_open (wd_decimal W) {} a a'" "\<not> row_started (as_store a') (open_request_id q)" by (simp_all add: q)
  then show ?thesis by (intro job_movedI) (auto simp: q)
qed

lemma turn_answered_moved:
  assumes "reliable_world W" "\<And>h. connect h \<noteq> None" "store_ok (as_store a)" "job_ok a (Turn_Job t p)"
    and "respond (wd_parse W) (wd_print W) (wd_http_date_ok W) (wd_from_str W) utf8 connect down_ok shutdown_cancelled reply_ok
       permitted (store_finalize W 4) (store_finalize W 5) (store_finalize W 6) arm turn_inputs t actor p a =
       Returned (ended, actor', a')"
  shows "job_moved (wd_decimal W) [Turn_Job t p] a [] a'"
proof -
  from assms(4) obtain rid where rid: "p = pending_new rid" "is_object (tn_body t)" by (auto simp: job_ok_def)
  from handed_turn_closes [OF assms(1,3) rid(2), where connect = connect, OF assms(2), where
      http_date_ok = "wd_http_date_ok W" and ?utf8.0 = utf8 and down_ok = down_ok and shutdown_cancelled = shutdown_cancelled and
      reply_ok = reply_ok and permitted = permitted and arm = arm and inputs = turn_inputs and s = actor and rid = rid] assms(5)
  have "leaves_open (wd_decimal W) {} a a'" "\<not> row_started (as_store a') rid" by (simp_all add: rid)
  then show ?thesis by (intro job_movedI) (auto simp: rid(1) pending_new_def)
qed

lemma guard_dropped_moved:
  assumes "reliable_world W" "store_ok (as_store a)" "job_ok a (Drop_Job p)"
  shows "job_moved (wd_decimal W) [Drop_Job p] a [] (pending_drop (store_finalize W k) p a)"
proof -
  from assms(3) obtain rid where rid: "p = pending_new rid" by (auto simp: job_ok_def)
  from dropped_guard_closes [OF assms(1,2), of k rid] show ?thesis
    by (intro job_movedI) (auto simp: rid pending_new_def)
qed

text \<open>What the invariant of the server says of its tasks.\<close>

definition jobs_ok :: "relay \<Rightarrow> bool" where
  "jobs_ok s \<longleftrightarrow> store_ok (as_store (rl_app s)) \<and> validate (as_config (rl_app s)) = Inr () \<and>
     (\<forall>j \<in> set (rl_jobs s). job_ok (rl_app s) j)"

lemma relay_ok_jobs: "relay_ok D a0 s \<Longrightarrow> jobs_ok s"
  using relay_ok_app [of D a0 s] by (simp add: jobs_ok_def relay_ok_def)

lemma relay_step_moved:
  assumes "relay_step D s s'" "jobs_ok s"
  obtains js old ks new where "rl_jobs s = js @ old @ ks" "rl_jobs s' = js @ new @ ks"
    "job_moved D old (rl_app s) new (rl_app s')"
proof -
  note goal = that
  have here: thesis if "job_moved D old (rl_app s) new (rl_app s')" "rl_jobs s = js @ old @ ks" "rl_jobs s' = js @ new @ ks"
    for js old ks new by (rule goal [OF that(2,3,1)])
  have added: thesis if "job_moved D [] (rl_app s) new (rl_app s')" "rl_jobs s' = rl_jobs s @ new" for new
    by (rule here [OF that(1), of "rl_jobs s" "[]"]) (use that(2) in simp_all)
  have ended: thesis if "job_moved D [j] (rl_app s) [] (rl_app s')" "rl_jobs s = js @ j # ks" "rl_jobs s' = js @ ks" for js j ks
    by (rule here [OF that(1), of js ks]) (use that(2,3) in simp_all)
  note ok = assms(2) [unfolded jobs_ok_def]
  from assms(1) show thesis
  proof (cases rule: relay_step.cases)
    case chat_answered
    then show ?thesis using ok chat_answered_moved added by fastforce
  next
    case responses_answered
    then show ?thesis using ok responses_answered_moved added by fastforce
  next
    case handler_gone
    then show ?thesis using ok handler_gone_moved added by fastforce
  next
    case models_listed
    then show ?thesis using ok models_listed_moved added by fastforce
  next
    case images_answered
    then show ?thesis using ok images_answered_moved added by fastforce
  next
    case websocket_opened
    then show ?thesis using ok websocket_opened_moved added by fastforce
  next
    case (websocket_turned W k pick a w w' js ks)
    with ok have "job_moved D [Ws_Job w] (rl_app s) [Ws_Job w'] (rl_app s')"
      using websocket_turned_moved by auto
    from here [OF this, of js ks] websocket_turned show ?thesis by simp
  next
    case websocket_ended
    then show ?thesis using ok websocket_ended_moved ended by fastforce
  next
    case chat_streamed
    then show ?thesis using ok chat_streamed_moved ended by fastforce
  next
    case (turn_answered W connect utf8 down_ok shutdown_cancelled reply_ok permitted arm turn_inputs t actor p a e actor' a' js ks)
    from turn_answered(1) ok have "store_ok (as_store a)" "job_ok a (Turn_Job t p)" by simp_all
    from turn_answered_moved [OF turn_answered(3,5) this turn_answered(6)] turn_answered(1,2,4) show ?thesis
      by (intro ended [of "Turn_Job t p" js ks]) simp_all
  next
    case guard_dropped
    then show ?thesis using ok guard_dropped_moved ended by fastforce
  next
    case (table_moved a js c)
    with ok added [of "[]"] job_moved_frame [of a "a\<lparr>as_sessions := c\<rparr>"] show ?thesis by simp
  qed
qed

lemma relay_step_ok:
  assumes "relay_step D s s'" "relay_ok D a0 s"
  shows "relay_ok D a0 s'"
proof -
  obtain js old ks new where moved: "rl_jobs s = js @ old @ ks" "rl_jobs s' = js @ new @ ks"
      "job_moved D old (rl_app s) new (rl_app s')"
    by (rule relay_step_moved [OF assms(1) relay_ok_jobs [OF assms(2)]])
  then have "s = \<lparr>rl_app = rl_app s, rl_jobs = js @ old @ ks\<rparr>" "s' = \<lparr>rl_app = rl_app s', rl_jobs = js @ new @ ks\<rparr>" by simp_all
  with relay_ok_moved [OF _ moved(3)] assms(2) show ?thesis by metis
qed

text \<open>No handler and no task touches the stored credentials: they move by the credential manager alone.\<close>

lemma relay_step_credentials:
  assumes "relay_step D s s'" "jobs_ok s"
  shows "credentials (as_store (rl_app s')) = credentials (as_store (rl_app s))"
proof (rule relay_step_moved [OF assms])
  fix old new assume "job_moved D old (rl_app s) new (rl_app s')"
  then obtain T where "leaves_open D T (rl_app s) (rl_app s')" unfolding job_moved_def by blast
  then show ?thesis by (simp only: leaves_open_def)
qed

section \<open>The shutdown\<close>

lemma relay_ok_perm:
  assumes "relay_ok D a0 \<lparr>rl_app = a, rl_jobs = js\<rparr>" "mset ks = mset js"
  shows "relay_ok D a0 \<lparr>rl_app = a, rl_jobs = ks\<rparr>"
  using assms(1) mset_eq_setD [OF assms(2)] by (simp add: relay_ok_def jobs_rows_def)

lemma shut_job_step:
  assumes rel: "reliable_world W" and D: "wd_decimal W = D" and inv: "jobs_ok \<lparr>rl_app = a, rl_jobs = js @ j # ks\<rparr>"
  shows "\<exists>a'. shut_job W x actor j a = Returned a' \<and>
    relay_step D \<lparr>rl_app = a, rl_jobs = js @ j # ks\<rparr> \<lparr>rl_app = a', rl_jobs = js @ ks\<rparr>"
proof -
  from inv have ok: "store_ok (as_store a)" and job: "job_ok a j" by (simp_all add: jobs_ok_def)
  show ?thesis
  proof (cases j)
    case (Chat_Job rates include_usage p)
    with job obtain q where q: "p = Open q" by (auto simp: job_ok_def)
    from chat_task_closes [OF rel ok, where down_ok = "\<lambda>_. True" and rates = rates and include_usage = include_usage and
        inputs = "[Chat_Shutdown :: unit chat_input]" and q = q]
    obtain a' where a': "chat_task W (\<lambda>_. True) rates include_usage [Chat_Shutdown :: unit chat_input] p a = Returned a'"
      using finish_quietly_open [of "store_finalize W 3" Canceled "Some 200" q a]
      by (auto simp: q chat_task_def chat_stop_def split: progress.splits)
    then show ?thesis
      using relay_step.chat_streamed [OF rel D a', of js ks] by (simp add: Chat_Job shut_job_def)
  next
    case (Turn_Job t p)
    with job obtain rid where rid: "p = pending_new rid" "is_object (tn_body t)" by (auto simp: job_ok_def)
    have connect: "(\<lambda>_ :: header_map. Some (Inl Ws_Transport :: UpstreamWebSocketError + upstream_socket)) h \<noteq> None" for h by simp
    let ?run = "respond (wd_parse W) (wd_print W) (wd_http_date_ok W) (wd_from_str W) (\<lambda>_. None) (\<lambda>_. Some (Inl Ws_Transport))
        (\<lambda>_. True) True True True (store_finalize W 4) (store_finalize W 5) (store_finalize W 6) (Prepare_Shutdown x) [] t actor p a"
    obtain ended actor' a' where run: "?run = Returned (ended, actor', a')"
      using handed_turn_closes [OF rel ok rid(2), where connect = "\<lambda>_. Some (Inl Ws_Transport)" and rid = rid and
          http_date_ok = "wd_http_date_ok W" and ?utf8.0 = "\<lambda>_. None" and down_ok = "\<lambda>_. True" and shutdown_cancelled = True and
          reply_ok = True and permitted = True and arm = "Prepare_Shutdown x" and inputs = "[]" and s = actor]
      by (cases ?run) (auto simp: rid(1))
    from relay_step.turn_answered [OF rel D connect run, of js ks] show ?thesis
      by (simp add: Turn_Job shut_job_def run)
  next
    case (Drop_Job p)
    from relay_step.guard_dropped [OF rel D, of a js p ks 0] show ?thesis by (simp add: Drop_Job shut_job_def)
  next
    case (Ws_Job s)
    have turn: "ws_turn W 0 Pick_Shutdown (s\<lparr>ws_app := a\<rparr>) = Returned (Some End_Shutdown, s\<lparr>ws_app := a\<rparr>)"
      by (simp add: ws_turn_def handle_event_def)
    from relay_step.websocket_ended [OF rel D turn, of js ks] turn show ?thesis
      by (simp add: Ws_Job shut_job_def numeral_2_eq_2)
  qed
qed

lemma shut_down_ends:
  assumes "reliable_world W" "wd_decimal W = D" "relay_ok D a0 \<lparr>rl_app = a, rl_jobs = js\<rparr>"
  shows "\<exists>a'. shut_down W x actor js a = Returned a' \<and> relay_ok D a0 \<lparr>rl_app = a', rl_jobs = []\<rparr>"
  using assms(3)
proof (induction js arbitrary: a)
  case (Cons j js)
  from shut_job_step [OF assms(1,2), of a "[]" j js x actor] relay_ok_jobs [OF Cons.prems] obtain a' where step: "shut_job W x actor j a = Returned a'"
      "relay_step D \<lparr>rl_app = a, rl_jobs = j # js\<rparr> \<lparr>rl_app = a', rl_jobs = js\<rparr>" by auto
  from Cons.IH [OF relay_step_ok [OF step(2) Cons.prems]] step(1) show ?case by simp
qed simp

lemma relay_steps_ok: "(relay_step D)\<^sup>*\<^sup>* s s' \<Longrightarrow> relay_ok D a0 s \<Longrightarrow> relay_ok D a0 s'"
  by (induction rule: rtranclp_induct) (auto intro: relay_step_ok)

text \<open>
  The relay as a whole never loses a request. In every state its handlers and tasks can reach, in any order,
  a row of the ledger that is open was open before the start or is held by exactly the tasks that still run; and
  when the shutdown tells the tasks, in whatever order they end, all of them do end and then no row that the
  relay opened is open any more.
\<close>

theorem shutdown_leaves_no_open_row:
  assumes "store_ok (as_store a)" and "validate (as_config a) = Inr ()"
    and "(relay_step D)\<^sup>*\<^sup>* \<lparr>rl_app = a, rl_jobs = []\<rparr> s"
    and "reliable_world W" and "wd_decimal W = D" and "mset js = mset (rl_jobs s)"
  shows "(\<forall>r. row_started (as_store (rl_app s)) r \<longrightarrow> row_started (as_store a) r \<or> r \<in> jobs_rows (rl_jobs s)) \<and>
    (\<exists>a'. shut_down W x actor js (rl_app s) = Returned a' \<and>
       (\<forall>r. row_started (as_store a') r \<longrightarrow> row_started (as_store a) r))"
proof -
  have "relay_ok D a \<lparr>rl_app = a, rl_jobs = []\<rparr>"
    using assms(1,2) by (simp add: relay_ok_def opens_only_refl)
  with assms(3) have ok: "relay_ok D a s" by (rule relay_steps_ok)
  then have "relay_ok D a \<lparr>rl_app = rl_app s, rl_jobs = rl_jobs s\<rparr>" by (cases s) simp
  from shut_down_ends [OF assms(4,5) relay_ok_perm [OF this assms(6)], of x actor] obtain a' where
    "shut_down W x actor js (rl_app s) = Returned a'" "relay_ok D a \<lparr>rl_app = a', rl_jobs = []\<rparr>" by blast
  with ok show ?thesis by (auto simp: relay_ok_def opens_only_def)
qed

end
