(* ===== verification/Server.thy ===== *)
theory Server
  imports Relay Credential_Flight
begin

text \<open>
  The running server: the relay of \<open>Relay\<close> and the credential manager of \<open>Credential_Flight\<close> over one store
  (\<open>run_with_clock\<close> of \<open>src/lib.rs\<close>). Either moves while the other waits. What the relay's steps are told by
  the manager is part of their worlds; here both keep what the other relies on: no handler or task touches the
  stored credentials, no refresh touches the ledger.
\<close>

section \<open>The relay and the credential manager\<close>

record server =
  sv_relay :: relay
  sv_credentials :: credential_system

abbreviation server_app :: "server \<Rightarrow> app_state" where
  "server_app s \<equiv> rl_app (sv_relay s)"

text \<open>The credential manager as it sees the shared store, and the server after the manager moved.\<close>

definition credential_view :: "server \<Rightarrow> credential_system" where
  "credential_view s = (sv_credentials s)\<lparr>sy_store := as_store (server_app s)\<rparr>"

definition credentials_moved :: "credential_system \<Rightarrow> server \<Rightarrow> server" where
  "credentials_moved y s =
     \<lparr>sv_relay = (sv_relay s)\<lparr>rl_app := (server_app s)\<lparr>as_store := sy_store y\<rparr>\<rparr>, sv_credentials = y\<rparr>"

definition server_init :: "app_state \<Rightarrow> credential_state \<Rightarrow> server" where
  "server_init a c = \<lparr>sv_relay = \<lparr>rl_app = a, rl_jobs = []\<rparr>, sv_credentials = credential_system_init c (as_store a)\<rparr>"

inductive server_step :: "token_ops \<Rightarrow> decimal_ops \<Rightarrow> server \<Rightarrow> server \<Rightarrow> bool" for ops D where
  relaying: "relay_step D (sv_relay s) r \<Longrightarrow> server_step ops D s (s\<lparr>sv_relay := r\<rparr>)"
| refreshing: "credential_step ops (credential_view s) y \<Longrightarrow> server_step ops D s (credentials_moved y s)"

abbreviation server_steps :: "token_ops \<Rightarrow> decimal_ops \<Rightarrow> server \<Rightarrow> server \<Rightarrow> bool" where
  "server_steps ops D \<equiv> (server_step ops D)\<^sup>*\<^sup>*"

text \<open>
  The shutdown: no request is taken any more. Each task that is left ends, told by the cancelled token
  (\<open>shut_job\<close>) or as it would have ended anyway, and the refresh tasks go on until none is left.
\<close>

inductive shutdown_step :: "token_ops \<Rightarrow> decimal_ops \<Rightarrow> server \<Rightarrow> server \<Rightarrow> bool" for ops D where
  told: "rl_jobs (sv_relay s) = js @ j # ks \<Longrightarrow> reliable_world W \<Longrightarrow> wd_decimal W = D \<Longrightarrow>
     shut_job W x actor j (server_app s) = Returned a \<Longrightarrow>
     shutdown_step ops D s (s\<lparr>sv_relay := \<lparr>rl_app = a, rl_jobs = js @ ks\<rparr>\<rparr>)"
| finished: "rl_jobs (sv_relay s) = js @ j # ks \<Longrightarrow> relay_step D (sv_relay s) \<lparr>rl_app = a, rl_jobs = js @ ks\<rparr> \<Longrightarrow>
     shutdown_step ops D s (s\<lparr>sv_relay := \<lparr>rl_app = a, rl_jobs = js @ ks\<rparr>\<rparr>)"
| refreshed: "task_step ops (credential_view s) y \<Longrightarrow> shutdown_step ops D s (credentials_moved y s)"

lemma credential_view_simps [simp]:
  "sy_store (credential_view s) = as_store (server_app s)"
  "sy_state (credential_view s) = sy_state (sv_credentials s)"
  "sy_tasks (credential_view s) = sy_tasks (sv_credentials s)"
  "sy_next_channel (credential_view s) = sy_next_channel (sv_credentials s)"
  "sy_refreshes (credential_view s) = sy_refreshes (sv_credentials s)"
  "sy_log (credential_view s) = sy_log (sv_credentials s)"
  "await_outcome c (credential_view s) = await_outcome c (sv_credentials s)"
  "credential_view (credentials_moved y s) = y"
  by (simp_all add: credential_view_def credentials_moved_def await_outcome_def)

lemma credentials_moved_simps [simp]:
  "sv_credentials (credentials_moved y s) = y" "rl_jobs (sv_relay (credentials_moved y s)) = rl_jobs (sv_relay s)"
  "server_app (credentials_moved y s) = (server_app s)\<lparr>as_store := sy_store y\<rparr>"
  by (simp_all add: credentials_moved_def)

section \<open>What each part leaves to the other\<close>

lemma refresh_finish_store:
  assumes "refresh_finish ops (save_credentials env) now g reply s st = (r, s', st')"
  shows "store_steps D st st' \<and> ledger st' = ledger st"
proof (cases "\<exists>c q. save_credentials env c st = (q, st')")
  case True
  then obtain c q where saved: "save_credentials env c st = (q, st')" by blast
  then have "ledger st' = ledger st"
    by (auto simp: save_credentials_def commit_credentials_def update_credentials_def
        split: sum.splits if_splits option.splits)
  with store_step.save_step [OF saved] show ?thesis by auto
next
  case False
  with assms have "st' = st"
    by (auto simp: refresh_finish_def Let_def split: oauth_reply.splits if_splits sum.splits prod.splits)
  then show ?thesis by simp
qed

lemma credential_step_store:
  assumes "credential_step ops y y'"
  shows "store_steps D (sy_store y) (sy_store y') \<and> ledger (sy_store y') = ledger (sy_store y)"
  using assms
proof cases
  case caller
  then show ?thesis by (simp add: refresh_generation_frame(2))
next
  case task
  then show ?thesis by cases (simp_all add: refresh_finish_store)
qed

lemma relay_ok_refreshed:
  assumes "relay_ok D a0 r" "store_steps D (as_store (rl_app r)) st" "ledger st = ledger (as_store (rl_app r))"
  shows "relay_ok D a0 (r\<lparr>rl_app := (rl_app r)\<lparr>as_store := st\<rparr>\<rparr>)"
proof -
  from assms(2) have others: "others_may D (rl_app r) ((rl_app r)\<lparr>as_store := st\<rparr>)" by (simp add: others_may_def)
  from assms(3) have rows: "row_started st q = row_started (as_store (rl_app r)) q" for q
    by (cases q) (simp add: row_started_def)
  from assms(1) job_ok_frame [OF _ others] others_may_trans [OF _ others] others_may_ok [OF others] show ?thesis
    by (auto simp: relay_ok_def opens_only_def rows)
qed

lemma memory_inv_frame:
  assumes "credentials st' = credentials st"
  shows "memory_inv ops (y\<lparr>sy_store := st'\<rparr>) = memory_inv ops (y\<lparr>sy_store := st\<rparr>)"
  using assms by (simp add: memory_inv_def stored_credential_def)

lemma channel_inv_frame: "channel_inv (y\<lparr>sy_store := st\<rparr>) = channel_inv y"
  by (simp add: channel_inv_def)

lemma flight_inv_frame: "flight_inv (y\<lparr>sy_store := st\<rparr>) = flight_inv y"
  by (simp add: flight_inv_def tasks_in_def allowance_def)

section \<open>The invariant\<close>

definition server_ok :: "token_ops \<Rightarrow> decimal_ops \<Rightarrow> app_state \<Rightarrow> server \<Rightarrow> bool" where
  "server_ok ops D a0 s \<longleftrightarrow> relay_ok D a0 (sv_relay s) \<and> memory_inv ops (credential_view s) \<and> channel_inv (sv_credentials s)"

definition starts_well :: "token_ops \<Rightarrow> app_state \<Rightarrow> credential_state \<Rightarrow> bool" where
  "starts_well ops a c \<longleftrightarrow> store_ok (as_store a) \<and> validate (as_config a) = Inr () \<and> cs_generation c = 0 \<and>
     stored_credential (as_store a) = Some (cs_credential c) \<and> usable ops (snapshot_from_state c)"

lemma server_ok_init: "starts_well ops a c \<Longrightarrow> server_ok ops D a (server_init a c)"
  by (simp add: starts_well_def server_ok_def server_init_def relay_ok_def opens_only_refl credential_view_def
      memory_inv_def credential_system_init_def channel_inv_def)

lemma server_ok_refreshed:
  assumes "server_ok ops D a0 s" "credential_step ops (credential_view s) y"
  shows "server_ok ops D a0 (credentials_moved y s)"
proof -
  from credential_step_store [OF assms(2), of D] relay_ok_refreshed [of D a0 "sv_relay s" "sy_store y"] assms(1)
  have "relay_ok D a0 (sv_relay (credentials_moved y s))" by (simp add: server_ok_def credentials_moved_def)
  moreover from assms have "memory_inv ops y" by (auto simp: server_ok_def intro: memory_inv_step)
  moreover from assms have "channel_inv y"
    by (auto simp: server_ok_def credential_view_def channel_inv_frame intro: channel_inv_step)
  ultimately show ?thesis by (simp add: server_ok_def)
qed

lemma server_ok_relayed:
  assumes "server_ok ops D a0 s" "relay_step D (sv_relay s) r"
  shows "server_ok ops D a0 (s\<lparr>sv_relay := r\<rparr>)"
proof -
  from assms(1) have ok: "relay_ok D a0 (sv_relay s)" by (simp add: server_ok_def)
  from memory_inv_frame [OF relay_step_credentials [OF assms(2) relay_ok_jobs [OF ok]], of ops "sv_credentials s"]
    relay_step_ok [OF assms(2) ok] assms(1) show ?thesis
    by (simp add: server_ok_def credential_view_def)
qed

lemma server_ok_steps: "server_steps ops D s s' \<Longrightarrow> server_ok ops D a0 s \<Longrightarrow> server_ok ops D a0 s'"
  by (induction rule: rtranclp_induct) (auto elim!: server_step.cases intro: server_ok_refreshed server_ok_relayed)

section \<open>The shutdown\<close>

definition shutdown_work :: "server \<Rightarrow> nat" where
  "shutdown_work s = length (rl_jobs (sv_relay s)) + work_left (sv_credentials s)"

lemma work_left_view: "work_left (credential_view s) = work_left (sv_credentials s)"
  by (simp add: work_left_def)

text \<open>A task that is told ends as the relay could have ended it.\<close>

lemma told_finishes:
  assumes "jobs_ok (sv_relay s)" "rl_jobs (sv_relay s) = js @ j # ks" "reliable_world W" "wd_decimal W = D"
  obtains a where "shut_job W x actor j (server_app s) = Returned a"
    "relay_step D (sv_relay s) \<lparr>rl_app = a, rl_jobs = js @ ks\<rparr>"
proof -
  from assms(2) have "sv_relay s = \<lparr>rl_app = server_app s, rl_jobs = js @ j # ks\<rparr>" by (cases "sv_relay s") simp
  with shut_job_step [OF assms(3,4), of "server_app s" js j ks x actor] assms(1) that show thesis by fastforce
qed

lemma shutdown_step_cases:
  assumes "shutdown_step ops D s s'" "server_ok ops D a0 s"
  obtains (task) r where "relay_step D (sv_relay s) r" "s' = s\<lparr>sv_relay := r\<rparr>"
      "length (rl_jobs (sv_relay s)) = Suc (length (rl_jobs r))"
    | (refresh) y where "task_step ops (credential_view s) y" "s' = credentials_moved y s"
  using assms(1)
proof cases
  case (told js j ks W x actor a)
  from assms(2) have "jobs_ok (sv_relay s)" by (auto simp: server_ok_def intro: relay_ok_jobs)
  from told_finishes [OF this told(2-4), of x actor] told(5) have "relay_step D (sv_relay s) \<lparr>rl_app = a, rl_jobs = js @ ks\<rparr>"
    by (metis progress.inject)
  with told(1,2) task show thesis by simp
next
  case (finished js j ks a)
  with task show thesis by simp
next
  case (refreshed y)
  with refresh show thesis by blast
qed

lemma shutdown_step_ok:
  assumes "shutdown_step ops D s s'" "server_ok ops D a0 s"
  shows "server_ok ops D a0 s'" "shutdown_work s' < shutdown_work s"
    and "sy_next_channel (sv_credentials s') = sy_next_channel (sv_credentials s)"
proof -
  have "server_ok ops D a0 s' \<and> shutdown_work s' < shutdown_work s \<and>
      sy_next_channel (sv_credentials s') = sy_next_channel (sv_credentials s)"
    using assms
  proof (cases rule: shutdown_step_cases)
    case (task r)
    with server_ok_relayed [OF assms(2) task(1)] show ?thesis by (simp add: shutdown_work_def)
  next
    case (refresh y)
    have inv: "channel_inv (credential_view s)"
      using assms(2) by (simp add: server_ok_def credential_view_def channel_inv_frame)
    from task_step_works [OF refresh(1)] channel_inv_task [OF refresh(1) inv]
      server_ok_refreshed [OF assms(2) credential_step.task [OF refresh(1)]] refresh(2)
    show ?thesis by (simp add: shutdown_work_def work_left_view)
  qed
  then show "server_ok ops D a0 s'" "shutdown_work s' < shutdown_work s"
      "sy_next_channel (sv_credentials s') = sy_next_channel (sv_credentials s)" by blast+
qed

lemma shutdown_steps_ok:
  "(shutdown_step ops D ^^ n) s s' \<Longrightarrow> server_ok ops D a0 s \<Longrightarrow>
     server_ok ops D a0 s' \<and> n + shutdown_work s' \<le> shutdown_work s \<and>
     sy_next_channel (sv_credentials s') = sy_next_channel (sv_credentials s)"
proof (induction n arbitrary: s')
  case (Suc n)
  then obtain t where t: "(shutdown_step ops D ^^ n) s t" "shutdown_step ops D t s'" by auto
  with Suc.IH Suc.prems(2) have ok: "server_ok ops D a0 t" "n + shutdown_work t \<le> shutdown_work s"
      "sy_next_channel (sv_credentials t) = sy_next_channel (sv_credentials s)" by blast+
  from shutdown_step_ok [OF t(2) ok(1)] ok show ?case by simp
qed simp

lemma reliable_world_exists: "\<exists>W. reliable_world W \<and> wd_decimal W = D"
  by (rule exI [of _ "demo_world\<lparr>wd_decimal := D\<rparr>"]) (use demo_reliable in \<open>simp add: reliable_world_def\<close>)

lemma shutdown_progress:
  assumes "server_ok ops D a0 s" "rl_jobs (sv_relay s) \<noteq> [] \<or> sy_tasks (sv_credentials s) \<noteq> []"
  shows "\<exists>s'. shutdown_step ops D s s'"
proof (cases "rl_jobs (sv_relay s)")
  case (Cons j ks)
  then have jobs: "rl_jobs (sv_relay s) = [] @ j # ks" by simp
  obtain W where W: "reliable_world W" "wd_decimal W = D" using reliable_world_exists by blast
  from assms(1) have "jobs_ok (sv_relay s)" by (auto simp: server_ok_def intro: relay_ok_jobs)
  from told_finishes [OF this jobs W, of undefined undefined] told [OF jobs W] show ?thesis by metis
next
  case Nil
  with assms(2) task_progress [of "credential_view s" ops] show ?thesis by (auto intro: refreshed)
qed

lemma settled_server:
  assumes "server_ok ops D a0 s" "rl_jobs (sv_relay s) = []" "sy_tasks (sv_credentials s) = []"
  shows "row_started (as_store (server_app s)) r \<Longrightarrow> row_started (as_store a0) r"
    and "c < sy_next_channel (sv_credentials s) \<Longrightarrow> await_outcome c (sv_credentials s) \<noteq> None"
    and "stored_credential (as_store (server_app s)) = Some (cs_credential (sy_state (sv_credentials s)))"
proof -
  from assms(1,2) show "row_started (as_store (server_app s)) r \<Longrightarrow> row_started (as_store a0) r"
    by (auto simp: server_ok_def relay_ok_def opens_only_def)
  from assms(1,3) show "c < sy_next_channel (sv_credentials s) \<Longrightarrow> await_outcome c (sv_credentials s) \<noteq> None"
    by (simp add: server_ok_def channel_inv_def await_outcome_def)
  from assms(1) show "stored_credential (as_store (server_app s)) = Some (cs_credential (sy_state (sv_credentials s)))"
    by (simp add: server_ok_def memory_inv_def)
qed

lemma server_step_refreshes:
  assumes "server_step ops D s s'"
  shows "sy_refreshes (sv_credentials s) \<le> sy_refreshes (sv_credentials s')"
  using assms by cases (auto dest: refreshes_mono)

lemma flight_inv_server_step:
  assumes "server_step ops D s s'" "sy_refreshes (sv_credentials s') < 2 ^ 64" "flight_inv (sv_credentials s)"
  shows "flight_inv (sv_credentials s')"
  using assms(1)
proof cases
  case (refreshing y)
  from assms(3) have "flight_inv (credential_view s)" by (simp add: credential_view_def flight_inv_frame)
  with refreshing assms(2) flight_inv_step [OF refreshing(2)] show ?thesis by simp
qed (use assms(3) in simp)

lemma flight_inv_server_steps:
  assumes "server_steps ops D s s'" "flight_inv (sv_credentials s)"
  shows "sy_refreshes (sv_credentials s') < 2 ^ 64 \<Longrightarrow> flight_inv (sv_credentials s')"
  using assms(1)
proof induction
  case (step t u)
  with server_step_refreshes [OF step(2)] flight_inv_server_step [OF step(2)] show ?case by linarith
qed (rule assms(2))

section \<open>What holds of the running server\<close>

text \<open>A run: a caller is refused its token, a refresh starts and exchanges it.\<close>

definition demo_seeded_app :: app_state where
  "demo_seeded_app = demo_app\<lparr>as_store := demo_seeded\<rparr>"

definition demo_server :: server where
  "demo_server = credentials_moved demo_exchanging (credentials_moved demo_queued (server_init demo_seeded_app demo_state))"

lemma demo_starts_well: "starts_well demo_ops demo_seeded_app demo_state"
  using demo_app_ok
  by (simp add: starts_well_def demo_seeded_app_def store_ok_def demo_seeded_def empty_store_def demo_state_def
      stored_credential_def credential_from_row_def offset_from_ns_def demo_credential_def usable_def
      snapshot_from_state_def upstream_headers_are_valid_def demo_ops_def i64_max_def)

lemma demo_server_run: "server_steps demo_ops D (server_init demo_seeded_app demo_state) demo_server"
proof -
  have view: "credential_view (server_init demo_seeded_app demo_state) = demo_idle"
    by (simp add: credential_view_def server_init_def demo_idle_def credential_system_init_def demo_seeded_app_def)
  have "credential_step demo_ops demo_idle demo_queued" unfolding demo_queued_def by (rule caller [OF surjective_pairing])
  from refreshing [of demo_ops "server_init demo_seeded_app demo_state", unfolded view, OF this, of D]
    refreshing [of demo_ops "credentials_moved demo_queued (server_init demo_seeded_app demo_state)", unfolded credential_view_simps,
      OF credential_step.task [OF demo_start], of D]
  show ?thesis unfolding demo_server_def by (rule converse_rtranclp_into_rtranclp [OF _ r_into_rtranclp])
qed

lemma demo_server_credentials: "sv_credentials demo_server = demo_exchanging"
  by (simp add: demo_server_def)

text \<open>
  C13. A rotating refresh token is exchanged once: whatever requests, tasks and refreshes of the running server
  interleave, the token of a generation is sent to the endpoint at most once more than the endpoint answered it
  with a 5xx status. The count of refreshes bounds the runs in which the 64-bit generation has not wrapped.
\<close>

theorem server_exchanges_token_once:
  assumes "server_steps ops D (server_init a c) s" and "cs_generation c = 0" and "sy_refreshes (sv_credentials s) < 2 ^ 64"
  shows "count_list (sy_log (sv_credentials s)) (Exchanged g) \<le> count_list (sy_log (sv_credentials s)) (Rejected_5xx g) + 1"
proof -
  from assms(2) have "flight_inv (sv_credentials (server_init a c))" by (simp add: server_init_def flight_inv_init)
  from flight_inv_server_steps [OF assms(1) this assms(3)] show ?thesis by (rule flight_inv_bound)
qed

theorem server_exchanges_token_once_witness:
  "count_list (sy_log (sv_credentials demo_server)) (Exchanged 0) = 1 \<and>
   count_list (sy_log (sv_credentials demo_server)) (Exchanged 0) \<le>
     count_list (sy_log (sv_credentials demo_server)) (Rejected_5xx 0) + 1"
  using server_exchanges_token_once [OF demo_server_run [of exact_decimal], of 0]
  by (simp add: demo_server_credentials demo_exchanging_def demo_queued_tasks demo_state_def)

text \<open>
  C16. Memory and disk agree while the server runs: in each reachable state the database holds the credential in
  memory, and each snapshot that a request takes at once or is sent by a refresh task has an access token and an account
  id that are header values.
\<close>

theorem server_credentials_durable:
  assumes "starts_well ops a c" and "server_steps ops D (server_init a c) s"
  shows "stored_credential (as_store (server_app s)) = Some (cs_credential (sy_state (sv_credentials s))) \<and>
    usable ops (snapshot_from_state (sy_state (sv_credentials s))) \<and>
    (\<forall>read_at state now failed y snapshot.
       manager_credentials read_at state now (sv_credentials s) = (Inl snapshot, y) \<or>
       refresh_after_unauthorized now failed (sv_credentials s) = (Inl snapshot, y) \<longrightarrow> usable ops snapshot) \<and>
    (\<forall>channel snapshot. await_outcome channel (sv_credentials s) = Some (Inr snapshot) \<longrightarrow> usable ops snapshot)"
proof -
  from server_ok_steps [OF assms(2) server_ok_init [OF assms(1)]] have "memory_inv ops (credential_view s)"
    by (simp add: server_ok_def)
  then have held: "stored_credential (as_store (server_app s)) = Some (cs_credential (sy_state (sv_credentials s)))"
      "usable ops (snapshot_from_state (sy_state (sv_credentials s)))"
      "\<And>channel snapshot. await_outcome channel (sv_credentials s) = Some (Inr snapshot) \<Longrightarrow> usable ops snapshot"
    using memory_inv_snapshots [of ops "credential_view s"] by (simp_all add: memory_inv_def)
  then show ?thesis using callers_snapshot by (intro conjI) (blast | metis)+
qed

theorem server_credentials_durable_witness:
  "stored_credential (as_store (server_app demo_server)) = Some demo_credential"
  using server_credentials_durable [OF demo_starts_well demo_server_run [of exact_decimal]]
  by (simp add: demo_server_credentials demo_exchanging_def demo_queued_tasks demo_state_def)

end
