(* ===== verification/State_File.thy ===== *)
theory State_File
  imports Config
begin

text \<open>
  Opening the database (\<open>Store::open\<close> and \<open>prepare_state_file\<close> of \<open>src/store.rs\<close>) over a file system: a map
  from paths to nodes, one operation for each call the code makes, and the refusals of the operating system as
  arguments. What SQLite and the migrator make of the file are arguments of \<open>store_open\<close>. Between two calls of
  the preparation no other process replaces the file.
\<close>

unbundle bit_operations_syntax

section \<open>Files\<close>

datatype node =
    Regular (node_mode: "32 word") string
  | Directory (node_mode: "32 word")
  | Symbolic_Link string
  | Special (node_mode: "32 word")

type_synonym file_system = "string \<rightharpoonup> node"

datatype io_error = Already_Exists | Not_Found | Permission_Denied | Too_Many_Links | Invalid_Input string | Other_Io nat

record os =
  os_umask :: "32 word"
  os_create_refused :: "string \<Rightarrow> io_error option"
  os_stat_refused :: "string \<Rightarrow> io_error option"
  os_chmod_refused :: "string \<Rightarrow> io_error option"
  os_read_refused :: "string \<Rightarrow> io_error option"

text \<open>The node a path names when links are followed, at most 40 of them.\<close>

fun resolve :: "nat \<Rightarrow> file_system \<Rightarrow> string \<Rightarrow> string option" where
  "resolve 0 fs path = None"
| "resolve (Suc n) fs path =
     (case fs path of Some (Symbolic_Link target) \<Rightarrow> resolve n fs target | _ \<Rightarrow> Some path)"

definition link_limit :: nat where
  "link_limit = 40"

text \<open>\<open>OpenOptions::new().write(true).create_new(true).mode(mode).open(path)\<close>: the umask takes its bits away.\<close>

definition open_create_new :: "os \<Rightarrow> string \<Rightarrow> 32 word \<Rightarrow> file_system \<Rightarrow> (io_error + unit) \<times> file_system" where
  "open_create_new K path mode fs =
     (case os_create_refused K path of
        Some e \<Rightarrow> (Inl e, fs)
      | None \<Rightarrow>
          if fs path \<noteq> None then (Inl Already_Exists, fs)
          else (Inr (), fs(path \<mapsto> Regular (mode AND NOT (os_umask K)) [])))"

text \<open>\<open>std::fs::symlink_metadata\<close> does not follow links, \<open>set_permissions\<close> and \<open>read_to_string\<close> do.\<close>

definition symlink_metadata :: "os \<Rightarrow> string \<Rightarrow> file_system \<Rightarrow> io_error + node" where
  "symlink_metadata K path fs =
     (case os_stat_refused K path of Some e \<Rightarrow> Inl e | None \<Rightarrow> ok_or Not_Found (fs path))"

fun with_mode :: "32 word \<Rightarrow> node \<Rightarrow> node" where
  "with_mode mode (Regular m bytes) = Regular mode bytes"
| "with_mode mode (Directory m) = Directory mode"
| "with_mode mode (Symbolic_Link target) = Symbolic_Link target"
| "with_mode mode (Special m) = Special mode"

definition set_permissions :: "os \<Rightarrow> string \<Rightarrow> 32 word \<Rightarrow> file_system \<Rightarrow> (io_error + unit) \<times> file_system" where
  "set_permissions K path mode fs =
     (case os_chmod_refused K path of
        Some e \<Rightarrow> (Inl e, fs)
      | None \<Rightarrow>
          (case resolve link_limit fs path of
             None \<Rightarrow> (Inl Too_Many_Links, fs)
           | Some target \<Rightarrow>
               (case fs target of
                  None \<Rightarrow> (Inl Not_Found, fs)
                | Some node \<Rightarrow> (Inr (), fs(target \<mapsto> with_mode mode node)))))"

definition read_bytes :: "os \<Rightarrow> string \<Rightarrow> file_system \<Rightarrow> string option" where
  "read_bytes K path fs =
     (if os_read_refused K path \<noteq> None then None
      else
        (case opt_bind (resolve link_limit fs path) fs of
           Some (Regular m bytes) \<Rightarrow> Some bytes
         | _ \<Rightarrow> None))"

section \<open>The state file\<close>

fun is_file :: "node \<Rightarrow> bool" where
  "is_file (Regular m bytes) = True"
| "is_file _ = False"

definition prepare_state_file :: "os \<Rightarrow> string \<Rightarrow> 32 word \<Rightarrow> file_system \<Rightarrow> (io_error + unit) \<times> file_system" where
  "prepare_state_file K path mode fs =
     (case open_create_new K path mode fs of
        (Inr _, fs') \<Rightarrow> (Inr (), fs')
      | (Inl e, fs') \<Rightarrow>
          if e = Already_Exists then
            (case symlink_metadata K path fs' of
               Inl e \<Rightarrow> (Inl e, fs')
             | Inr node \<Rightarrow>
                 if \<not> is_file node then (Inl (Invalid_Input ''SQLite state path is not a regular file''), fs')
                 else set_permissions K path mode fs')
          else (Inl e, fs'))"

record connect_options =
  co_filename :: string
  co_create_if_missing :: bool
  co_foreign_keys :: bool
  co_wal :: bool
  co_busy_timeout_s :: nat
  co_min_connections :: nat
  co_max_connections :: nat

definition store_connect_options :: "string \<Rightarrow> connect_options" where
  "store_connect_options path =
     \<lparr>co_filename = path, co_create_if_missing = False, co_foreign_keys = True, co_wal = True,
      co_busy_timeout_s = 5, co_min_connections = 1, co_max_connections = 8\<rparr>"

definition store_open ::
  "os \<Rightarrow> (connect_options \<Rightarrow> file_system \<Rightarrow> 'pool option) \<Rightarrow> ('pool \<Rightarrow> store option) \<Rightarrow> string \<Rightarrow> 32 word \<Rightarrow>
     file_system \<Rightarrow> (StoreError + store) \<times> file_system" where
  "store_open K connect migrate path mode fs =
     (case prepare_state_file K path mode fs of
        (Inl e, fs') \<Rightarrow> (Inl Io, fs')
      | (Inr _, fs') \<Rightarrow>
          (res_bind (ok_or Database (connect (store_connect_options path) fs')) (\<lambda>pool.
           ok_or Migration (migrate pool)), fs'))"

lemma resolve_Suc: "fs path = Some n \<Longrightarrow> is_file n \<Longrightarrow> resolve (Suc k) fs path = Some path"
  by (cases n) simp_all

lemma resolve_file: "fs path = Some n \<Longrightarrow> is_file n \<Longrightarrow> resolve link_limit fs path = Some path"
  using resolve_Suc [of fs path n 39] by (simp add: link_limit_def)

lemma read_regular:
  assumes "fs path = Some (Regular m bytes)" "os_read_refused K path = None" shows "read_bytes K path fs = Some bytes"
  using assms resolve_file [of fs path] by (simp add: read_bytes_def)

lemma prepare_state_file_cases:
  assumes "prepare_state_file K path mode fs = (r, fs')"
  obtains (refused) e where "r = Inl e" "fs' = fs"
    | (created) "r = Inr ()" "fs path = None" "fs' = fs(path \<mapsto> Regular (mode AND NOT (os_umask K)) [])"
    | (kept) m bytes where "r = Inr ()" "fs path = Some (Regular m bytes)" "fs' = fs(path \<mapsto> Regular mode bytes)"
proof (cases "\<exists>m bytes. fs path = Some (Regular m bytes)")
  case True
  then obtain m bytes where there: "fs path = Some (Regular m bytes)" by blast
  have "resolve link_limit fs path = Some path" using resolve_file [of fs path] there by simp
  with assms there have "(\<exists>e. r = Inl e) \<and> fs' = fs \<or> r = Inr () \<and> fs' = fs(path \<mapsto> Regular mode bytes)"
    by (auto simp: prepare_state_file_def open_create_new_def symlink_metadata_def set_permissions_def
        split: option.splits if_splits)
  with there refused kept show thesis by blast
next
  case False
  then have "\<not> is_file n" if "fs path = Some n" for n using that by (cases n) auto
  with assms have "(\<exists>e. r = Inl e) \<and> fs' = fs \<or>
      r = Inr () \<and> fs path = None \<and> fs' = fs(path \<mapsto> Regular (mode AND NOT (os_umask K)) [])"
    by (cases "fs path") (auto simp: prepare_state_file_def open_create_new_def symlink_metadata_def
        split: option.splits if_splits)
  with refused created show thesis by metis
qed

text \<open>
  C29. Preparing the state file touches no other file and follows no link. A failure changes nothing at all. On
  success the path is a regular file: a new, empty one with the configured mode less the bits of the umask, or
  the file that was there with the configured mode and its contents as they were. So a second start gives the
  file the configured mode exactly, whatever the umask took at the first.
\<close>

theorem state_file_prepared:
  assumes "prepare_state_file K path mode fs = (r, fs')"
  shows "(\<forall>p. p \<noteq> path \<longrightarrow> fs' p = fs p) \<and>
    (case r of
       Inl e \<Rightarrow> fs' = fs
     | Inr _ \<Rightarrow>
         (case fs path of
            None \<Rightarrow> fs' path = Some (Regular (mode AND NOT (os_umask K)) [])
          | Some (Regular m bytes) \<Rightarrow> fs' path = Some (Regular mode bytes)
          | Some other \<Rightarrow> False) \<and>
         (\<forall>K2 fs2. prepare_state_file K2 path mode fs' = (Inr (), fs2) \<longrightarrow>
            (\<exists>bytes. fs2 path = Some (Regular mode bytes))))"
  using assms
proof (cases rule: prepare_state_file_cases)
  case created
  then show ?thesis by (auto elim: prepare_state_file_cases)
next
  case (kept m bytes)
  then show ?thesis by (auto elim: prepare_state_file_cases)
qed simp

definition demo_os :: os where
  "demo_os = \<lparr>os_umask = 18, os_create_refused = (\<lambda>p. None), os_stat_refused = (\<lambda>p. None),
     os_chmod_refused = (\<lambda>p. None), os_read_refused = (\<lambda>p. None)\<rparr>"

text \<open>With mode 0660 and umask 022 the first start leaves 0640, the second 0660.\<close>

lemma demo_state_file:
  "prepare_state_file demo_os ''db'' 432 Map.empty = (Inr (), [''db'' \<mapsto> Regular 416 []])"
  "prepare_state_file demo_os ''db'' 432 [''db'' \<mapsto> Regular 416 []] = (Inr (), [''db'' \<mapsto> Regular 432 []])"
  by (simp_all add: prepare_state_file_def open_create_new_def symlink_metadata_def set_permissions_def demo_os_def
      resolve_file)

theorem state_file_prepared_witness:
  "fst (prepare_state_file demo_os ''db'' 432 Map.empty) = Inr () \<and>
   (\<exists>bytes. snd (prepare_state_file demo_os ''db'' 432 [''db'' \<mapsto> Regular 416 []]) ''db'' = Some (Regular 432 bytes))"
  using state_file_prepared [OF demo_state_file(1)] demo_state_file by simp

end
