(* ===== verification/Config_Load.thy ===== *)
theory Config_Load
  imports State_File
begin

text \<open>
  Reading the configuration (\<open>Config::load\<close> of \<open>src/config.rs\<close>): the file, the TOML library, the
  deserialisers of \<open>Config\<close> field by field, and \<open>validate\<close>; and what may be printed of it. The TOML library is
  an argument: it yields the document as written, with the fields that may be left out as options, or an error
  that carries the text it stands in. Of several bad fields the model reports the first in the order of the
  structs, the library the first in the order of the document.
\<close>

section \<open>The document\<close>

record price_document =
  pd_input :: string
  pd_cached_input :: string
  pd_output :: string
  pd_max_reasoning_effort :: "string option"

record config_document =
  cd_listen :: string
  cd_enable_websockets :: "bool option"
  cd_state_path :: string
  cd_file_mode :: "string option"
  cd_base_url :: "string option"
  cd_oauth_token_url :: "string option"
  cd_auth_file :: string
  cd_supports_websockets :: "bool option"
  cd_fallback_model :: "string option"
  cd_api_keys :: "api_key_config_input list"
  cd_model_prices :: "(string \<times> price_document) list"

record parsers =
  ps_url :: "string \<Rightarrow> url option"
  ps_decimal :: "string \<Rightarrow> rat option"

text \<open>The hard-coded URLs, as \<open>Url\<close> serialises them.\<close>

definition default_upstream_base_url :: url where
  "default_upstream_base_url = \<lparr>url_scheme = ''https'', url_text = ''https://chatgpt.com/backend-api/codex''\<rparr>"

definition default_oauth_token_url :: url where
  "default_oauth_token_url = \<lparr>url_scheme = ''https'', url_text = ''https://auth.openai.com/oauth/token''\<rparr>"

text \<open>\<open>#[serde(default = ..., deserialize_with = ...)]\<close>.\<close>

definition field_or :: "'a \<Rightarrow> ('b \<Rightarrow> 'e + 'a) \<Rightarrow> 'b option \<Rightarrow> 'e + 'a" where
  "field_or d f x = (case x of None \<Rightarrow> Inr d | Some y \<Rightarrow> f y)"

definition deserialize_server :: "config_document \<Rightarrow> server_config" where
  "deserialize_server d =
     \<lparr>listen = cd_listen d, enable_websockets = (case cd_enable_websockets d of Some b \<Rightarrow> b | None \<Rightarrow> False)\<rparr>"

definition deserialize_state :: "config_document \<Rightarrow> config_error + state_config" where
  "deserialize_state d =
     res_bind (field_or default_state_file_mode deserialize_file_mode (cd_file_mode d)) (\<lambda>mode.
     Inr \<lparr>state_path = cd_state_path d, file_mode = mode\<rparr>)"

definition deserialize_upstream :: "parsers \<Rightarrow> config_document \<Rightarrow> config_error + upstream_config" where
  "deserialize_upstream P d =
     res_bind (field_or default_upstream_base_url (deserialize_url (ps_url P)) (cd_base_url d)) (\<lambda>base.
     res_bind (field_or default_oauth_token_url (deserialize_url (ps_url P)) (cd_oauth_token_url d)) (\<lambda>oauth.
     Inr \<lparr>base_url = base, oauth_token_url = oauth, auth_file = cd_auth_file d,
          supports_websockets = (case cd_supports_websockets d of Some b \<Rightarrow> b | None \<Rightarrow> False)\<rparr>))"

definition deserialize_price :: "parsers \<Rightarrow> price_document \<Rightarrow> config_error + model_price" where
  "deserialize_price P p =
     res_bind (deserialize_decimal (ps_decimal P) (pd_input p)) (\<lambda>input.
     res_bind (deserialize_decimal (ps_decimal P) (pd_cached_input p)) (\<lambda>cached.
     res_bind (deserialize_decimal (ps_decimal P) (pd_output p)) (\<lambda>output.
     Inr \<lparr>price_input = input, price_cached_input = cached, price_output = output,
          max_reasoning_effort = pd_max_reasoning_effort p\<rparr>)))"

fun deserialize_prices ::
  "parsers \<Rightarrow> model_price bmap \<Rightarrow> (string \<times> price_document) list \<Rightarrow> config_error + model_price bmap" where
  "deserialize_prices P m [] = Inr m"
| "deserialize_prices P m ((model, p) # ps) =
     res_bind (deserialize_price P p) (\<lambda>price. deserialize_prices P (bmap_insert model price m) ps)"

definition deserialize_config ::
  "parsers \<Rightarrow> (string \<Rightarrow> string option) \<Rightarrow> config_document \<Rightarrow> config_error + config" where
  "deserialize_config P read_file d =
     res_bind (deserialize_state d) (\<lambda>state.
     res_bind (deserialize_upstream P d) (\<lambda>upstream.
     res_bind (res_map_from 0 (\<lambda>_. deserialize_api_key (ps_decimal P) read_file) (cd_api_keys d)) (\<lambda>keys.
     res_bind (deserialize_prices P [] (cd_model_prices d)) (\<lambda>prices.
     Inr \<lparr>cfg_server = deserialize_server d, cfg_state = state, cfg_upstream = upstream,
          fallback_model = cd_fallback_model d, api_keys = keys, model_prices = prices\<rparr>))))"

section \<open>Loading\<close>

text \<open>A TOML error: what went wrong where, and the text of the file, from which its display would quote a line.\<close>

record toml_error =
  te_path :: string
  te_message :: string
  te_input :: "string option"

datatype load_error =
    Config_Unreadable string
  | Config_Invalid string
  | Config_Bad_Field config_error
  | Config_Rejected config_error

definition load_config ::
  "parsers \<Rightarrow> (string \<Rightarrow> toml_error + config_document) \<Rightarrow> (toml_error \<Rightarrow> string) \<Rightarrow> (string \<Rightarrow> string option) \<Rightarrow>
     string \<Rightarrow> load_error + config" where
  "load_config P toml display read_file path =
     res_bind (ok_or (Config_Unreadable path) (read_file path)) (\<lambda>contents.
     res_bind (map_err (\<lambda>e. Config_Invalid (display (e\<lparr>te_input := None\<rparr>))) (toml contents)) (\<lambda>document.
     res_bind (map_err Config_Bad_Field (deserialize_config P read_file document)) (\<lambda>config.
     res_bind (map_err Config_Rejected (validate config)) (\<lambda>_.
     Inr config))))"

text \<open>The \<open>Debug\<close> instance of a key, as the fields it prints.\<close>

datatype debug_value = Debug_Text string | Debug_Amount "rat option"

definition debug_api_key :: "api_key_config \<Rightarrow> (string \<times> debug_value) list" where
  "debug_api_key k =
     [(''id'', Debug_Text (key_id k)), (''secret'', Debug_Text ''[REDACTED]''),
      (''weekly_limit_usd'', Debug_Amount (key_weekly_limit_usd k)),
      (''hard_limit_usd'', Debug_Amount (key_hard_limit_usd k))]"

section \<open>Secrets stay in the configuration\<close>

text \<open>The same document and files with every secret \<open>s\<close> replaced by \<open>f s\<close>.\<close>

definition resecret_key :: "(string \<Rightarrow> string) \<Rightarrow> api_key_config \<Rightarrow> api_key_config" where
  "resecret_key f k = k\<lparr>key_secret := f (key_secret k)\<rparr>"

definition resecret_config :: "(string \<Rightarrow> string) \<Rightarrow> config \<Rightarrow> config" where
  "resecret_config f c = c\<lparr>api_keys := map (resecret_key f) (api_keys c)\<rparr>"

definition resecret_input :: "(string \<Rightarrow> string) \<Rightarrow> api_key_config_input \<Rightarrow> api_key_config_input" where
  "resecret_input f i = i\<lparr>in_secret := map_option f (in_secret i)\<rparr>"

definition resecret_document :: "(string \<Rightarrow> string) \<Rightarrow> config_document \<Rightarrow> config_document" where
  "resecret_document f d = d\<lparr>cd_api_keys := map (resecret_input f) (cd_api_keys d)\<rparr>"

definition same_secret_files ::
  "(string \<Rightarrow> string) \<Rightarrow> api_key_config_input list \<Rightarrow> (string \<Rightarrow> string option) \<Rightarrow> (string \<Rightarrow> string option) \<Rightarrow> bool" where
  "same_secret_files f inputs read read' \<longleftrightarrow>
     (\<forall>i \<in> set inputs. \<forall>p. in_secret_file i = Some p \<longrightarrow>
        map_option strip_line_ending (read' p) = map_option f (map_option strip_line_ending (read p)))"

definition same_shape :: "(string \<Rightarrow> string) \<Rightarrow> bool" where
  "same_shape f \<longleftrightarrow> inj f \<and> (\<forall>s. (f s = []) = (s = []) \<and> list_ex is_ascii_whitespace (f s) = list_ex is_ascii_whitespace s)"

lemma deserialize_api_key_resecret:
  assumes "same_secret_files f inputs read read'" "i \<in> set inputs"
  shows "deserialize_api_key D read' (resecret_input f i) = map_sum id (resecret_key f) (deserialize_api_key D read i)"
proof (cases "\<exists>p. in_secret i = None \<and> in_secret_file i = Some p")
  case True
  then obtain p where p: "in_secret i = None" "in_secret_file i = Some p" by blast
  from assms p have "map_option strip_line_ending (read' p) = map_option f (map_option strip_line_ending (read p))"
    by (simp add: same_secret_files_def)
  with p show ?thesis
    by (cases "read p"; cases "read' p") (simp_all add: deserialize_api_key_def resecret_input_def resecret_key_def
        res_bind_def split: sum.split option.split)
next
  case False
  then show ?thesis
    by (cases "in_secret i"; cases "in_secret_file i") (simp_all add: deserialize_api_key_def resecret_input_def
        resecret_key_def res_bind_def split: sum.split option.split)
qed

lemma deserialize_keys_resecret:
  assumes "same_secret_files f is read read'"
  shows "res_map_from n (\<lambda>_. deserialize_api_key D read') (map (resecret_input f) is) =
    map_sum id (map (resecret_key f)) (res_map_from n (\<lambda>_. deserialize_api_key D read) is)"
  using assms
proof (induction "is" arbitrary: n)
  case (Cons i "is")
  from Cons.prems have "same_secret_files f is read read'" by (simp add: same_secret_files_def)
  with Cons.IH deserialize_api_key_resecret [OF Cons.prems, of i D] show ?case
    by (cases "deserialize_api_key D read i"; cases "res_map_from (Suc n) (\<lambda>_. deserialize_api_key D read) is") simp_all
qed simp

lemma deserialize_config_resecret:
  assumes "same_secret_files f (cd_api_keys d) read read'"
  shows "deserialize_config P read' (resecret_document f d) = map_sum id (resecret_config f) (deserialize_config P read d)"
  unfolding deserialize_config_def
  by (simp add: resecret_document_def deserialize_keys_resecret [OF assms] resecret_config_def deserialize_server_def
      deserialize_state_def deserialize_upstream_def res_bind_def split: sum.split)

lemma validate_keys_resecret:
  assumes "same_shape f"
  shows "validate_api_keys has_fallback ids (f ` secrets) (map (resecret_key f) ks) = validate_api_keys has_fallback ids secrets ks"
proof (induction ks arbitrary: ids secrets)
  case (Cons k ks)
  from assms have "validate_api_key has_fallback ids (f ` secrets) (resecret_key f k) =
      map_sum id (map_prod id ((`) f)) (validate_api_key has_fallback ids secrets k)"
    by (simp add: validate_api_key_def resecret_key_def same_shape_def inj_image_mem_iff Let_def split: option.split)
  then show ?case using Cons.IH
    by (cases "validate_api_key has_fallback ids secrets k") (auto split: prod.split)
qed simp

lemma validate_resecret:
  assumes "same_shape f" shows "validate (resecret_config f c) = validate c"
proof -
  have "validate_fallback (resecret_config f c) = validate_fallback c"
    by (simp add: validate_fallback_def resecret_config_def split: option.split)
  with validate_keys_resecret [OF assms, of "fallback_model c \<noteq> None" "{}" "{}" "api_keys c"] show ?thesis
    by (simp add: validate_def resecret_config_def)
qed


text \<open>Two configurations of one key, with the secrets \<open>aa\<close> and \<open>bb\<close>.\<close>

definition swap_ab :: "char \<Rightarrow> char" where
  "swap_ab c = (if c = CHR ''a'' then CHR ''b'' else if c = CHR ''b'' then CHR ''a'' else c)"

definition demo_document :: "string \<Rightarrow> config_document" where
  "demo_document secret =
     \<lparr>cd_listen = ''127.0.0.1:8080'', cd_enable_websockets = None, cd_state_path = ''db'', cd_file_mode = None,
      cd_base_url = None, cd_oauth_token_url = None, cd_auth_file = ''auth.json'', cd_supports_websockets = None,
      cd_fallback_model = None,
      cd_api_keys = [\<lparr>in_id = ''alice'', in_secret = Some secret, in_secret_file = None, in_weekly_limit_usd = None,
        in_hard_limit_usd = None\<rparr>],
      cd_model_prices = [(''m'', \<lparr>pd_input = ''1'', pd_cached_input = ''1'', pd_output = ''1'', pd_max_reasoning_effort = None\<rparr>)]\<rparr>"

definition demo_toml :: "string \<Rightarrow> toml_error + config_document" where
  "demo_toml text = Inr (demo_document text)"

definition demo_parsers :: parsers where
  "demo_parsers = \<lparr>ps_url = (\<lambda>s. None), ps_decimal = (\<lambda>s. Some 1)\<rparr>"

lemma swap_ab_shape: "same_shape (map swap_ab)"
proof -
  have "inj swap_ab" by (rule inj_onI) (auto simp: swap_ab_def split: if_splits)
  moreover have "is_ascii_whitespace (swap_ab c) = is_ascii_whitespace c" for c
    by (simp add: swap_ab_def is_ascii_whitespace_def byte_def)
  ultimately show ?thesis by (simp add: same_shape_def list_ex_iff)
qed

lemma demo_load:
  "load_config demo_parsers demo_toml te_message [''c1'' \<mapsto> ''aa''] ''c1'' = Inr
     \<lparr>cfg_server = \<lparr>listen = ''127.0.0.1:8080'', enable_websockets = False\<rparr>,
      cfg_state = \<lparr>state_path = ''db'', file_mode = 384\<rparr>,
      cfg_upstream = \<lparr>base_url = default_upstream_base_url, oauth_token_url = default_oauth_token_url,
        auth_file = ''auth.json'', supports_websockets = False\<rparr>,
      fallback_model = None,
      api_keys = [\<lparr>key_id = ''alice'', key_secret = ''aa'', key_weekly_limit_usd = None, key_hard_limit_usd = None\<rparr>],
      model_prices = [(''m'', \<lparr>price_input = 1, price_cached_input = 1, price_output = 1, max_reasoning_effort = None\<rparr>)]\<rparr>"
  by (simp add: load_config_def demo_toml_def demo_document_def demo_parsers_def deserialize_config_def deserialize_state_def
      deserialize_upstream_def field_or_def deserialize_api_key_def deserialize_optional_decimal_def deserialize_price_def
      deserialize_decimal_def deserialize_server_def default_state_file_mode_def validate_def validate_http_url_def
      default_upstream_base_url_def default_oauth_token_url_def validate_api_key_def validate_model_price_def
      validate_fallback_def is_ascii_whitespace_def byte_def)


end
