(* ===== verification/Cli.thy ===== *)
theory Cli
  imports Config Store_Props "HOL-Library.Signed_Division"
begin

text \<open>
  The reporting commands (\<open>src/cli.rs\<close>): \<open>logs\<close> and \<open>stat\<close> read the view \<open>request_logs\<close> of the ledger.
  A command returns the cells of the table it prints. Instants are seconds since the epoch and dates are
  days since it, with the ranges of the \<open>time\<close> crate written out; an instant bound to a query and compared
  with \<open>julianday\<close> is compared as the instant it is. What the calendar prints, the local time zone and
  \<open>Decimal\<close>'s text and division are parameters. \<open>Cli_Panicked\<close> is no value of the program: it marks the
  \<open>unreachable!\<close> of \<open>print_stat\<close> and the panics of library calls.
\<close>

section \<open>The view\<close>

datatype cli_error = Cli_Failed string | Cli_Config string | Cli_Format | Cli_Panicked

definition zero_pad :: "nat \<Rightarrow> int \<Rightarrow> string" where
  "zero_pad w n =
     (let sign = (if n < 0 then ''-'' else []); digits = show_nat (nat \<bar>n\<bar>)
      in sign @ replicate (w - length sign - length digits) (CHR ''0'') @ digits)"

record request_log =
  lg_id :: int
  lg_requested_at :: int
  lg_api_key_id :: string
  lg_model :: string
  lg_reasoning_effort :: "string option"
  lg_api_protocol :: string
  lg_transport :: string
  lg_input_tokens :: "int option"
  lg_cached_input_tokens :: "int option"
  lg_output_tokens :: "int option"
  lg_cost_usd :: "string option"
  lg_duration_ms :: "int option"
  lg_status :: string
  lg_http_status :: "int option"

text \<open>\<open>printf('%d.%09d', n / 1000000000, n % 1000000000)\<close>; the table holds no negative cost.\<close>

definition cost_text :: "int \<Rightarrow> string" where
  "cost_text n = show_int (n div 1000000000) @ ''.'' @ zero_pad 9 (n mod 1000000000)"

definition request_log_of :: "ledger_row \<Rightarrow> request_log" where
  "request_log_of r =
     \<lparr>lg_id = row_id r, lg_requested_at = row_requested_at_ms r div 1000, lg_api_key_id = row_api_key_id r,
      lg_model = row_model r, lg_reasoning_effort = row_reasoning_effort r, lg_api_protocol = row_api_protocol r,
      lg_transport = row_transport r, lg_input_tokens = row_input_tokens r,
      lg_cached_input_tokens = row_cached_input_tokens r, lg_output_tokens = row_output_tokens r,
      lg_cost_usd = map_option cost_text (row_cost_nano_usd r), lg_duration_ms = row_duration_ms r,
      lg_status = row_status r, lg_http_status = row_http_status r\<rparr>"

definition request_logs :: "store \<Rightarrow> request_log list" where
  "request_logs st = map request_log_of (ledger st)"

text \<open>The state file and the configuration as the commands find them.\<close>

record cli_env =
  ce_config :: "string + config"
  ce_opens :: bool
  ce_query_fails :: bool

definition open_read_only :: "cli_env \<Rightarrow> string \<Rightarrow> cli_error + unit" where
  "open_read_only E path =
     (if ce_opens E then Inr () else Inl (Cli_Failed (''failed to open SQLite state '' @ path)))"

section \<open>Times and dates\<close>

record instant =
  at_unix :: int
  at_nanosecond :: int
  at_offset :: int

definition instant_before :: "instant \<Rightarrow> instant \<Rightarrow> bool" where
  "instant_before s t \<longleftrightarrow>
     at_unix s < at_unix t \<or> (at_unix s = at_unix t \<and> at_nanosecond s < at_nanosecond t)"

definition parse_rfc3339 :: "(string \<Rightarrow> string + instant) \<Rightarrow> string \<Rightarrow> string + instant" where
  "parse_rfc3339 parse value =
     res_bind (parse value) (\<lambda>timestamp.
     if at_nanosecond timestamp \<noteq> 0 then Inl ''timestamps must use whole-second precision'' else Inr timestamp)"

text \<open>RFC 3339 has the years 0 to 9999 and offsets of whole minutes.\<close>

definition rfc3339_ok :: "int \<Rightarrow> int \<Rightarrow> bool" where
  "rfc3339_ok unix offset \<longleftrightarrow>
     - 62167219200 \<le> unix + offset \<and> unix + offset < 253402300800 \<and> offset mod 60 = 0"

text \<open>A bound instant; SQLite's \<open>julianday\<close> is null after the year 9999.\<close>

definition bound_instant :: "instant \<Rightarrow> cli_error + int option" where
  "bound_instant t =
     (if rfc3339_ok (at_unix t) (at_offset t)
      then Inr (if at_unix t < 253402300800 then Some (at_unix t) else None) else Inl Cli_Format)"

record calendar_ops =
  cal_local_offset :: "int \<Rightarrow> int option"
  cal_show :: "int \<Rightarrow> int \<Rightarrow> string"

definition format_local_timestamp :: "calendar_ops \<Rightarrow> int \<Rightarrow> cli_error + string" where
  "format_local_timestamp C t =
     res_bind (ok_or (Cli_Failed ''failed to determine the local UTC offset'') (cal_local_offset C t)) (\<lambda>offset.
     if t + offset < - 377705116800 \<or> 253402300800 \<le> t + offset then Inl Cli_Panicked
     else if \<not> rfc3339_ok t offset then Inl (Cli_Failed ''failed to format the local request time'')
     else Inr (cal_show C t offset))"

section \<open>Logs\<close>

datatype LogStatus =
    Log_Started | Log_Completed | Log_Incomplete | Log_Rejected | Log_Upstream_Error | Log_Canceled | Log_Internal_Error

fun log_status_as_str :: "LogStatus \<Rightarrow> string" where
  "log_status_as_str Log_Started = ''started''"
| "log_status_as_str Log_Completed = ''completed''"
| "log_status_as_str Log_Incomplete = ''incomplete''"
| "log_status_as_str Log_Rejected = ''rejected''"
| "log_status_as_str Log_Upstream_Error = ''upstream_error''"
| "log_status_as_str Log_Canceled = ''canceled''"
| "log_status_as_str Log_Internal_Error = ''internal_error''"

record logs_args =
  la_limit :: nat
  la_api_key_id :: "string option"
  la_model :: "string option"
  la_status :: "LogStatus option"
  la_since :: "instant option"
  la_until :: "instant option"

text \<open>\<open>AND\<close> of the conditions that were pushed; a comparison with null holds of no row.\<close>

definition log_matches :: "logs_args \<Rightarrow> int option option \<Rightarrow> int option option \<Rightarrow> request_log \<Rightarrow> bool" where
  "log_matches args since until r \<longleftrightarrow>
     opt_all (\<lambda>k. lg_api_key_id r = k) (la_api_key_id args) \<and>
     opt_all (\<lambda>m. lg_model r = m) (la_model args) \<and>
     opt_all (\<lambda>s. lg_status r = log_status_as_str s) (la_status args) \<and>
     opt_all (\<lambda>t. case t of None \<Rightarrow> False | Some t \<Rightarrow> t \<le> lg_requested_at r) since \<and>
     opt_all (\<lambda>t. case t of None \<Rightarrow> False | Some t \<Rightarrow> lg_requested_at r < t) until"

text \<open>\<open>ORDER BY id DESC LIMIT n\<close>.\<close>

definition newest :: "nat \<Rightarrow> request_log list \<Rightarrow> request_log list" where
  "newest n rows = take n (sort_key (\<lambda>r. - lg_id r) rows)"

text \<open>The dash of a missing value.\<close>

definition em_dash :: string where
  "em_dash = [CHR 0xE2, CHR 0x80, CHR 0x94]"

definition format_k_tokens :: "int option \<Rightarrow> string" where
  "format_k_tokens tokens =
     (case tokens of
        Some n \<Rightarrow> show_int (n sdiv 1000) @ ''.'' @ zero_pad 3 (n smod 1000)
      | None \<Rightarrow> em_dash)"

definition log_cells :: "calendar_ops \<Rightarrow> request_log \<Rightarrow> cli_error + string list" where
  "log_cells C r =
     res_bind (format_local_timestamp C (lg_requested_at r)) (\<lambda>requested_at.
     Inr [lg_api_key_id r, requested_at,
       (case lg_reasoning_effort r of Some reasoning \<Rightarrow> lg_model r @ '' ('' @ reasoning @ '')'' | None \<Rightarrow> lg_model r),
       lg_api_protocol r @ ''/'' @ lg_transport r,
       format_k_tokens (lg_input_tokens r) @ ''/'' @ format_k_tokens (lg_cached_input_tokens r) @ ''/'' @
         format_k_tokens (lg_output_tokens r),
       (case lg_cost_usd r of Some cost \<Rightarrow> cost | None \<Rightarrow> em_dash),
       (case lg_duration_ms r of Some duration \<Rightarrow> show_int duration @ '' ms'' | None \<Rightarrow> em_dash),
       lg_status r])"

definition logs_order :: "logs_args \<Rightarrow> cli_error + unit" where
  "logs_order args =
     (case (la_since args, la_until args) of
        (Some since, Some until) \<Rightarrow>
          if instant_before since until then Inr () else Inl (Cli_Failed ''--since must be earlier than --until'')
      | _ \<Rightarrow> Inr ())"

definition print_logs :: "calendar_ops \<Rightarrow> cli_env \<Rightarrow> logs_args \<Rightarrow> store \<Rightarrow> cli_error + string list list" where
  "print_logs C E args st =
     res_bind (logs_order args) (\<lambda>_.
     res_bind (map_err Cli_Config (ce_config E)) (\<lambda>config.
     res_bind (open_read_only E (state_path (cfg_state config))) (\<lambda>_.
     res_bind (res_opt bound_instant (la_since args)) (\<lambda>since.
     res_bind (res_opt bound_instant (la_until args)) (\<lambda>until.
     if ce_query_fails E then Inl (Cli_Failed ''failed to query request logs'')
     else res_map_from 0 (\<lambda>_. log_cells C)
       (newest (la_limit args) (filter (log_matches args since until) (request_logs st))))))))"

section \<open>Statistics\<close>

text \<open>\<open>Decimal\<close>: parsing, \<open>{:.n}\<close>, and the operators that panic out of range and on a zero divisor.\<close>

record decimal_text =
  dt_parse :: "string \<Rightarrow> rat option"
  dt_fixed :: "nat \<Rightarrow> rat \<Rightarrow> string"
  dt_mul :: "rat \<Rightarrow> rat \<Rightarrow> rat option"
  dt_div :: "rat \<Rightarrow> rat \<Rightarrow> rat option"

record stat_args =
  sa_start_date :: "int option"
  sa_end_date :: "int option"

text \<open>Arithmetic on \<open>Date\<close> panics outside the years -9999 to 9999.\<close>

definition date_max :: int where
  "date_max = 2932896"

definition checked_date :: "int \<Rightarrow> cli_error + int" where
  "checked_date d = (if - 4371587 \<le> d \<and> d \<le> date_max then Inr d else Inl Cli_Panicked)"

definition stat_range :: "int \<Rightarrow> stat_args \<Rightarrow> cli_error + int \<times> int" where
  "stat_range now args =
     res_bind (checked_date (utc_day now - number_days_from_monday now)) (\<lambda>week_start.
     res_bind (checked_date (week_start + 6)) (\<lambda>week_end.
     let start_date = (case sa_start_date args of None \<Rightarrow> week_start | Some d \<Rightarrow> d);
         end_date = (case sa_end_date args of None \<Rightarrow> week_end | Some d \<Rightarrow> d)
     in if end_date < start_date
        then Inl (Cli_Failed ''--start-date must be earlier than or equal to --end-date'')
        else if date_max \<le> end_date then Inl (Cli_Failed ''--end-date is out of range'')
        else Inr (start_date, end_date)))"

record stat_sums =
  ss_spent :: "rat bmap"
  ss_tokens :: "(int \<times> int) bmap"

definition or_zero :: "rat option \<Rightarrow> rat" where
  "or_zero x = (case x of None \<Rightarrow> 0 | Some x \<Rightarrow> x)"

definition add_cost :: "decimal_ops \<Rightarrow> decimal_text \<Rightarrow> request_log \<Rightarrow> stat_sums \<Rightarrow> cli_error + stat_sums" where
  "add_cost D T r acc =
     (case lg_cost_usd r of
        None \<Rightarrow> Inr acc
      | Some cost \<Rightarrow>
          res_bind (ok_or (Cli_Failed ''request_logs contains an invalid cost_usd value'') (dt_parse T cost)) (\<lambda>cost.
          res_bind (ok_or (Cli_Failed ''usage spend is out of range'')
            (dec_checked_add D (or_zero (map_of (ss_spent acc) (lg_api_key_id r))) cost)) (\<lambda>spent.
          Inr (acc\<lparr>ss_spent := bmap_insert (lg_api_key_id r) spent (ss_spent acc)\<rparr>))))"

definition add_tokens :: "request_log \<Rightarrow> stat_sums \<Rightarrow> cli_error + stat_sums" where
  "add_tokens r acc =
     (case lg_input_tokens r of
        None \<Rightarrow> Inr acc
      | Some input_tokens \<Rightarrow>
          (let cached_input_tokens = (case lg_cached_input_tokens r of None \<Rightarrow> 0 | Some n \<Rightarrow> n);
               tokens = (case map_of (ss_tokens acc) (lg_api_key_id r) of None \<Rightarrow> (0, 0) | Some t \<Rightarrow> t)
           in
             res_bind (ok_or (Cli_Failed ''input token count is out of range'')
               (i64_try_from (fst tokens + input_tokens))) (\<lambda>total.
             res_bind (ok_or (Cli_Failed ''cached input token count is out of range'')
               (i64_try_from (snd tokens + cached_input_tokens))) (\<lambda>cached.
             Inr (acc\<lparr>ss_tokens := bmap_insert (lg_api_key_id r) (total, cached) (ss_tokens acc)\<rparr>)))))"

fun sum_rows :: "decimal_ops \<Rightarrow> decimal_text \<Rightarrow> request_log list \<Rightarrow> stat_sums \<Rightarrow> cli_error + stat_sums" where
  "sum_rows D T [] acc = Inr acc"
| "sum_rows D T (r # rows) acc =
     res_bind (add_cost D T r acc) (\<lambda>acc. res_bind (add_tokens r acc) (\<lambda>acc. sum_rows D T rows acc))"

definition cache_rate :: "decimal_text \<Rightarrow> (int \<times> int) option \<Rightarrow> cli_error + string" where
  "cache_rate T tokens =
     (case tokens of
        Some (input_tokens, cached_input_tokens) \<Rightarrow>
          if 0 < input_tokens
          then
            res_bind (ok_or Cli_Panicked (dt_mul T (of_int cached_input_tokens) 100)) (\<lambda>x.
            res_bind (ok_or Cli_Panicked (dt_div T x (of_int input_tokens))) (\<lambda>rate.
            Inr (dt_fixed T 2 rate @ ''%'')))
          else Inr em_dash
      | None \<Rightarrow> Inr em_dash)"

definition stat_status :: "rat \<Rightarrow> bool \<Rightarrow> rat option \<Rightarrow> rat option \<Rightarrow> cli_error + string" where
  "stat_status spent fallback_configured weekly_limit hard_limit =
     (case (weekly_limit, hard_limit) of
        (None, _) \<Rightarrow> Inr ''unlimited''
      | (Some soft, Some hard) \<Rightarrow>
          Inr (if hard \<le> spent \<or> (soft \<le> spent \<and> \<not> fallback_configured) then ''blocked''
               else if soft \<le> spent then ''fallback''
               else ''available'')
      | (Some _, None) \<Rightarrow> Inl Cli_Panicked)"

definition stat_cells :: "decimal_text \<Rightarrow> bool \<Rightarrow> stat_sums \<Rightarrow> api_key_config \<Rightarrow> cli_error + string list" where
  "stat_cells T fallback_configured acc k =
     (let spent = or_zero (map_of (ss_spent acc) (key_id k)) in
      res_bind (cache_rate T (map_of (ss_tokens acc) (key_id k))) (\<lambda>rate.
      res_bind (stat_status spent fallback_configured (key_weekly_limit_usd k) (key_hard_limit_usd k)) (\<lambda>status.
      Inr [key_id k, dt_fixed T 9 spent, rate, status])))"

text \<open>The range printed above the table, and the cells of the table.\<close>

definition print_stat ::
  "decimal_ops \<Rightarrow> decimal_text \<Rightarrow> cli_env \<Rightarrow> int \<Rightarrow> stat_args \<Rightarrow> store \<Rightarrow>
     cli_error + (int \<times> int) \<times> string list list" where
  "print_stat D T E now args st =
     res_bind (stat_range now args) (\<lambda>(start_date, end_date).
     let range_start = start_date * 86400; range_end = (end_date + 1) * 86400 in
     res_bind (map_err Cli_Config (ce_config E)) (\<lambda>config.
     res_bind (open_read_only E (state_path (cfg_state config))) (\<lambda>_.
     if \<not> rfc3339_ok range_start 0 \<or> \<not> rfc3339_ok range_end 0 then Inl Cli_Format
     else if ce_query_fails E then Inl (Cli_Failed ''failed to query usage statistics'')
     else
       res_bind (sum_rows D T
           (filter (\<lambda>r. range_start \<le> lg_requested_at r \<and> lg_requested_at r < range_end) (request_logs st))
           \<lparr>ss_spent = [], ss_tokens = []\<rparr>) (\<lambda>acc.
       res_bind (res_map_from 0 (\<lambda>_. stat_cells T (fallback_model config \<noteq> None) acc) (api_keys config)) (\<lambda>cells.
       Inr ((start_date, end_date), cells))))))"

section \<open>What the decimal library promises of text and division\<close>

text \<open>
  Beyond \<open>decimal_lib\<close>: a cost as the view prints it parses to the amount it denotes, the operators are exact
  or succeed where the exact result is a \<open>Decimal\<close> in range and the divisor is not zero.
\<close>

locale decimal_text_lib = decimal_lib +
  fixes T :: decimal_text
  assumes parse_cost: "0 \<le> n \<Longrightarrow> n \<le> i64_max \<Longrightarrow> dt_parse T (cost_text n) = Some (dec_of n 9)"
    and mul_exact': "dec_representable (x * y) \<Longrightarrow> dt_mul T x y = Some (x * y)"
    and div_defined: "y \<noteq> 0 \<Longrightarrow> \<bar>x / y\<bar> < 2 ^ 95 \<Longrightarrow> \<exists>z. dt_div T x y = Some z"
begin

lemma add_cost_spent:
  assumes add: "add_cost D T (request_log_of r) acc = Inr acc'" and check: "row_check r"
    and spent: "or_zero (map_of (ss_spent acc) key) = dec_of m 9" and m: "0 \<le> m"
    and small: "row_api_key_id r = key \<Longrightarrow> m + row_cost r \<le> i64_max"
  shows "or_zero (map_of (ss_spent acc') key) = dec_of (if row_api_key_id r = key then m + row_cost r else m) 9"
proof (cases "row_cost_nano_usd r")
  case None
  with add spent show ?thesis by (simp add: add_cost_def request_log_of_def row_cost_def)
next
  case (Some n)
  with check have n: "0 \<le> n" by (simp add: row_check_def opt_all_def)
  show ?thesis
  proof (cases "row_api_key_id r = key")
    case True
    with small Some m n have bound: "n \<le> i64_max" "\<bar>m + n\<bar> < 2 ^ 96"
      by (simp_all add: row_cost_def i64_max_def)
    from add_scaled [OF bound(2), of 9] have "dec_checked_add D (dec_of m 9) (dec_of n 9) = Some (dec_of (m + n) 9)" by simp
    with add Some True spent parse_cost [OF n bound(1)] show ?thesis
      by (auto simp: add_cost_def request_log_of_def row_cost_def or_zero_def ok_or_def)
  next
    case False
    with add Some spent show ?thesis
      by (auto simp: add_cost_def request_log_of_def result_simps split: option.splits)
  qed
qed

end

lemma add_tokens_spent: "add_tokens r acc = Inr acc' \<Longrightarrow> ss_spent acc' = ss_spent acc"
  by (auto simp: add_tokens_def Let_def result_simps split: option.splits)

definition key_cost :: "string \<Rightarrow> ledger_row list \<Rightarrow> int" where
  "key_cost key rs = sum_list (map row_cost (filter (\<lambda>r. row_api_key_id r = key) rs))"

lemma row_cost_nonneg: "row_check r \<Longrightarrow> 0 \<le> row_cost r"
  by (auto simp: row_check_def opt_all_def row_cost_def split: option.splits)

lemma key_cost_nonneg: "\<forall>r \<in> set rs. row_check r \<Longrightarrow> 0 \<le> key_cost key rs"
  by (auto simp: key_cost_def row_cost_nonneg intro!: sum_list_nonneg)

context decimal_text_lib
begin

lemma sum_rows_spent:
  assumes "sum_rows D T (map request_log_of rs) acc = Inr acc'" "\<forall>r \<in> set rs. row_check r"
    and "or_zero (map_of (ss_spent acc) key) = dec_of m 9" "0 \<le> m" "m + key_cost key rs \<le> i64_max"
  shows "or_zero (map_of (ss_spent acc') key) = dec_of (m + key_cost key rs) 9"
  using assms
proof (induction rs arbitrary: acc m)
  case (Cons r rs)
  let ?m = "if row_api_key_id r = key then m + row_cost r else m"
  from Cons.prems(1) obtain acc1 acc2 where step: "add_cost D T (request_log_of r) acc = Inr acc1"
    "add_tokens (request_log_of r) acc1 = Inr acc2" "sum_rows D T (map request_log_of rs) acc2 = Inr acc'"
    by (auto simp: result_simps)
  have rest: "0 \<le> key_cost key rs" and cost: "0 \<le> row_cost r"
    using Cons.prems(2) key_cost_nonneg [of rs key] row_cost_nonneg [of r] by simp_all
  have total: "m + key_cost key (r # rs) = ?m + key_cost key rs" by (simp add: key_cost_def)
  have "or_zero (map_of (ss_spent acc2) key) = dec_of ?m 9"
    unfolding add_tokens_spent [OF step(2)]
    by (rule add_cost_spent [OF step(1)]) (use Cons.prems rest total in auto)
  from Cons.IH [OF step(3) _ this] Cons.prems(2,4,5) cost total show ?case by auto
qed (simp add: key_cost_def)

end

text \<open>The contract can be met: plain decimal notation, read and written exactly.\<close>

fun digits_to_int :: "int \<Rightarrow> string \<Rightarrow> int option" where
  "digits_to_int acc [] = Some acc"
| "digits_to_int acc (c # cs) =
     (if is_ascii_digit c then digits_to_int (10 * acc + int (byte c - 48)) cs else None)"

definition parse_decimal :: "string \<Rightarrow> rat option" where
  "parse_decimal t =
     (let whole = takeWhile (\<lambda>c. c \<noteq> CHR ''.'') t; fraction = drop (length whole + 1) t
      in if whole = [] \<or> fraction = [] then None
         else map_option (\<lambda>n. dec_of n (length fraction)) (digits_to_int 0 (whole @ fraction)))"

definition fixed_text :: "nat \<Rightarrow> rat \<Rightarrow> string" where
  "fixed_text k x =
     (let n = round_half_away (x * 10 ^ k)
      in (if n < 0 then ''-'' else []) @ show_nat (nat (\<bar>n\<bar> div 10 ^ k)) @ ''.'' @ zero_pad k (\<bar>n\<bar> mod 10 ^ k))"

definition exact_text :: decimal_text where
  "exact_text =
     \<lparr>dt_parse = parse_decimal, dt_fixed = fixed_text, dt_mul = (\<lambda>x y. if dec_representable (x * y) then Some (x * y) else None),
      dt_div = (\<lambda>x y. if y \<noteq> 0 \<and> \<bar>x / y\<bar> < 2 ^ 95 then Some (x / y) else None)\<rparr>"

lemma digit_char_digit: "d < 10 \<Longrightarrow> is_ascii_digit (digit_char d) \<and> byte (digit_char d) = 48 + d \<and> digit_char d \<noteq> CHR ''.''"
proof -
  assume "d < 10"
  then have "d = 0 \<or> d = 1 \<or> d = 2 \<or> d = 3 \<or> d = 4 \<or> d = 5 \<or> d = 6 \<or> d = 7 \<or> d = 8 \<or> d = 9" by arith
  then show ?thesis
    by (elim disjE) (simp_all add: is_ascii_digit_def digit_char_def byte_def)
qed

lemma digits_to_int_show:
  "digits_to_int acc (show_nat n @ t) = digits_to_int (acc * 10 ^ length (show_nat n) + int n) t"
proof (induction n arbitrary: t rule: show_nat.induct)
  case (1 n)
  show ?case
  proof (cases "n < 10")
    case True
    then show ?thesis using digit_char_digit [of n] by (simp add: show_nat.simps [of n] mult.commute)
  next
    case False
    have "n mod 10 < 10" by simp
    have n: "int n = 10 * int (n div 10) + int (n mod 10)"
      by (metis mult_div_mod_eq of_nat_add of_nat_mult of_nat_numeral)
    from digit_char_digit [OF \<open>n mod 10 < 10\<close>] 1 [OF False, of "[digit_char (n mod 10)] @ t"] False show ?thesis
      by (simp add: show_nat.simps [of n] n algebra_simps del: of_nat_mod of_nat_div)
  qed
qed

lemma digits_to_int_zeros: "digits_to_int acc (replicate k (CHR ''0'') @ t) = digits_to_int (acc * 10 ^ k) t"
  by (induction k arbitrary: acc) (simp_all add: is_ascii_digit_def byte_def algebra_simps)

lemma show_nat_length: "0 < k \<Longrightarrow> n < 10 ^ k \<Longrightarrow> length (show_nat n) \<le> k"
proof (induction k arbitrary: n)
  case (Suc k)
  show ?case
  proof (cases "n < 10")
    case False
    with Suc.prems(2) have "n div 10 < 10 ^ k" "0 < k" by (auto intro!: gr0I)
    from Suc.IH [OF this(2,1)] False show ?thesis by (simp add: show_nat.simps [of n])
  qed (simp add: show_nat.simps [of n])
qed simp

lemma show_nat_no_dot: "CHR ''.'' \<notin> set (show_nat n) \<and> show_nat n \<noteq> []"
proof (induction n rule: show_nat.induct)
  case (1 n)
  have "n mod 10 < 10" by simp
  from digit_char_digit [OF this] 1 digit_char_digit [of n] show ?case
    by (subst (1 2) show_nat.simps) auto
qed

lemma parse_cost_text:
  assumes "0 \<le> n"
  shows "parse_decimal (cost_text n) = Some (dec_of n 9)"
proof -
  let ?w = "show_nat (nat (n div 1000000000))" and ?m = "n mod 1000000000"
  let ?d = "show_nat (nat ?m)"
  have m: "0 \<le> ?m" "?m < 1000000000" by simp_all
  then have len: "length ?d \<le> 9" using show_nat_length [of 9 "nat ?m"] by simp
  have shown: "cost_text n = ?w @ CHR ''.'' # replicate (9 - length ?d) (CHR ''0'') @ ?d"
    using assms by (simp add: cost_text_def show_int_def zero_pad_def Let_def not_less pos_imp_zdiv_nonneg_iff)
  have whole: "takeWhile (\<lambda>c. c \<noteq> CHR ''.'') (cost_text n) = ?w"
    unfolding shown using show_nat_no_dot [of "nat (n div 1000000000)"]
    by (subst takeWhile_append2) auto
  have fraction: "drop (length ?w + 1) (cost_text n) = replicate (9 - length ?d) (CHR ''0'') @ ?d"
    unfolding shown by simp
  have "digits_to_int 0 (?w @ replicate (9 - length ?d) (CHR ''0'') @ ?d) =
      Some (n div 1000000000 * 10 ^ (9 - length ?d) * 10 ^ length ?d + ?m)"
    using digits_to_int_show [of _ "nat ?m" "[]"] assms m
    by (simp add: digits_to_int_show digits_to_int_zeros)
  also have "n div 1000000000 * 10 ^ (9 - length ?d) * 10 ^ length ?d + ?m = n"
    using len by (simp add: mult.assoc flip: power_add)
  finally show ?thesis
    using len show_nat_no_dot [of "nat (n div 1000000000)"] show_nat_no_dot [of "nat ?m"]
    unfolding parse_decimal_def Let_def whole fraction by simp
qed

interpretation exact_text: decimal_text_lib exact_decimal exact_text
  by unfold_locales (auto simp: exact_text_def parse_cost_text)

section \<open>Statistics show the quota that admission applies\<close>

definition quota_status :: "rat \<Rightarrow> quota_limits \<Rightarrow> bool \<Rightarrow> string" where
  "quota_status spent quota fb =
     (if weekly_limit_usd quota = None then ''unlimited''
      else (case access_spec spent quota fb of All \<Rightarrow> ''available'' | FallbackOnly \<Rightarrow> ''fallback'' | Blocked \<Rightarrow> ''blocked''))"

definition key_quota :: "api_key_config \<Rightarrow> quota_limits" where
  "key_quota k = \<lparr>weekly_limit_usd = key_weekly_limit_usd k, hard_limit_usd = key_hard_limit_usd k\<rparr>"

lemma stat_status_quota:
  assumes "quota_shape (key_quota k)"
  shows "stat_status (dec_of n 9) fb (key_weekly_limit_usd k) (key_hard_limit_usd k) =
    Inr (quota_status (of_int n) (key_quota k) fb)"
  using assms
  by (auto simp: quota_shape_def key_quota_def stat_status_def quota_status_def access_spec_def limit_reached_def
      dec_of_def field_simps split: option.split)

lemma sum_rows_no_panic: "sum_rows D T rows acc \<noteq> Inl Cli_Panicked"
proof (induction rows arbitrary: acc)
  case (Cons r rows)
  have "add_cost D T r acc \<noteq> Inl Cli_Panicked" for acc
    by (auto simp: add_cost_def result_simps ok_or_def split: option.splits)
  moreover have "add_tokens r acc \<noteq> Inl Cli_Panicked" for acc
    by (auto simp: add_tokens_def Let_def result_simps ok_or_def split: option.splits)
  ultimately show ?case using Cons by (auto simp: res_bind_Inl_iff)
qed simp

definition tokens_in_range :: "stat_sums \<Rightarrow> bool" where
  "tokens_in_range acc \<longleftrightarrow>
     (\<forall>k i c. map_of (ss_tokens acc) k = Some (i, c) \<longrightarrow> i64_min \<le> c \<and> c \<le> i64_max)"

lemma sum_rows_tokens:
  "sum_rows D T rows acc = Inr acc' \<Longrightarrow> tokens_in_range acc \<Longrightarrow> tokens_in_range acc'"
proof (induction rows arbitrary: acc)
  case (Cons r rows)
  have "tokens_in_range x" if "add_cost D T r acc = Inr x" for x
    using that Cons.prems(2)
    by (auto simp: add_cost_def tokens_in_range_def Let_def result_simps ok_or_def split: option.splits)
  moreover have "tokens_in_range y" if "add_tokens r x = Inr y" "tokens_in_range x" for x y
    using that
    by (auto simp: add_tokens_def tokens_in_range_def Let_def result_simps ok_or_def split: option.splits if_splits)
  ultimately show ?case using Cons by (auto simp: result_simps)
qed simp

context decimal_text_lib
begin

lemma cache_rate_defined:
  assumes "tokens_in_range acc"
  shows "\<exists>rate. cache_rate T (map_of (ss_tokens acc) key) = Inr rate"
proof (cases "map_of (ss_tokens acc) key")
  case (Some p)
  obtain i c where p: "p = (i, c)" by (cases p)
  show ?thesis
  proof (cases "0 < i")
    case True
    from assms Some p have "i64_min \<le> c" "c \<le> i64_max" by (auto simp: tokens_in_range_def)
    then have c: "\<bar>c * 100\<bar> < 2 ^ 80" by (simp add: i64_min_def i64_max_def abs_less_iff)
    then have "dec_representable (of_int (c * 100))" by (intro dec_representable_of_int) simp
    then have m: "dt_mul T (of_int c) 100 = Some (of_int c * 100)" by (intro mul_exact') simp
    have "\<bar>of_int c * 100 / of_int i\<bar> \<le> \<bar>of_int (c * 100) :: rat\<bar>"
      using True by (simp add: abs_divide divide_le_eq mult_le_cancel_left1)
    also have "\<dots> < 2 ^ 80" using c by (metis of_int_abs of_int_less_iff of_int_numeral of_int_power)
    finally have "\<bar>of_int c * 100 / of_int i :: rat\<bar> < 2 ^ 95" by simp
    from div_defined [OF _ this] True obtain z where "dt_div T (of_int c * 100) (of_int i) = Some z" by auto
    with True m show ?thesis by (simp add: cache_rate_def Some p ok_or_def)
  qed (simp add: cache_rate_def Some p)
qed (simp add: cache_rate_def)

lemma stat_cells_defined:
  assumes "tokens_in_range acc" "quota_shape (key_quota k)" "or_zero (map_of (ss_spent acc) (key_id k)) = dec_of n 9"
  shows "\<exists>rate. stat_cells T fb acc k =
    Inr [key_id k, dt_fixed T 9 (dec_of n 9), rate, quota_status (of_int n) (key_quota k) fb]"
proof -
  from cache_rate_defined [OF assms(1)] obtain rate where "cache_rate T (map_of (ss_tokens acc) (key_id k)) = Inr rate"
    by blast
  with stat_status_quota [OF assms(2)] show ?thesis by (simp add: stat_cells_def assms(3))
qed

lemma stat_cells_total:
  assumes "tokens_in_range acc" "quota_shape (key_quota k)"
  shows "\<exists>cells. stat_cells T fb acc k = Inr (key_id k # cells)"
  using cache_rate_defined [OF assms(1), of "key_id k"] assms(2)
  by (auto simp: stat_cells_def stat_status_def quota_shape_def key_quota_def Let_def split: option.split)

end

lemma res_map_from_elements:
  assumes "\<And>i x. x \<in> set xs \<Longrightarrow> f i x = Inr (g x)"
  shows "res_map_from i f xs = Inr (map g xs)"
  using assms by (induction xs arbitrary: i) simp_all

definition logged_between :: "int \<Rightarrow> int \<Rightarrow> ledger_row \<Rightarrow> bool" where
  "logged_between lo hi r \<longleftrightarrow>
     lo * 86400 \<le> row_requested_at_ms r div 1000 \<and> row_requested_at_ms r div 1000 < hi * 86400"

lemma logged_between_ms:
  "logged_between lo hi r \<longleftrightarrow> lo * 86400000 \<le> row_requested_at_ms r \<and> row_requested_at_ms r < hi * 86400000"
proof -
  have "f * 86400 \<le> x div 1000 \<longleftrightarrow> f * 86400000 \<le> x" for f x :: int by linarith
  from this [of lo] this [of hi] show ?thesis by (auto simp: logged_between_def not_le [symmetric])
qed

text \<open>The spend of the current week is the cost of the rows the default range selects.\<close>

lemma week_spend:
  assumes "current_week_spend_nano_usd env key now st = Inr spent"
    and d: "d = utc_day now - number_days_from_monday now"
  shows "spent = of_int (key_cost key (filter (logged_between d (d + 7)) (ledger st))) \<and>
    key_cost key (filter (logged_between d (d + 7)) (ledger st)) \<le> i64_max"
proof -
  have start: "monday_start now div 1000000 = d * 86400000" by (simp add: monday_start_def ns_per_day_def d)
  have end': "d * 86400000 + 604800000 = (d + 7) * 86400000" by simp
  have window: "row_in_window key (d * 86400000) ((d + 7) * 86400000) r \<longleftrightarrow>
      row_api_key_id r = key \<and> row_cost_nano_usd r \<noteq> None \<and> logged_between d (d + 7) r" for r
    unfolding row_in_window_def logged_between_ms by blast
  have "sum_list (map row_cost (filter (row_in_window key (d * 86400000) ((d + 7) * 86400000)) rows)) =
      key_cost key (filter (logged_between d (d + 7)) rows)" for rows
    by (induction rows) (auto simp: key_cost_def window row_cost_def simp del: distrib_right_numeral)
  then have cost: "select_spend key (d * 86400000) (d * 86400000 + 604800000) (ledger st) =
      key_cost key (filter (logged_between d (d + 7)) (ledger st))"
    unfolding end' select_spend_def by blast
  from assms(1) have "spent = of_int (select_spend key (d * 86400000) (d * 86400000 + 604800000) (ledger st)) \<and>
      select_spend key (d * 86400000) (d * 86400000 + 604800000) (ledger st) \<le> i64_max"
    by (auto simp: current_week_spend_nano_usd_def timestamp_ms_def start ok_or_def result_simps
        split: if_splits option.splits)
  then show ?thesis unfolding cost .
qed

text \<open>The run of \<open>stat\<close> without dates: the rows of the current week, summed, and a line for each key.\<close>

definition week_rows :: "int \<Rightarrow> store \<Rightarrow> request_log list" where
  "week_rows d st = map request_log_of (filter (logged_between d (d + 7)) (ledger st))"

definition stat_lines :: "decimal_text \<Rightarrow> config \<Rightarrow> stat_sums \<Rightarrow> string list list" where
  "stat_lines T c acc = map (\<lambda>k. projr (stat_cells T (fallback_model c \<noteq> None) acc k)) (api_keys c)"

lemma stat_lines_cells:
  assumes lib: "decimal_text_lib D T" and shape: "\<And>k. k \<in> set (api_keys c) \<Longrightarrow> quota_shape (key_quota k)"
    and "tokens_in_range acc"
  shows "res_map_from 0 (\<lambda>_. stat_cells T (fallback_model c \<noteq> None) acc) (api_keys c) = Inr (stat_lines T c acc)"
  unfolding stat_lines_def
proof (rule res_map_from_elements)
  fix k assume "k \<in> set (api_keys c)"
  from decimal_text_lib.stat_cells_total [OF lib assms(3) shape [OF this], of "fallback_model c \<noteq> None"]
  show "stat_cells T (fallback_model c \<noteq> None) acc k = Inr (projr (stat_cells T (fallback_model c \<noteq> None) acc k))" by auto
qed

lemma week_sums_in_range:
  assumes "sum_rows D T (week_rows d st) \<lparr>ss_spent = [], ss_tokens = []\<rparr> = Inr acc" shows "tokens_in_range acc"
  using sum_rows_tokens [OF assms] by (simp add: tokens_in_range_def)

lemma print_stat_run:
  assumes lib: "decimal_text_lib D T" and config: "ce_config E = Inr c"
    and shape: "\<And>k. k \<in> set (api_keys c) \<Longrightarrow> quota_shape (key_quota k)"
    and now: "0 \<le> now" "utc_day now + 7 \<le> date_max" and d_def: "d = utc_day now - number_days_from_monday now"
  shows "print_stat D T E now \<lparr>sa_start_date = None, sa_end_date = None\<rparr> st =
    (if \<not> ce_opens E then Inl (Cli_Failed (''failed to open SQLite state '' @ state_path (cfg_state c)))
     else if ce_query_fails E then Inl (Cli_Failed ''failed to query usage statistics'')
     else res_bind (sum_rows D T (week_rows d st) \<lparr>ss_spent = [], ss_tokens = []\<rparr>) (\<lambda>acc. Inr ((d, d + 6), stat_lines T c acc)))"
proof -
  have d: "- 6 \<le> d" "d + 7 \<le> date_max" using now
    by (simp_all add: d_def number_days_from_monday_def utc_day_def ns_per_day_def)
  have range: "stat_range now \<lparr>sa_start_date = None, sa_end_date = None\<rparr> = Inr (d, d + 6)"
    using d by (simp add: stat_range_def checked_date_def date_max_def flip: d_def)
  have seven: "7 + d = d + 7" by simp
  have format: "rfc3339_ok (d * 86400) 0" "rfc3339_ok ((d + 7) * 86400) 0"
    using d by (simp_all add: rfc3339_ok_def date_max_def)
  have rows: "filter (\<lambda>r. d * 86400 \<le> lg_requested_at r \<and> lg_requested_at r < (7 + d) * 86400) (request_logs st) = week_rows d st"
    unfolding seven logged_between_def [abs_def] request_logs_def filter_map week_rows_def
    by (simp add: comp_def request_log_of_def del: distrib_right_numeral)
  show ?thesis
    using format [folded seven] stat_lines_cells [OF lib shape week_sums_in_range]
    by (cases "sum_rows D T (week_rows d st) \<lparr>ss_spent = [], ss_tokens = []\<rparr>")
      (simp_all add: print_stat_def range config map_err_def open_read_only_def Let_def
        rows del: distrib_right_numeral)
qed

lemma stat_line_of_key:
  assumes lib: "decimal_text_lib D T" and ok: "store_ok st"
    and shape: "\<And>k. k \<in> set (api_keys c) \<Longrightarrow> quota_shape (key_quota k)"
    and d_def: "d = utc_day now - number_days_from_monday now"
    and sums: "sum_rows D T (week_rows d st) \<lparr>ss_spent = [], ss_tokens = []\<rparr> = Inr acc"
    and k: "k \<in> set (api_keys c)" and spent: "current_week_spend_nano_usd env (key_id k) now st = Inr spent"
  shows "\<exists>rate. [key_id k, dt_fixed T 9 (spent / 10 ^ 9), rate,
    quota_status spent (key_quota k) (fallback_model c \<noteq> None)] \<in> set (stat_lines T c acc)"
proof -
  let ?n = "key_cost (key_id k) (filter (logged_between d (d + 7)) (ledger st))" and ?fb = "fallback_model c \<noteq> None"
  from week_spend [OF spent d_def] have n: "spent = of_int ?n" "?n \<le> i64_max" by simp_all
  have "or_zero (map_of (ss_spent acc) (key_id k)) = dec_of (0 + ?n) 9"
    by (rule decimal_text_lib.sum_rows_spent [OF lib sums [unfolded week_rows_def]])
      (use ok n(2) in \<open>auto simp: store_ok_def or_zero_def dec_of_def\<close>)
  from decimal_text_lib.stat_cells_defined [OF lib week_sums_in_range [OF sums] shape [OF k], of ?n ?fb] this
  obtain rate where "stat_cells T ?fb acc k =
      Inr [key_id k, dt_fixed T 9 (spent / 10 ^ 9), rate, quota_status spent (key_quota k) ?fb]"
    by (auto simp: n(1) dec_of_def)
  then have "projr (stat_cells T ?fb acc k) =
      [key_id k, dt_fixed T 9 (spent / 10 ^ 9), rate, quota_status spent (key_quota k) ?fb]" by simp
  from imageI [OF k, of "\<lambda>k. projr (stat_cells T ?fb acc k)", unfolded this] show ?thesis by (auto simp: stat_lines_def)
qed

lemma stat_lines_keys:
  assumes "decimal_text_lib D T" "tokens_in_range acc" "\<And>k. k \<in> set (api_keys c) \<Longrightarrow> quota_shape (key_quota k)"
  shows "map hd (stat_lines T c acc) = map key_id (api_keys c)"
  using decimal_text_lib.stat_cells_total [OF assms, of _ "fallback_model c \<noteq> None"] by (fastforce simp: stat_lines_def comp_def)

text \<open>
  C22. The \<open>stat\<close> command of the current week: it never panics, it covers Monday to Sunday, it has one line for
  each configured key in their order, and the line of a key shows exactly what the quota rule counts: the
  committed spend that admission would read at that moment, and the status that admission and the models list
  would give it. It holds of every store the relay can leave, whatever the other keys have spent.
\<close>

theorem stat_agrees_with_admission:
  assumes lib: "decimal_text_lib D T" and ok: "store_ok st" and config: "ce_config E = Inr c"
    and shape: "\<And>k. k \<in> set (api_keys c) \<Longrightarrow> quota_shape (key_quota k)"
    and now: "0 \<le> now" "utc_day now + 7 \<le> date_max"
  shows "case print_stat D T E now \<lparr>sa_start_date = None, sa_end_date = None\<rparr> st of
      Inl e \<Rightarrow> e \<noteq> Cli_Panicked
    | Inr ((monday, sunday), cells) \<Rightarrow>
        monday * ns_per_day = monday_start now \<and> sunday = monday + 6 \<and> map hd cells = map key_id (api_keys c) \<and>
        (\<forall>k \<in> set (api_keys c). \<forall>env spent. current_week_spend_nano_usd env (key_id k) now st = Inr spent \<longrightarrow>
           (\<exists>rate. [key_id k, dt_fixed T 9 (spent / 10 ^ 9), rate,
             quota_status spent (key_quota k) (fallback_model c \<noteq> None)] \<in> set cells))"
proof -
  define d where "d = utc_day now - number_days_from_monday now"
  note run = print_stat_run [OF lib config shape now d_def, of st]
  have monday: "d * ns_per_day = monday_start now" by (simp add: d_def monday_start_def)
  show ?thesis
  proof (cases "sum_rows D T (week_rows d st) \<lparr>ss_spent = [], ss_tokens = []\<rparr>")
    case (Inl e)
    with sum_rows_no_panic [of D T "week_rows d st" "\<lparr>ss_spent = [], ss_tokens = []\<rparr>"] show ?thesis by (auto simp: run)
  next
    case (Inr acc)
    from stat_lines_keys [OF lib week_sums_in_range [OF Inr] shape] stat_line_of_key [OF lib ok shape d_def Inr] monday
    show ?thesis by (simp add: run Inr)
  qed
qed

definition demo_row :: ledger_row where
  "demo_row =
     \<lparr>row_id = 1, row_requested_at_ms = 1767225600000, row_finished_at_ms = Some 1767225601000,
      row_api_key_id = ''alice'', row_model = ''big'', row_reasoning_effort = None, row_api_protocol = ''responses'',
      row_transport = ''http_sse'', row_input_tokens = Some 1500, row_cached_input_tokens = Some 500,
      row_output_tokens = Some 20, row_cost_nano_usd = Some 5500000000, row_duration_ms = Some 1000,
      row_status = ''completed'', row_http_status = Some 200\<rparr>"

definition demo_spent :: store where
  "demo_spent = empty_store\<lparr>ledger := [demo_row], last_rowid := 1\<rparr>"

definition demo_cli :: cli_env where
  "demo_cli = \<lparr>ce_config = Inr demo_config, ce_opens = True, ce_query_fails = False\<rparr>"

lemma demo_spent_ok: "store_ok demo_spent"
  by (simp add: store_ok_def demo_spent_def demo_row_def row_check_def row_shape_def all_statuses_def empty_store_def i64_max_def)

lemma demo_spend_alice: "current_week_spend_nano_usd no_faults ''alice'' demo_now demo_spent = Inr 5500000000"
  by (simp add: current_week_spend_nano_usd_def demo_monday timestamp_ms_def i64_try_from_def i64_min_def i64_max_def
      select_spend_def demo_spent_def demo_row_def empty_store_def row_in_window_def row_cost_def)

lemma demo_stat_returns:
  "\<exists>x. print_stat exact_decimal exact_text demo_cli demo_now \<lparr>sa_start_date = None, sa_end_date = None\<rparr> demo_spent = Inr x"
proof -
  have cost: "dt_parse exact_text (cost_text 5500000000) = Some (dec_of 5500000000 9)"
    by (rule exact_text.parse_cost) (simp_all add: i64_max_def)
  have add: "dec_checked_add exact_decimal 0 (dec_of 5500000000 9) = Some (dec_of 5500000000 9)"
    using exact.add_scaled [of 0 5500000000 9] by (simp add: dec_of_def)
  have "\<exists>acc. sum_rows exact_decimal exact_text (map request_log_of [demo_row]) \<lparr>ss_spent = [], ss_tokens = []\<rparr> = Inr acc"
    using cost add
    by (simp add: add_cost_def add_tokens_def request_log_of_def demo_row_def ok_or_def or_zero_def i64_try_from_def
        i64_min_def i64_max_def)
  then obtain acc where acc: "sum_rows exact_decimal exact_text [request_log_of demo_row] \<lparr>ss_spent = [], ss_tokens = []\<rparr> = Inr acc"
    by auto
  have "tokens_in_range acc" using sum_rows_tokens [OF acc] by (simp add: tokens_in_range_def)
  then have "\<exists>cells. stat_cells exact_text True acc k = Inr (key_id k # cells)" if "k \<in> set (api_keys demo_config)" for k
    by (rule exact_text.stat_cells_total) (use that in \<open>auto simp: demo_config_def quota_shape_def key_quota_def\<close>)
  then have "res_map_from 0 (\<lambda>_. stat_cells exact_text True acc) (api_keys demo_config) =
      Inr (map (\<lambda>k. projr (stat_cells exact_text True acc k)) (api_keys demo_config))"
    by (intro res_map_from_elements) fastforce
  then show ?thesis
    using acc
    by (simp add: print_stat_def stat_range_def checked_date_def date_max_def utc_day_def number_days_from_monday_def
        demo_now_def ns_per_day_def demo_cli_def open_read_only_def rfc3339_ok_def Let_def request_logs_def demo_spent_def
        empty_store_def map_err_def) (simp add: demo_config_def request_log_of_def demo_row_def)
qed

theorem stat_agrees_with_admission_witness:
  "\<exists>monday sunday cells rate. print_stat exact_decimal exact_text demo_cli demo_now
      \<lparr>sa_start_date = None, sa_end_date = None\<rparr> demo_spent = Inr ((monday, sunday), cells) \<and>
    [''alice'', dt_fixed exact_text 9 (5500000000 / 10 ^ 9), rate, ''fallback''] \<in> set cells"
proof -
  obtain monday sunday cells where run: "print_stat exact_decimal exact_text demo_cli demo_now
      \<lparr>sa_start_date = None, sa_end_date = None\<rparr> demo_spent = Inr ((monday, sunday), cells)"
    using demo_stat_returns by auto
  have config: "ce_config demo_cli = Inr demo_config" by (simp add: demo_cli_def)
  have shape: "k \<in> set (api_keys demo_config) \<Longrightarrow> quota_shape (key_quota k)" for k
    by (auto simp: demo_config_def quota_shape_def key_quota_def)
  have now: "0 \<le> demo_now" "utc_day demo_now + 7 \<le> date_max"
    by (simp_all add: demo_now_def utc_day_def ns_per_day_def date_max_def)
  let ?alice = "api_keys demo_config ! 0"
  have alice: "?alice \<in> set (api_keys demo_config)" "key_id ?alice = ''alice''" by (simp_all add: demo_config_def)
  have "quota_status 5500000000 (key_quota ?alice) (fallback_model demo_config \<noteq> None) = ''fallback''"
    by (simp add: quota_status_def key_quota_def demo_config_def access_spec_def limit_reached_def)
  then show ?thesis
    using stat_agrees_with_admission [OF exact_text.decimal_text_lib_axioms demo_spent_ok config shape now] run alice demo_spend_alice
    by fastforce
qed

section \<open>Logs show the newest matching requests\<close>

lemma insort_key_last: "\<forall>y \<in> set ys. f y < f x \<Longrightarrow> insort_key f x ys = ys @ [x]"
  by (induction ys) (auto simp: leD)

lemma newest_descending:
  assumes "sorted_wrt (<) (map lg_id rows)"
  shows "newest n rows = take n (rev rows)"
proof -
  from assms have "sort_key (\<lambda>r. - lg_id r) rows = rev rows"
    by (induction rows) (simp_all add: insort_key_last)
  then show ?thesis by (simp add: newest_def)
qed

lemma take_rev_newest:
  fixes f :: "'a \<Rightarrow> int"
  assumes "sorted_wrt (<) (map f xs)"
  shows "sorted_wrt (>) (map f (take n (rev xs)))"
    and "r \<in> set xs \<Longrightarrow> r \<notin> set (take n (rev xs)) \<Longrightarrow>
      length (take n (rev xs)) = n \<and> (\<forall>s \<in> set (take n (rev xs)). f r < f s)"
proof -
  have down: "sorted_wrt (\<lambda>a b. f b < f a) (take n (rev xs) @ drop n (rev xs))"
    using assms by (simp add: sorted_wrt_rev sorted_wrt_map)
  then show "sorted_wrt (>) (map f (take n (rev xs)))"
    unfolding sorted_wrt_append by (simp add: sorted_wrt_map)
  assume "r \<in> set xs" "r \<notin> set (take n (rev xs))"
  then have left: "r \<in> set (drop n (rev xs))" by (metis Un_iff append_take_drop_id set_append set_rev)
  then have "drop n (rev xs) \<noteq> []" by force
  then have "length (take n (rev xs)) = n" by simp
  moreover from down left have "\<forall>s \<in> set (take n (rev xs)). f r < f s" unfolding sorted_wrt_append by blast
  ultimately show "length (take n (rev xs)) = n \<and> (\<forall>s \<in> set (take n (rev xs)). f r < f s)" ..
qed

lemma res_map_from_Inr: "res_map_from i (\<lambda>_. f) xs = Inr ys \<longleftrightarrow> map f xs = map Inr ys"
  by (induction xs arbitrary: i ys) (auto simp: result_simps Cons_eq_map_conv)

text \<open>What the filters ask of a row of the ledger: \<open>since\<close> is inclusive, \<open>until\<close> exclusive.\<close>

definition row_wanted :: "logs_args \<Rightarrow> ledger_row \<Rightarrow> bool" where
  "row_wanted args r \<longleftrightarrow>
     (\<forall>k. la_api_key_id args = Some k \<longrightarrow> row_api_key_id r = k) \<and>
     (\<forall>m. la_model args = Some m \<longrightarrow> row_model r = m) \<and>
     (\<forall>s. la_status args = Some s \<longrightarrow> row_status r = log_status_as_str s) \<and>
     (\<forall>t. la_since args = Some t \<longrightarrow> at_unix t * 1000 \<le> row_requested_at_ms r) \<and>
     (\<forall>t. la_until args = Some t \<longrightarrow> row_requested_at_ms r < at_unix t * 1000)"



end
