(* ===== verification/Startup.thy ===== *)
theory Startup
  imports Server Config_Load Cli
begin

text \<open>
  From the command line to the last task (\<open>run\<close> of \<open>src/cli.rs\<close>, \<open>run_with_clock\<close> of \<open>src/lib.rs\<close>): what a start
  reads and opens, in its order and with its errors, the routes it serves, and the life of a server from its
  start to its shutdown, over any number of restarts. The operating system and the libraries are the fields of
  \<open>surroundings\<close>.
\<close>

section \<open>Starting\<close>

record 'pool surroundings =
  sr_os :: os
  sr_parsers :: parsers
  sr_toml :: "string \<Rightarrow> toml_error + config_document"
  sr_show_toml :: "toml_error \<Rightarrow> string"
  sr_utf8 :: "string \<Rightarrow> bool"
  sr_connect :: "connect_options \<Rightarrow> file_system \<Rightarrow> 'pool option"
  sr_migrate :: "'pool \<Rightarrow> store option"
  sr_http_client :: bool
  sr_tokens :: token_ops
  sr_auth_json :: "string \<Rightarrow> auth_file option"
  sr_database :: db_env
  sr_urls :: url_ops
  sr_bind :: "string \<Rightarrow> bool"

text \<open>The contexts that \<open>run_with_clock\<close> gives its errors.\<close>

datatype startup_error =
    Config_Not_Loaded load_error
  | State_Not_Initialized StoreError
  | Http_Client_Not_Initialized
  | Authentication_Not_Initialized CredentialError
  | Address_Not_Bound

definition read_to_string :: "'pool surroundings \<Rightarrow> file_system \<Rightarrow> string \<Rightarrow> string option" where
  "read_to_string E fs path = opt_filter (sr_utf8 E) (read_bytes (sr_os E) path fs)"

definition load :: "'pool surroundings \<Rightarrow> file_system \<Rightarrow> string \<Rightarrow> load_error + config" where
  "load E fs path = load_config (sr_parsers E) (sr_toml E) (sr_show_toml E) (read_to_string E fs) path"

definition initial_app :: "'pool surroundings \<Rightarrow> config \<Rightarrow> store \<Rightarrow> app_state" where
  "initial_app E c st =
     \<lparr>as_config = c, as_store = st, as_client = upstream_http_client_new (sr_urls E) (base_url (cfg_upstream c)),
      as_models = None, as_sends = [], as_sessions = empty_cache\<rparr>"

definition start :: "'pool surroundings \<Rightarrow> string \<Rightarrow> file_system \<Rightarrow> (startup_error + server) \<times> file_system" where
  "start E path fs =
     (case load E fs path of
        Inl e \<Rightarrow> (Inl (Config_Not_Loaded e), fs)
      | Inr c \<Rightarrow>
          (case store_open (sr_os E) (sr_connect E) (sr_migrate E) (state_path (cfg_state c)) (file_mode (cfg_state c)) fs of
             (Inl e, fs') \<Rightarrow> (Inl (State_Not_Initialized e), fs')
           | (Inr st, fs') \<Rightarrow>
               if \<not> sr_http_client E then (Inl Http_Client_Not_Initialized, fs')
               else
                 (case credential_manager_load (sr_tokens E) (sr_auth_json E) (sr_database E)
                         (read_bytes (sr_os E) (auth_file (cfg_upstream c)) fs') st of
                    (Inl e, st') \<Rightarrow> (Inl (Authentication_Not_Initialized e), fs')
                  | (Inr cs, st') \<Rightarrow>
                      if \<not> sr_bind E (listen (cfg_server c)) then (Inl Address_Not_Bound, fs')
                      else (Inr (server_init (initial_app E c st') cs), fs'))))"

section \<open>Routes\<close>

datatype endpoint =
    Post_Responses
  | Websocket_Responses
  | Post_Chat_Completions
  | Post_Image_Generations
  | Post_Image_Edits
  | Get_Models
  | Get_Model

record route =
  rt_template :: string
  rt_methods :: "(string \<times> endpoint) list"
  rt_body_limit :: bool

definition router :: "config \<Rightarrow> route list" where
  "router c =
     [\<lparr>rt_template = ''/v1/responses'',
       rt_methods = (if enable_websockets (cfg_server c)
                     then [(''POST'', Post_Responses), (''GET'', Websocket_Responses)]
                     else [(''POST'', Post_Responses)]), rt_body_limit = True\<rparr>,
      \<lparr>rt_template = ''/v1/chat/completions'', rt_methods = [(''POST'', Post_Chat_Completions)], rt_body_limit = True\<rparr>,
      \<lparr>rt_template = ''/v1/images/generations'', rt_methods = [(''POST'', Post_Image_Generations)], rt_body_limit = False\<rparr>,
      \<lparr>rt_template = ''/v1/images/edits'', rt_methods = [(''POST'', Post_Image_Edits)], rt_body_limit = False\<rparr>,
      \<lparr>rt_template = ''/v1/models'', rt_methods = [(''GET'', Get_Models)], rt_body_limit = True\<rparr>,
      \<lparr>rt_template = ''/v1/models/{model}'', rt_methods = [(''GET'', Get_Model)], rt_body_limit = True\<rparr>]"

definition endpoint_of :: "config \<Rightarrow> string \<Rightarrow> string \<Rightarrow> endpoint option" where
  "endpoint_of c verb template =
     opt_bind (find (\<lambda>r. rt_template r = template) (router c)) (\<lambda>r. map_of (rt_methods r) verb)"

section \<open>The commands\<close>

datatype command = Serve | Logs logs_args | Stat stat_args

datatype command_result =
    Served "startup_error + server"
  | Listed "cli_error + string list list"
  | Summed "cli_error + (int \<times> int) \<times> string list list"

text \<open>What the reporting commands find: the configuration, and the database opened read-only.\<close>

definition cli_env_of :: "(load_error \<Rightarrow> string) \<Rightarrow> bool \<Rightarrow> bool \<Rightarrow> 'pool surroundings \<Rightarrow> file_system \<Rightarrow> string \<Rightarrow> cli_env" where
  "cli_env_of shown opens query_fails E fs path =
     \<lparr>ce_config = map_err shown (load E fs path), ce_opens = opens, ce_query_fails = query_fails\<rparr>"

definition run_command ::
  "'pool surroundings \<Rightarrow> calendar_ops \<Rightarrow> decimal_ops \<Rightarrow> decimal_text \<Rightarrow> cli_env \<Rightarrow> int \<Rightarrow> store \<Rightarrow> string \<Rightarrow> command \<Rightarrow>
     file_system \<Rightarrow> command_result \<times> file_system" where
  "run_command E C D T R now st path command fs =
     (case command of
        Serve \<Rightarrow> (case start E path fs of (r, fs') \<Rightarrow> (Served r, fs'))
      | Logs args \<Rightarrow> (Listed (print_logs C R args st), fs)
      | Stat args \<Rightarrow> (Summed (print_stat D T R now args st), fs))"

section \<open>What a start finds and what it makes\<close>

text \<open>
  A database as the program leaves it: the ledger's invariant, and no credential or one that reads back and can
  be sent.
\<close>

definition database_ok :: "token_ops \<Rightarrow> store \<Rightarrow> bool" where
  "database_ok ops st \<longleftrightarrow> store_ok st \<and>
     (credentials st = None \<or>
      (\<exists>c. stored_credential st = Some c \<and> upstream_headers_are_valid ops (access_token c) (account_id c)))"

definition databases_ok :: "'pool surroundings \<Rightarrow> bool" where
  "databases_ok E \<longleftrightarrow> (\<forall>pool st. sr_migrate E pool = Some st \<longrightarrow> database_ok (sr_tokens E) st)"

lemma load_valid: "load E fs path = Inr c \<Longrightarrow> validate c = Inr ()"
  by (auto simp: load_def load_config_def result_simps)

lemma seed_usable:
  "read_auth_seed ops parse contents = Inr seed \<Longrightarrow> upstream_headers_are_valid ops (access_token seed) (account_id seed)"
  by (auto simp: read_auth_seed_def Let_def result_simps split: if_splits)

lemma manager_load_well:
  assumes "credential_manager_load ops parse env contents st = (Inr c, st')" "database_ok ops st"
  shows "store_ok st'" "cs_generation c = 0" "stored_credential st' = Some (cs_credential c)" "usable ops (snapshot_from_state c)"
    "ledger st' = ledger st"
proof -
  from assms(1) obtain seed where seed: "read_auth_seed ops parse contents = Inr seed"
      and loaded: "load_or_import_credentials env seed st = (Inr (cs_credential c), st')" and gen: "cs_generation c = 0"
    by (auto simp: credential_manager_load_def split: sum.splits prod.splits)
  from import_keeps_newest [OF loaded] obtain row' where row': "credentials st' = Some row'"
      "credential_from_row row' = Inr (cs_credential c)"
      "case credentials st of None \<Rightarrow> cs_credential c = seed | Some row \<Rightarrow>
         if cr_last_refresh_ns row < last_refresh seed then cs_credential c = seed else row' = row"
    by (auto split: option.splits)
  have "store_steps exact_decimal st st'" by (rule r_into_rtranclp) (rule store_step.import_step [OF loaded])
  from store_ok_steps [OF this] assms(2) show "store_ok st'" by (simp add: database_ok_def)
  from row' show "stored_credential st' = Some (cs_credential c)" by (simp add: stored_credential_def)
  from assms(2) row' seed_usable [OF seed] show "usable ops (snapshot_from_state c)"
    by (auto simp: database_ok_def usable_def snapshot_from_state_def stored_credential_def split: option.splits if_splits)
  from loaded show "ledger st' = ledger st"
    by (auto simp: load_or_import_credentials_def commit_credentials_def split: sum.splits if_splits option.splits)
  from gen show "cs_generation c = 0" .
qed

lemma start_cases:
  assumes "start E path fs = (Inr s, fs')"
  obtains c st st' cs pool where "load E fs path = Inr c" "sr_migrate E pool = Some st"
    "store_open (sr_os E) (sr_connect E) (sr_migrate E) (state_path (cfg_state c)) (file_mode (cfg_state c)) fs = (Inr st, fs')"
    "credential_manager_load (sr_tokens E) (sr_auth_json E) (sr_database E)
       (read_bytes (sr_os E) (auth_file (cfg_upstream c)) fs') st = (Inr cs, st')"
    "s = server_init (initial_app E c st') cs"
  using assms
  by (auto simp: start_def store_open_def result_simps split: sum.splits prod.splits if_splits elim!: res_bindE)

lemma start_well:
  assumes "start E path fs = (Inr s, fs')" "databases_ok E"
  obtains a c where "s = server_init a c" "starts_well (sr_tokens E) a c" "load E fs path = Inr (as_config a)"
    "\<And>r. row_started (as_store a) r \<Longrightarrow> \<exists>pool st. sr_migrate E pool = Some st \<and> row_started st r"
  using assms(1)
proof (cases rule: start_cases)
  case (1 c st st' cs pool)
  with assms(2) have "database_ok (sr_tokens E) st" by (auto simp: databases_ok_def)
  note well = manager_load_well [OF 1(4) this]
  have "row_started st r" if "row_started st' r" for r
    using that well(5) by (cases r) (simp add: row_started_def)
  with 1 well load_valid [OF 1(1)] show thesis
    by (intro that [of "initial_app E c st'" cs]) (auto simp: starts_well_def initial_app_def)
qed

section \<open>The life of a server\<close>

lemma server_ok_database:
  assumes "server_ok ops D a0 s" shows "database_ok ops (as_store (server_app s))"
  using assms relay_ok_app(1) [of D a0 "sv_relay s"]
  by (simp add: server_ok_def database_ok_def memory_inv_def usable_def snapshot_from_state_def)

lemma server_ok_rows:
  "server_ok ops D a0 s \<Longrightarrow> row_started (as_store (server_app s)) r \<Longrightarrow>
     row_started (as_store a0) r \<or> r \<in> jobs_rows (rl_jobs (sv_relay s))"
  by (auto simp: server_ok_def relay_ok_def opens_only_def)

lemma told_tasks_end:
  assumes "server_ok ops D a0 s" "j \<in> set (rl_jobs (sv_relay s))" "reliable_world W" "wd_decimal W = D"
  shows "\<exists>a. shut_job W x actor j (server_app s) = Returned a"
proof -
  from assms(2) obtain js ks where "rl_jobs (sv_relay s) = js @ j # ks" by (auto dest: split_list)
  moreover from assms(1) have "jobs_ok (sv_relay s)" by (auto simp: server_ok_def intro: relay_ok_jobs)
  ultimately show ?thesis using told_finishes [of s js j ks W D x actor] assms(3,4) by metis
qed


section \<open>WebSockets\<close>

definition has_websocket :: "relay \<Rightarrow> bool" where
  "has_websocket r \<longleftrightarrow> (\<exists>w. Ws_Job w \<in> set (rl_jobs r))"

lemma relay_step_websocket:
  assumes "relay_step D r r'" "has_websocket r'"
  shows "has_websocket r \<or> enable_websockets (cfg_server (as_config (rl_app r)))"
  using assms
  by cases (auto simp: has_websocket_def chat_jobs_def responses_jobs_def split: chat_outcome.splits responses_outcome.splits)

lemma server_ok_config: "server_ok ops D a0 s \<Longrightarrow> as_config (server_app s) = as_config a0"
  by (simp add: server_ok_def relay_ok_def opens_only_def others_may_def)

lemma server_websockets:
  assumes "server_steps ops D (server_init a c) s" "starts_well ops a c" "has_websocket (sv_relay s)"
  shows "enable_websockets (cfg_server (as_config a))"
  using assms(1,3)
proof induction
  case base
  then show ?case by (simp add: has_websocket_def server_init_def)
next
  case (step t u)
  from server_ok_config [OF server_ok_steps [OF step(1) server_ok_init [OF assms(2)]]]
  have config: "as_config (server_app t) = as_config a" .
  from step(2) show ?case
  proof cases
    case (relaying r)
    with relay_step_websocket [OF relaying(2)] step.IH step.prems config show ?thesis by auto
  next
    case (refreshing y)
    with step.IH step.prems show ?thesis by (simp add: has_websocket_def)
  qed
qed


section \<open>A start\<close>

definition demo_started_config :: config where
  "demo_started_config =
     \<lparr>cfg_server = \<lparr>listen = ''127.0.0.1:8080'', enable_websockets = True\<rparr>,
      cfg_state = \<lparr>state_path = ''db'', file_mode = 384\<rparr>,
      cfg_upstream = \<lparr>base_url = default_upstream_base_url, oauth_token_url = default_oauth_token_url,
        auth_file = ''auth.json'', supports_websockets = True\<rparr>,
      fallback_model = None,
      api_keys = [\<lparr>key_id = ''alice'', key_secret = ''aa'', key_weekly_limit_usd = None, key_hard_limit_usd = None\<rparr>],
      model_prices = [(''m'', \<lparr>price_input = 1, price_cached_input = 1, price_output = 1, max_reasoning_effort = None\<rparr>)]\<rparr>"

definition demo_auth :: auth_file where
  "demo_auth = \<lparr>af_auth_mode = ''chatgpt'', af_tokens = \<lparr>at_id_token = ''id'', at_access_token = ''at'',
     at_refresh_token = ''rt'', at_account_id = Some ''acct''\<rparr>, af_last_refresh = ''then''\<rparr>"

definition demo_surroundings :: "unit surroundings" where
  "demo_surroundings =
     \<lparr>sr_os = demo_os, sr_parsers = demo_parsers,
      sr_toml = (\<lambda>text. Inr ((demo_document text)\<lparr>cd_enable_websockets := Some True, cd_supports_websockets := Some True\<rparr>)),
      sr_show_toml = te_message, sr_utf8 = (\<lambda>_. True), sr_connect = (\<lambda>_ _. Some ()), sr_migrate = (\<lambda>_. Some demo_seeded),
      sr_http_client = True, sr_tokens = demo_ops, sr_auth_json = (\<lambda>_. Some demo_auth), sr_database = no_faults,
      sr_urls = demo_url_ops,
      sr_bind = (\<lambda>_. True)\<rparr>"

definition demo_files :: file_system where
  "demo_files = [''c1'' \<mapsto> Regular 384 ''aa'', ''auth.json'' \<mapsto> Regular 384 ''{}'']"

lemma demo_fields:
  "sr_os demo_surroundings = demo_os" "sr_tokens demo_surroundings = demo_ops" "sr_database demo_surroundings = no_faults"
  "sr_auth_json demo_surroundings = (\<lambda>_. Some demo_auth)" "sr_connect demo_surroundings = (\<lambda>_ _. Some ())"
  "sr_migrate demo_surroundings = (\<lambda>_. Some demo_seeded)" "sr_bind demo_surroundings = (\<lambda>_. True)"
  "sr_http_client demo_surroundings" "sr_utf8 demo_surroundings = (\<lambda>_. True)" "sr_parsers demo_surroundings = demo_parsers"
  "sr_toml demo_surroundings text =
     Inr ((demo_document text)\<lparr>cd_enable_websockets := Some True, cd_supports_websockets := Some True\<rparr>)"
  "cfg_state demo_started_config = \<lparr>state_path = ''db'', file_mode = 384\<rparr>"
  "auth_file (cfg_upstream demo_started_config) = ''auth.json''"
  by (simp_all add: demo_surroundings_def demo_started_config_def)

lemma demo_read:
  "read_bytes demo_os ''c1'' demo_files = Some ''aa''"
  "read_bytes demo_os ''auth.json'' (demo_files(''db'' \<mapsto> Regular 384 [])) = Some ''{}''"
  by (rule read_regular, simp_all add: demo_os_def demo_files_def)+

lemma demo_loaded: "load demo_surroundings demo_files ''c1'' = Inr demo_started_config"
proof -
  have "read_to_string demo_surroundings demo_files ''c1'' = Some ''aa''"
    by (simp add: read_to_string_def demo_fields demo_read opt_filter_def)
  then show ?thesis
    by (simp add: load_def load_config_def demo_fields demo_document_def demo_parsers_def deserialize_config_def deserialize_state_def
      deserialize_upstream_def field_or_def deserialize_api_key_def deserialize_optional_decimal_def deserialize_price_def
      deserialize_decimal_def deserialize_server_def default_state_file_mode_def validate_def validate_http_url_def
      default_upstream_base_url_def default_oauth_token_url_def validate_api_key_def validate_model_price_def
      validate_fallback_def is_ascii_whitespace_def byte_def demo_started_config_def)
qed

lemma demo_seed: "read_auth_seed demo_ops (\<lambda>_. Some demo_auth) (Some bytes) = Inr (demo_credential\<lparr>access_expires_at := None\<rparr>)"
proof -
  have "trim ''at'' = ''at''" "trim ''rt'' = ''rt''" "trim ''id'' = ''id''" "trim ''acct'' = ''acct''" by code_simp+
  then show ?thesis
    by (simp add: read_auth_seed_def demo_auth_def Let_def opt_filter_def upstream_headers_are_valid_def demo_credential_def
        access_expiry_def decode_jwt_payload_def) (simp add: demo_ops_def)
qed

lemma demo_manager: "credential_manager_load demo_ops (\<lambda>_. Some demo_auth) no_faults (Some bytes) demo_seeded = (Inr demo_state, demo_seeded)"
  by (simp add: credential_manager_load_def demo_seed load_or_import_credentials_def commit_credentials_def no_faults_def
      demo_seeded_def credential_from_row_def offset_from_ns_def demo_credential_def demo_state_def)

definition demo_started :: server where
  "demo_started = server_init (initial_app demo_surroundings demo_started_config demo_seeded) demo_state"

lemma demo_start_server: "\<exists>fs'. start demo_surroundings ''c1'' demo_files = (Inr demo_started, fs')"
proof -
  have "prepare_state_file demo_os ''db'' 384 demo_files = (Inr (), demo_files(''db'' \<mapsto> Regular 384 []))"
    by (simp add: prepare_state_file_def open_create_new_def demo_os_def demo_files_def)
  then show ?thesis
    by (simp add: start_def demo_loaded store_open_def demo_fields demo_read demo_manager demo_started_def)
qed

lemma demo_databases_ok: "databases_ok demo_surroundings"
  using demo_starts_well
  by (auto simp: databases_ok_def demo_surroundings_def database_ok_def starts_well_def demo_seeded_app_def usable_def
      snapshot_from_state_def)

text \<open>A client connects, and then the server is shut down.\<close>

definition demo_session :: ws_session where
  "demo_session =
     \<lparr>ws_downstream = [], ws_down_ok = (\<lambda>_. True), ws_upstream = demo_ws_socket, ws_app = server_app demo_started,
      ws_identity = \<lparr>client_id = ''alice'', client_quota = \<lparr>weekly_limit_usd = None, hard_limit_usd = None\<rparr>\<rparr>,
      ws_active = None, ws_admitted = []\<rparr>"

definition demo_serving :: server where
  "demo_serving = demo_started\<lparr>sv_relay := \<lparr>rl_app = server_app demo_started, rl_jobs = [] @ [Ws_Job demo_session]\<rparr>\<rparr>"

lemma demo_serving_run: "server_steps demo_ops exact_decimal demo_started demo_serving"
proof -
  have "responses_websocket Some (=) (\<lambda>_. Some (Inr demo_ws_socket)) False (\<lambda>_. True) [(''authorization'', ''Bearer aa'')]
      (server_app demo_started) = Some (Inr demo_session)"
    by (simp add: responses_websocket_def demo_started_def server_init_def initial_app_def authenticate_def get_all_def
        demo_started_config_def is_ascii_whitespace_def byte_def demo_session_def)
  from relay_step.websocket_opened [OF _ this, of exact_decimal "[]"]
  have "relay_step exact_decimal (sv_relay demo_started) \<lparr>rl_app = server_app demo_started, rl_jobs = [] @ [Ws_Job demo_session]\<rparr>"
    by (simp add: demo_started_def server_init_def initial_app_def demo_started_config_def)
  from relaying [OF this, of demo_ops] show ?thesis unfolding demo_serving_def by (rule r_into_rtranclp)
qed

lemma demo_shut: "\<exists>s'. shutdown_step demo_ops exact_decimal demo_serving s' \<and> rl_jobs (sv_relay s') = [] \<and>
  sy_tasks (sv_credentials s') = []"
proof -
  have "starts_well demo_ops (initial_app demo_surroundings demo_started_config demo_seeded) demo_state"
    using demo_starts_well load_valid [OF demo_loaded] by (simp add: starts_well_def initial_app_def demo_seeded_app_def)
  from server_ok_steps [OF demo_serving_run [unfolded demo_started_def] server_ok_init [OF this]]
  have "jobs_ok (sv_relay demo_serving)" by (auto simp: server_ok_def intro: relay_ok_jobs)
  moreover have jobs: "rl_jobs (sv_relay demo_serving) = [] @ Ws_Job demo_session # []" by (simp add: demo_serving_def)
  moreover have decimal: "wd_decimal demo_world = exact_decimal" by (simp add: demo_world_def)
  ultimately obtain a where "shut_job demo_world ([], False) demo_actor (Ws_Job demo_session) (server_app demo_serving) = Returned a"
    using told_finishes [OF _ _ demo_reliable] by metis
  from told [OF jobs demo_reliable decimal this, of demo_ops] show ?thesis
    by (intro exI, intro conjI, assumption) (simp_all add: demo_serving_def demo_started_def server_init_def credential_system_init_def)
qed



end
