(* ===== verification/Spec2Isabelle.thy ===== *)
theory Spec2Isabelle
  imports Startup
begin

text \<open>
  codex-api is a relay in front of the ChatGPT Codex service. Clients hold API keys and speak the Responses
  and Chat Completions protocols over HTTP, or Responses over a WebSocket; the relay authenticates them,
  checks a weekly quota, picks the model and effort they may use, forwards the request with the operator's
  own credentials, relays the answer and records in a ledger what the request cost. This development models
  the crate under \<open>src/src/\<close> and proves what keeps that ledger, the quota, the credentials and
  the relayed conversations right.

  How the parts of the program correspond to the theories:

  \<^item> \<open>Prelude\<close>, \<open>Json\<close>, \<open>Money\<close>: shared results and options,
    ordered string maps, \<open>serde_json::Value\<close> with the accessors the code uses, and the
    interface of the decimal library with an exact instance.
  \<^item> \<open>Store\<close>, \<open>Store_Props\<close> (\<open>store.rs\<close>): the request ledger
    and the credential row as the tables SQLite keeps, each statement able to fail.
    \<open>begin_request\<close>, \<open>finalize_request\<close>, \<open>record_rejection\<close>,
    \<open>model_access\<close>, the cost and spend computations and the credential operations, their ledger
    invariant \<open>store_ok\<close>, and the quota rule they implement.
  \<^item> \<open>State_File\<close>, \<open>Config_Load\<close> (\<open>Store::open\<close> in
    \<open>store.rs\<close>, \<open>Config::load\<close> in \<open>config.rs\<close>): the state file over a
    file system of nodes, links, modes and a umask; the configuration from the file through its document and
    deserialisers to a validated \<open>config\<close>, and what may be printed of it.
  \<^item> \<open>Api_Error\<close> (\<open>error.rs\<close>), \<open>Config\<close>
    (\<open>config.rs\<close>), \<open>Auth\<close> (\<open>auth.rs\<close>): errors and their bodies; the
    validation of a configuration, the candidates of a model and the rewriting of a request for the admitted
    one; authentication.
  \<^item> \<open>Pending\<close> (\<open>http_api/request.rs\<close>): the guard that closes a row. What it
    needs from the store is the locale \<open>finalizer\<close>, interpreted on the store
    (\<open>sf\<close>) and on the shared state (\<open>af\<close>).
  \<^item> \<open>Credentials\<close>, \<open>Credential_Flight\<close> (\<open>credentials.rs\<close>): the
    credential manager. One refresh, with the durable copy as the locale \<open>credential_store\<close>;
    then all callers and refresh tasks interleaved, as the step relation \<open>credential_step\<close>.
  \<^item> \<open>Upstream_Headers\<close>, \<open>Upstream_Http\<close>, \<open>Upstream_Ws\<close>
    (\<open>upstream_headers.rs\<close>, \<open>upstream_http.rs\<close>, \<open>upstream_ws.rs\<close>):
    the headers that go upstream, the authenticated requests with one refresh and one retry (the locale
    \<open>authenticated_attempt\<close>), the cached models list, the handshake, and the warm-up that
    prepares a Responses Lite context.
  \<^item> \<open>Terminal\<close>, \<open>Sse\<close> (\<open>responses_terminal.rs\<close>,
    \<open>sse.rs\<close>): terminal events, their usage, the retry advice for capacity failures, and the
    classification of server-sent events.
  \<^item> \<open>Chat_Request\<close>, \<open>Chat_Response\<close> (\<open>chat.rs\<close>): the
    conversions between Chat Completions and Responses.
  \<^item> \<open>Session_Cache\<close>, \<open>Session_Actor\<close>
    (\<open>http_api/responses_session.rs\<close>): the table of HTTP sessions with its budget, as a step
    relation of concurrent handlers and actors; the actor that owns one upstream connection.
  \<^item> \<open>Responses_Stream\<close> (\<open>http_api.rs\<close>): the loops that relay an upstream
    answer.
  \<^item> \<open>App_State\<close> (\<open>state.rs\<close>): what the handlers share, and what other tasks
    may do to it meanwhile.
  \<^item> \<open>Ws_Session\<close> (\<open>ws.rs\<close>): the WebSocket endpoint, as the loop
    \<open>ws_run\<close>.
  \<^item> \<open>Http_Api\<close> (\<open>http_api.rs\<close>): the handlers \<open>models\<close>,
    \<open>model\<close>, \<open>responses\<close>, \<open>chat_completions\<close> and the image proxy,
    from authentication to the answer. A Responses turn leaves \<open>responses_handler\<close> with its
    guard and goes on in \<open>Session_Actor.respond\<close>; a chat stream goes on in
    \<open>chat_task\<close>.
  \<^item> \<open>Relay\<close> (\<open>lib.rs\<close>): the handlers and tasks together, as the step
    relation \<open>relay_step\<close> over the shared state and the tasks that hold rows. Every step is a
    \<open>job_moved\<close>: some tasks make way for others, which hold or have closed their rows. A step
    is one handler, one task run to its end or one event of a connection; how the calls inside a step
    interleave with other tasks is not split further, what they may meet is \<open>others_may\<close>.
  \<^item> \<open>Server\<close> (\<open>lib.rs\<close>, \<open>credentials.rs\<close>): the relay and the
    credential manager over one store, as \<open>server_step\<close>, and the shutdown, as
    \<open>shutdown_step\<close>. Either part keeps what the other relies on: requests leave the stored
    credentials alone, refreshes the ledger.
  \<^item> \<open>Startup\<close> (\<open>lib.rs\<close>, \<open>run\<close> in \<open>cli.rs\<close>):
    \<open>start\<close>, in the order of \<open>run_with_clock\<close> and with its errors, the routes, the
    commands, and the life of a server from its start to the end of its shutdown.
  \<^item> \<open>Cli\<close> (\<open>cli.rs\<close> and the view of \<open>migrations/0002\<close>): the
    commands \<open>logs\<close> and \<open>stat\<close>, as the cells of the table they print. What they
    need of \<open>Decimal\<close>'s text is the locale \<open>decimal_text_lib\<close>, interpreted on a
    parser and printer of plain decimal notation.

  How it is modelled. State is a record passed explicitly; a result that can fail is \<open>Inl\<close> of
  the error or \<open>Inr\<close> of the value; a panic is a value of its own (\<open>None\<close> or
  \<open>Panics\<close>) and a wait that nothing ends is \<open>Waiting\<close>, so a theorem that something
  returns excludes both. Token counts and generations are 64-bit words and wrap; ledger columns and times
  are integers with the range checks of \<open>i64\<close> written out. An \<open>await\<close> that races
  with something else takes the arm its argument says, and every loop consumes a list of the inputs its
  \<open>select!\<close> yields, so it needs no fuel: a loop whose inputs run out is \<open>Waiting\<close>.
  The theorems quantify over the inputs, the failures, the clock and, where tasks interleave, the schedule.

  What is a parameter. The decimal type, the JSON parser and printer, the URL and HTTP header types, the
  HTTP client, the WebSocket dialer, the clock, the constant-time comparison, the date parser, the
  TOML library, the refusals of the operating system and SQLite's failures are arguments, with the documented behaviour a theorem needs as its hypotheses.

  What the theorems show: every admitted request is closed at most once, and while its row can be written it is
  closed whatever client, upstream and shutdown do, so that when the server has shut down none it admitted is
  open; a server that stops or is killed anywhere leaves a database the next one starts from; the row of a
  request carries what its usage costs, rounded once; admission, the models list and \<open>stat\<close>
  apply one quota rule; a refresh token is sent again only after the endpoint answered with a 5xx, and what is
  handed out is durable first; one turn at a time uses a
  session, and what it sends upstream together with the context it names is the client's whole history;
  validators accept exactly the well-formed inputs, conversions keep what the client said and what the
  upstream answered, and loading a configuration prints no secret.

  Not modelled: what SQLite and the migrations do with the file, the TOML and JSON grammars, the HTTP
  framework's matching of paths and framing of answers, the HTTP client and the listener, signals, log
  output, the parsing of the command line and the drawing of tables. These are libraries that the code
  calls; where their answers matter they are arguments. Also: other processes that move files during a
  start, and crashes inside one SQL transaction, which SQLite makes atomic.
\<close>

end
